(* ===== verification/WA_Store.thy ===== *)
theory WA_Store
  imports
    WA_Prelude
    "HOL-Library.Product_Lexorder"
    "HOL-Library.Option_ord"
begin

text \<open>
  The database, \<open>src/src/store.rs\<close>: its tables at schema version 6 and one definition per
  operation of \<open>impl Store\<close>.

  A table is the list of its rows, oldest insertion first. \<open>meta\<close> is a map. \<open>AUTOINCREMENT\<close> tables
  carry their sequence (\<open>users_seq\<close>, \<open>servers_seq\<close>, \<open>groups_seq\<close>): the next id is the sequence
  plus one, and a sequence at the largest \<open>i64\<close> is SQLite's error for a full table. Declared
  constraints are part of the operations that can run into them: cascading deletes, foreign keys
  on the inserts that are not preceded by a check, the primary key of \<open>sessions\<close>.

  A statement can fail for reasons outside the data (the disk, a lock held too long). \<open>sql_fault\<close>
  says which operations fail and with which message; an operation that fails has changed nothing.
  The mutex makes every operation atomic, so an operation is a function of the state. Readings of
  the clock (\<open>now()\<close>) and SQLite's \<open>random()\<close> are arguments. A \<open>HashSet\<close> is walked in the order of
  the list it was built from; the order shows only in which unknown id an error names.
\<close>

section \<open>Rows and results\<close>

datatype store_error =
    Sql string
  | Io string
  | Newer int int
  | NotFound
  | Conflict string
  | Invalid string

text \<open>The columns of \<open>users\<close>; \<open>local_hash\<close> is what makes an account local.\<close>

record user_row =
  ur_id :: int
  ur_username :: string
  ur_display_name :: "string option"
  ur_sid :: "string option"
  ur_is_admin :: bool
  ur_sid_mismatch :: bool
  ur_created :: unix_time
  ur_last_login :: "unix_time option"
  ur_local_hash :: "string option"
  ur_incarnation :: int

record group_row =
  gr_id :: int
  gr_name :: string
  gr_sort :: int

record server_row =
  sr_id :: int
  sr_name :: string
  sr_host :: string
  sr_port :: int
  sr_group_id :: "int option"
  sr_domain :: "string option"
  sr_incarnation :: int

record stored_credential =
  sc_username :: string
  sc_domain :: "string option"
  sc_nonce :: bytes
  sc_secret :: bytes

record credential_row =
  cr_user_id :: int
  cr_server_id :: int
  cr_cred :: stored_credential
  cr_updated :: unix_time

record session_row =
  se_token_hash :: bytes
  se_user_id :: int
  se_created :: unix_time
  se_expires :: unix_time

record session_log_row =
  sl_user_id :: int
  sl_server_id :: int
  sl_ended :: unix_time

record audit_row =
  au_id :: int
  au_at :: unix_time
  au_actor :: string
  au_action :: string
  au_detail :: string

text \<open>What the operations return: \<open>User\<close>, \<open>Server\<close> and the rows of the lists.\<close>

record user =
  u_id :: int
  u_username :: string
  u_display_name :: "string option"
  u_sid :: "string option"
  u_is_admin :: bool
  u_sid_mismatch :: bool
  u_created :: unix_time
  u_last_login :: "unix_time option"
  u_local :: bool
  u_incarnation :: int

record user_listed =
  ul_user :: user
  ul_server_count :: int
  ul_saved_count :: int

record server_group =
  g_id :: int
  g_name :: string
  g_sort :: int
  g_server_count :: int

record server =
  s_id :: int
  s_name :: string
  s_host :: string
  s_port :: "16 word"
  s_group_id :: "int option"
  s_domain :: "string option"

record server_counted =
  sv_server :: server
  sv_assigned :: int

record listed_server =
  ls_server :: server
  ls_group_name :: "string option"

record counts_rec =
  n_users :: int
  n_servers :: int
  n_assignments :: int
  n_credentials :: int

record import_row =
  ir_name :: string
  ir_host :: string
  ir_port :: "16 word option"
  ir_group :: "string option option"
  ir_domain :: "string option option"

record store =
  sql_fault :: "string \<Rightarrow> string option"
  meta :: "string \<Rightarrow> bytes option"
  users :: "user_row list"
  users_seq :: int
  server_groups :: "group_row list"
  groups_seq :: int
  servers :: "server_row list"
  servers_seq :: int
  assignments :: "(int \<times> int) list"
  credentials :: "credential_row list"
  sessions :: "session_row list"
  session_log :: "session_log_row list"
  audit_log :: "audit_row list"

definition SCHEMA_VERSION :: int where
  "SCHEMA_VERSION = 6"

text \<open>The database a first start creates.\<close>

definition empty_store :: store where
  "empty_store = \<lparr> sql_fault = (\<lambda>_. None), meta = (\<lambda>_. None), users = [], users_seq = 0,
     server_groups = [], groups_seq = 0, servers = [], servers_seq = 0, assignments = [],
     credentials = [], sessions = [], session_log = [], audit_log = [] \<rparr>"

text \<open>One operation's statements: the outcome, unless the database fails.\<close>

definition stmt :: "store \<Rightarrow> string \<Rightarrow> store_error + 'a \<Rightarrow> store_error + 'a" where
  "stmt s opname r = (case sql_fault s opname of Some e \<Rightarrow> Err (Sql e) | None \<Rightarrow> r)"

definition user_from :: "user_row \<Rightarrow> user" where
  "user_from r = \<lparr> u_id = ur_id r, u_username = ur_username r, u_display_name = ur_display_name r,
     u_sid = ur_sid r, u_is_admin = ur_is_admin r, u_sid_mismatch = ur_sid_mismatch r,
     u_created = ur_created r, u_last_login = ur_last_login r,
     u_local = (ur_local_hash r \<noteq> None), u_incarnation = ur_incarnation r \<rparr>"

text \<open>\<open>r.get::<_, i64>(3)? as u16\<close> truncates to sixteen bits.\<close>

definition server_from :: "server_row \<Rightarrow> server" where
  "server_from r = \<lparr> s_id = sr_id r, s_name = sr_name r, s_host = sr_host r,
     s_port = word_of_int (sr_port r), s_group_id = sr_group_id r, s_domain = sr_domain r \<rparr>"

text \<open>SQLite's answer when an \<open>AUTOINCREMENT\<close> sequence is used up.\<close>

definition next_id :: "int \<Rightarrow> store_error + int" where
  "next_id sq = (if sq < 2 ^ 63 - 1 then Ok (sq + 1) else Err (Sql ''database or disk is full''))"

definition user_exists :: "store \<Rightarrow> int \<Rightarrow> bool" where
  "user_exists s i \<longleftrightarrow> i \<in> ur_id ` set (users s)"

definition server_exists :: "store \<Rightarrow> int \<Rightarrow> bool" where
  "server_exists s i \<longleftrightarrow> i \<in> sr_id ` set (servers s)"

section \<open>Meta values\<close>

definition meta_get :: "store \<Rightarrow> string \<Rightarrow> store_error + bytes option" where
  "meta_get s key = stmt s ''meta_get'' (Ok (meta s key))"

definition meta_set :: "store \<Rightarrow> string \<Rightarrow> bytes \<Rightarrow> store_error + (unit \<times> store)" where
  "meta_set s key v = stmt s ''meta_set'' (Ok ((), s\<lparr>meta := (meta s)(key \<mapsto> v)\<rparr>))"

definition meta_delete :: "store \<Rightarrow> string \<Rightarrow> store_error + (unit \<times> store)" where
  "meta_delete s key = stmt s ''meta_delete'' (Ok ((), s\<lparr>meta := (meta s)(key := None)\<rparr>))"

definition replace_secrets ::
  "store \<Rightarrow> string list \<Rightarrow> string \<times> bytes \<Rightarrow> store_error + (nat \<times> store)" where
  "replace_secrets s forget kv = stmt s ''replace_secrets''
     (let removed = length (credentials s);
          forgotten = fold (\<lambda>k m. m(k := None)) forget (meta s)
      in Ok (removed, s\<lparr>credentials := [], meta := forgotten(fst kv \<mapsto> snd kv)\<rparr>))"

definition flag :: "store \<Rightarrow> string \<Rightarrow> store_error + bool" where
  "flag s key = (case meta_get s key of Err e \<Rightarrow> Err e | Ok v \<Rightarrow> Ok (v = Some (bytes_of ''1'')))"

definition set_flag :: "store \<Rightarrow> string \<Rightarrow> bool \<Rightarrow> store_error + (unit \<times> store)" where
  "set_flag s key on = (if on then meta_set s key (bytes_of ''1'') else meta_delete s key)"

section \<open>Users\<close>

definition user_by_id :: "store \<Rightarrow> int \<Rightarrow> store_error + user option" where
  "user_by_id s i = stmt s ''user_by_id''
     (Ok (map_option user_from (List.find (\<lambda>r. ur_id r = i) (users s))))"

definition user_by_name :: "store \<Rightarrow> string \<Rightarrow> store_error + user option" where
  "user_by_name s name = stmt s ''user_by_name''
     (Ok (map_option user_from (List.find (\<lambda>r. ur_username r = name) (users s))))"

definition directory_user_by_sid :: "store \<Rightarrow> string \<Rightarrow> store_error + user option" where
  "directory_user_by_sid s sid = stmt s ''directory_user_by_sid''
     (case sort_key ur_id (filter (\<lambda>r. ur_sid r = Some sid \<and> ur_local_hash r = None) (users s)) of
        [] \<Rightarrow> Ok None
      | r # _ \<Rightarrow> Ok (Some (user_from r)))"

definition user_rename ::
  "store \<Rightarrow> int \<Rightarrow> int \<Rightarrow> string \<Rightarrow> string \<Rightarrow> store_error + (bool \<times> store)" where
  "user_rename s i inc sid new_name = stmt s ''user_rename''
     (let hit = (\<lambda>r. ur_id r = i \<and> ur_incarnation r = inc \<and> ur_sid r = Some sid \<and>
                     ur_local_hash r = None \<and> new_name \<notin> ur_username ` set (users s))
      in Ok (count_where hit (users s) = 1,
             s\<lparr>users := update_where hit (\<lambda>r. r\<lparr>ur_username := new_name\<rparr>) (users s)\<rparr>))"

definition users_list :: "store \<Rightarrow> store_error + user_listed list" where
  "users_list s = stmt s ''users_list''
     (Ok (map (\<lambda>r. \<lparr> ul_user = user_from r,
             ul_server_count = int (count_where (\<lambda>a. fst a = ur_id r) (assignments s)),
             ul_saved_count = int (count_where (\<lambda>k. cr_user_id k = ur_id r) (credentials s)) \<rparr>)
           (sort_key ur_username (users s))))"

definition user_create_returning ::
  "store \<Rightarrow> unix_time \<Rightarrow> int \<Rightarrow> string \<Rightarrow> string option \<Rightarrow> store_error + (user \<times> store)" where
  "user_create_returning s now rnd username display = stmt s ''user_create_returning''
     (if username \<in> ur_username ` set (users s)
      then Err (Conflict (username @ '' is already a user''))
      else (case next_id (users_seq s) of
              Err e \<Rightarrow> Err e
            | Ok i \<Rightarrow>
                (let r = \<lparr> ur_id = i, ur_username = username, ur_display_name = display,
                           ur_sid = None, ur_is_admin = False, ur_sid_mismatch = False,
                           ur_created = now, ur_last_login = None, ur_local_hash = None,
                           ur_incarnation = rnd \<rparr>
                 in Ok (user_from r, s\<lparr>users := users s @ [r], users_seq := i\<rparr>))))"

definition user_create ::
  "store \<Rightarrow> unix_time \<Rightarrow> int \<Rightarrow> string \<Rightarrow> string option \<Rightarrow> store_error + (int \<times> store)" where
  "user_create s now rnd username display =
     (case user_create_returning s now rnd username display of
        Err e \<Rightarrow> Err e | Ok (u, t) \<Rightarrow> Ok (u_id u, t))"

text \<open>\<open>COALESCE(a, b)\<close>.\<close>

definition coalesce :: "'a option \<Rightarrow> 'a option \<Rightarrow> 'a option" where
  "coalesce a b = (case a of Some x \<Rightarrow> Some x | None \<Rightarrow> b)"

definition user_record_login ::
  "store \<Rightarrow> unix_time \<Rightarrow> int \<Rightarrow> int \<Rightarrow> string \<Rightarrow> string option \<Rightarrow> store_error + (bool \<times> store)" where
  "user_record_login s now i inc sid display = stmt s ''user_record_login''
     (let hit = (\<lambda>r. ur_id r = i \<and> ur_incarnation r = inc \<and>
                     (ur_sid r = None \<or> ur_sid r = Some sid))
      in Ok (count_where hit (users s) > 0,
             s\<lparr>users := update_where hit
                (\<lambda>r. r\<lparr>ur_sid := coalesce (ur_sid r) (Some sid),
                       ur_display_name := coalesce display (ur_display_name r),
                       ur_last_login := Some now\<rparr>) (users s)\<rparr>))"

definition local_account_set ::
  "store \<Rightarrow> unix_time \<Rightarrow> int \<Rightarrow> string \<Rightarrow> string \<Rightarrow> string \<Rightarrow> store_error + (int \<times> store)" where
  "local_account_set s now rnd username hsh sid = stmt s ''local_account_set''
     (case List.find (\<lambda>r. ur_username r = username) (users s) of
        Some r \<Rightarrow>
          (if ur_local_hash r = None
           then Err (Conflict (username @
                  '' is a directory user; choose another name for the local account''))
           else Ok (ur_id r, s\<lparr>users := update_where (\<lambda>q. ur_id q = ur_id r)
                                (\<lambda>q. q\<lparr>ur_local_hash := Some hsh\<rparr>) (users s)\<rparr>))
      | None \<Rightarrow>
          (case next_id (users_seq s) of
             Err e \<Rightarrow> Err e
           | Ok i \<Rightarrow>
               Ok (i, s\<lparr>users := users s @
                         [\<lparr> ur_id = i, ur_username = username,
                            ur_display_name = Some (username @ '' (local)''),
                            ur_sid = Some sid, ur_is_admin = False, ur_sid_mismatch = False,
                            ur_created = now, ur_last_login = None, ur_local_hash = Some hsh,
                            ur_incarnation = rnd \<rparr>],
                        users_seq := i\<rparr>)))"

definition local_hash :: "store \<Rightarrow> int \<Rightarrow> store_error + string option" where
  "local_hash s i = stmt s ''local_hash''
     (Ok (Option.bind (List.find (\<lambda>r. ur_id r = i) (users s)) ur_local_hash))"

definition user_flag_mismatch :: "store \<Rightarrow> int \<Rightarrow> store_error + (unit \<times> store)" where
  "user_flag_mismatch s i = stmt s ''user_flag_mismatch''
     (Ok ((), s\<lparr>users := update_where (\<lambda>r. ur_id r = i)
                           (\<lambda>r. r\<lparr>ur_sid_mismatch := True\<rparr>) (users s)\<rparr>))"

definition user_set_admin :: "store \<Rightarrow> int \<Rightarrow> bool \<Rightarrow> store_error + (unit \<times> store)" where
  "user_set_admin s i admin = stmt s ''user_set_admin''
     (if count_where (\<lambda>r. ur_id r = i) (users s) = 0 then Err NotFound
      else Ok ((), s\<lparr>users := update_where (\<lambda>r. ur_id r = i)
                                (\<lambda>r. r\<lparr>ur_is_admin := admin\<rparr>) (users s)\<rparr>))"

definition user_clear_sid :: "store \<Rightarrow> int \<Rightarrow> store_error + (unit \<times> store)" where
  "user_clear_sid s i = stmt s ''user_clear_sid''
     (if count_where (\<lambda>r. ur_id r = i) (users s) = 0 then Err NotFound
      else Ok ((), s\<lparr>users := update_where (\<lambda>r. ur_id r = i)
                                (\<lambda>r. r\<lparr>ur_sid := None, ur_sid_mismatch := False\<rparr>) (users s),
                     credentials := filter (\<lambda>k. cr_user_id k \<noteq> i) (credentials s),
                     sessions := filter (\<lambda>e. se_user_id e \<noteq> i) (sessions s)\<rparr>))"

text \<open>
  Deleting a user row: every table that references it says \<open>ON DELETE CASCADE\<close>.
\<close>

definition user_delete :: "store \<Rightarrow> int \<Rightarrow> store_error + (unit \<times> store)" where
  "user_delete s i = stmt s ''user_delete''
     (if count_where (\<lambda>r. ur_id r = i) (users s) = 0 then Err NotFound
      else Ok ((), s\<lparr>users := filter (\<lambda>r. ur_id r \<noteq> i) (users s),
                     assignments := filter (\<lambda>a. fst a \<noteq> i) (assignments s),
                     credentials := filter (\<lambda>k. cr_user_id k \<noteq> i) (credentials s),
                     sessions := filter (\<lambda>e. se_user_id e \<noteq> i) (sessions s),
                     session_log := filter (\<lambda>l. sl_user_id l \<noteq> i) (session_log s)\<rparr>))"

definition directory_users_with_sessions :: "store \<Rightarrow> unix_time \<Rightarrow> store_error + user list" where
  "directory_users_with_sessions s at = stmt s ''directory_users_with_sessions''
     (Ok (map user_from (filter
        (\<lambda>r. ur_local_hash r = None \<and>
             (\<exists>e \<in> set (sessions s). se_user_id e = ur_id r \<and> se_expires e > at)) (users s))))"

section \<open>Server groups\<close>

definition group_taken :: "store \<Rightarrow> string \<Rightarrow> bool" where
  "group_taken s name \<longleftrightarrow> (\<exists>g \<in> set (server_groups s). eq_ignore_ascii_case (gr_name g) name)"

definition groups_list :: "store \<Rightarrow> store_error + server_group list" where
  "groups_list s = stmt s ''groups_list''
     (Ok (map (\<lambda>g. \<lparr> g_id = gr_id g, g_name = gr_name g, g_sort = gr_sort g,
             g_server_count = int (count_where (\<lambda>r. sr_group_id r = Some (gr_id g)) (servers s)) \<rparr>)
           (sort_key (\<lambda>g. (gr_sort g, to_ascii_lowercase (gr_name g))) (server_groups s))))"

definition group_insert :: "store \<Rightarrow> string \<Rightarrow> store_error + (int \<times> store)" where
  "group_insert s name =
     (if group_taken s name
      then Err (Conflict (''a group named '' @ name @ '' exists''))
      else (let next_sort = fold max (map gr_sort (server_groups s)) (-1) + 1
            in case next_id (groups_seq s) of
                 Err e \<Rightarrow> Err e
               | Ok i \<Rightarrow>
                   Ok (i, s\<lparr>server_groups := server_groups s @
                              [\<lparr> gr_id = i, gr_name = name, gr_sort = next_sort \<rparr>],
                            groups_seq := i\<rparr>)))"

definition group_create :: "store \<Rightarrow> string \<Rightarrow> store_error + (int \<times> store)" where
  "group_create s name = stmt s ''group_create'' (group_insert s name)"

definition group_rename :: "store \<Rightarrow> int \<Rightarrow> string \<Rightarrow> store_error + (unit \<times> store)" where
  "group_rename s i name = stmt s ''group_rename''
     (if \<exists>g \<in> set (server_groups s). eq_ignore_ascii_case (gr_name g) name \<and> gr_id g \<noteq> i
      then Err (Conflict (''a group named '' @ name @ '' exists''))
      else if count_where (\<lambda>g. gr_id g = i) (server_groups s) = 0 then Err NotFound
      else Ok ((), s\<lparr>server_groups := update_where (\<lambda>g. gr_id g = i)
                                        (\<lambda>g. g\<lparr>gr_name := name\<rparr>) (server_groups s)\<rparr>))"

fun group_order_from :: "nat \<Rightarrow> int list \<Rightarrow> group_row list \<Rightarrow> group_row list" where
  "group_order_from n [] gs = gs"
| "group_order_from n (i # ids) gs =
     group_order_from (n + 1) ids
       (update_where (\<lambda>g. gr_id g = i) (\<lambda>g. g\<lparr>gr_sort := int n\<rparr>) gs)"

definition group_order :: "store \<Rightarrow> int list \<Rightarrow> store_error + (unit \<times> store)" where
  "group_order s ids = stmt s ''group_order''
     (Ok ((), s\<lparr>server_groups := group_order_from 0 ids (server_groups s)\<rparr>))"

definition group_delete :: "store \<Rightarrow> int \<Rightarrow> store_error + (unit \<times> store)" where
  "group_delete s i = stmt s ''group_delete''
     (let used = count_where (\<lambda>r. sr_group_id r = Some i) (servers s)
      in if used > 0
         then Err (Conflict (''the group still holds '' @ show_nat used @ '' server(s)''))
         else if count_where (\<lambda>g. gr_id g = i) (server_groups s) = 0 then Err NotFound
         else Ok ((), s\<lparr>server_groups := filter (\<lambda>g. gr_id g \<noteq> i) (server_groups s)\<rparr>))"

section \<open>Servers\<close>

definition servers_list :: "store \<Rightarrow> store_error + server_counted list" where
  "servers_list s = stmt s ''servers_list''
     (Ok (map (\<lambda>r. \<lparr> sv_server = server_from r,
             sv_assigned = int (count_where (\<lambda>a. snd a = sr_id r) (assignments s)) \<rparr>)
           (sort_key (\<lambda>r. to_ascii_lowercase (sr_name r)) (servers s))))"

definition server_by_id :: "store \<Rightarrow> int \<Rightarrow> store_error + server option" where
  "server_by_id s i = stmt s ''server_by_id''
     (Ok (map_option server_from (List.find (\<lambda>r. sr_id r = i) (servers s))))"

definition name_free :: "store \<Rightarrow> string \<Rightarrow> int option \<Rightarrow> store_error + unit" where
  "name_free s name except =
     (if \<exists>r \<in> set (servers s). eq_ignore_ascii_case (sr_name r) name \<and>
            (except = None \<or> except \<noteq> Some (sr_id r))
      then Err (Conflict (''a server named '' @ name @ '' exists''))
      else Ok ())"

definition group_exists :: "store \<Rightarrow> int option \<Rightarrow> store_error + unit" where
  "group_exists s group_id =
     (case group_id of
        None \<Rightarrow> Ok ()
      | Some i \<Rightarrow> if i \<in> gr_id ` set (server_groups s) then Ok ()
                  else Err (Invalid (''no group with id '' @ show_int i)))"

text \<open>The \<open>INSERT\<close> shared by \<open>server_create\<close> and \<open>servers_import\<close>, with its trigger.\<close>

definition server_insert ::
  "store \<Rightarrow> int \<Rightarrow> string \<Rightarrow> string \<Rightarrow> int \<Rightarrow> int option \<Rightarrow> string option \<Rightarrow>
   store_error + (int \<times> store)" where
  "server_insert s rnd name host port group_id domain =
     (case next_id (servers_seq s) of
        Err e \<Rightarrow> Err e
      | Ok i \<Rightarrow>
          Ok (i, s\<lparr>servers := servers s @
                     [\<lparr> sr_id = i, sr_name = name, sr_host = host, sr_port = port,
                        sr_group_id = group_id, sr_domain = domain, sr_incarnation = rnd \<rparr>],
                   servers_seq := i\<rparr>))"

definition server_create ::
  "store \<Rightarrow> int \<Rightarrow> string \<Rightarrow> string \<Rightarrow> 16 word \<Rightarrow> int option \<Rightarrow> string option \<Rightarrow>
   store_error + (int \<times> store)" where
  "server_create s rnd name host port group_id domain = stmt s ''server_create''
     (case name_free s name None of
        Err e \<Rightarrow> Err e
      | Ok _ \<Rightarrow>
          (case group_exists s group_id of
             Err e \<Rightarrow> Err e
           | Ok _ \<Rightarrow> server_insert s rnd name host (uint port) group_id domain))"

definition server_update ::
  "store \<Rightarrow> int \<Rightarrow> string \<Rightarrow> string \<Rightarrow> 16 word \<Rightarrow> int option \<Rightarrow> string option \<Rightarrow>
   store_error + (unit \<times> store)" where
  "server_update s i name host port group_id domain = stmt s ''server_update''
     (case name_free s name (Some i) of
        Err e \<Rightarrow> Err e
      | Ok _ \<Rightarrow>
          (case group_exists s group_id of
             Err e \<Rightarrow> Err e
           | Ok _ \<Rightarrow>
               (if count_where (\<lambda>r. sr_id r = i) (servers s) = 0 then Err NotFound
                else Ok ((), s\<lparr>servers := update_where (\<lambda>r. sr_id r = i)
                       (\<lambda>r. r\<lparr>sr_name := name, sr_host := host, sr_port := uint port,
                              sr_group_id := group_id, sr_domain := domain\<rparr>) (servers s)\<rparr>))))"

definition server_delete :: "store \<Rightarrow> int \<Rightarrow> store_error + (unit \<times> store)" where
  "server_delete s i = stmt s ''server_delete''
     (if count_where (\<lambda>r. sr_id r = i) (servers s) = 0 then Err NotFound
      else Ok ((), s\<lparr>servers := filter (\<lambda>r. sr_id r \<noteq> i) (servers s),
                     assignments := filter (\<lambda>a. snd a \<noteq> i) (assignments s),
                     credentials := filter (\<lambda>k. cr_server_id k \<noteq> i) (credentials s),
                     session_log := filter (\<lambda>l. sl_server_id l \<noteq> i) (session_log s)\<rparr>))"

text \<open>
  One row of an import, and the import: the rows in order, all or nothing. The random number of an
  inserted row is a function of its id.
\<close>

definition import_group :: "store \<Rightarrow> string option option \<Rightarrow> store_error + (int option \<times> store)" where
  "import_group s grp =
     (case Option.bind grp (\<lambda>g. g) of
        None \<Rightarrow> Ok (None, s)
      | Some name \<Rightarrow>
          (case List.find (\<lambda>g. eq_ignore_ascii_case (gr_name g) name) (server_groups s) of
             Some g \<Rightarrow> Ok (Some (gr_id g), s)
           | None \<Rightarrow> (case group_insert s name of
                        Err e \<Rightarrow> Err e | Ok (i, t) \<Rightarrow> Ok (Some i, t))))"

definition import_one ::
  "store \<Rightarrow> (int \<Rightarrow> int) \<Rightarrow> import_row \<Rightarrow> store_error + (bool \<times> store)" where
  "import_one s rnd row =
     (case import_group s (ir_group row) of
        Err e \<Rightarrow> Err e
      | Ok (group_id, t) \<Rightarrow>
          (case List.find (\<lambda>r. eq_ignore_ascii_case (sr_name r) (ir_name row)) (servers t) of
             Some q \<Rightarrow>
               Ok (False, t\<lparr>servers := update_where (\<lambda>r. sr_id r = sr_id q)
                      (\<lambda>r. r\<lparr>sr_host := ir_host row,
                             sr_port := (case ir_port row of Some p \<Rightarrow> uint p | None \<Rightarrow> sr_port r),
                             sr_group_id := (if ir_group row \<noteq> None then group_id
                                             else sr_group_id r),
                             sr_domain := (case ir_domain row of Some d \<Rightarrow> d
                                           | None \<Rightarrow> sr_domain r)\<rparr>) (servers t)\<rparr>)
           | None \<Rightarrow>
               (case server_insert t (rnd (servers_seq t + 1)) (ir_name row) (ir_host row)
                       (case ir_port row of Some p \<Rightarrow> uint p | None \<Rightarrow> 3389) group_id
                       (Option.bind (ir_domain row) (\<lambda>d. d)) of
                  Err e \<Rightarrow> Err e
                | Ok (_, v) \<Rightarrow> Ok (True, v))))"

fun import_rows ::
  "store \<Rightarrow> (int \<Rightarrow> int) \<Rightarrow> nat \<times> nat \<Rightarrow> import_row list \<Rightarrow> store_error + ((nat \<times> nat) \<times> store)" where
  "import_rows s rnd n [] = Ok (n, s)"
| "import_rows s rnd n (row # rows) =
     (case import_one s rnd row of
        Err e \<Rightarrow> Err e
      | Ok (new, t) \<Rightarrow>
          import_rows t rnd (if new then (fst n + 1, snd n) else (fst n, snd n + 1)) rows)"

definition servers_import ::
  "store \<Rightarrow> (int \<Rightarrow> int) \<Rightarrow> import_row list \<Rightarrow> store_error + ((nat \<times> nat) \<times> store)" where
  "servers_import s rnd rows = stmt s ''servers_import'' (import_rows s rnd (0, 0) rows)"

definition servers_empty :: "store \<Rightarrow> store_error + bool" where
  "servers_empty s = stmt s ''servers_empty'' (Ok (length (servers s) = 0))"

section \<open>Assignments\<close>

definition is_assigned :: "store \<Rightarrow> int \<Rightarrow> int \<Rightarrow> store_error + bool" where
  "is_assigned s user_id server_id = stmt s ''is_assigned''
     (Ok ((user_id, server_id) \<in> set (assignments s)))"

text \<open>
  The join of \<open>assigned_servers\<close>, its left join to the group, and its order: \<open>COALESCE(g.sort,
  1000000000)\<close>, then the group's name with no group first, then the server's name, names without
  regard to case.
\<close>

definition group_of :: "store \<Rightarrow> server_row \<Rightarrow> group_row option" where
  "group_of s r = List.find (\<lambda>g. Some (gr_id g) = sr_group_id r) (server_groups s)"

definition listed_key :: "store \<Rightarrow> server_row \<Rightarrow> int \<times> string option \<times> string" where
  "listed_key s r =
     ((case group_of s r of Some g \<Rightarrow> gr_sort g | None \<Rightarrow> 1000000000),
      map_option (\<lambda>g. to_ascii_lowercase (gr_name g)) (group_of s r),
      to_ascii_lowercase (sr_name r))"

definition assigned_servers :: "store \<Rightarrow> int \<Rightarrow> store_error + listed_server list" where
  "assigned_servers s user_id = stmt s ''assigned_servers''
     (Ok (map (\<lambda>r. \<lparr> ls_server = server_from r, ls_group_name = map_option gr_name (group_of s r) \<rparr>)
        (sort_key (listed_key s)
          [r. a \<leftarrow> assignments s, fst a = user_id, r \<leftarrow> servers s, sr_id r = snd a])))"

definition assignment_ids :: "store \<Rightarrow> int \<Rightarrow> store_error + int list" where
  "assignment_ids s user_id = stmt s ''assignment_ids''
     (Ok (sort (map snd (filter (\<lambda>a. fst a = user_id) (assignments s)))))"

definition assignment_add :: "int \<Rightarrow> int \<Rightarrow> store \<Rightarrow> store" where
  "assignment_add user_id i s = s\<lparr>assignments := assignments s @ [(user_id, i)]\<rparr>"

definition assignment_remove :: "int \<Rightarrow> int \<Rightarrow> store \<Rightarrow> store" where
  "assignment_remove user_id i s =
     s\<lparr>assignments := filter (\<lambda>a. a \<noteq> (user_id, i)) (assignments s),
       credentials := filter (\<lambda>k. \<not> (cr_user_id k = user_id \<and> cr_server_id k = i)) (credentials s)\<rparr>"

definition set_assignments :: "store \<Rightarrow> int \<Rightarrow> int list \<Rightarrow> store_error + ((nat \<times> nat) \<times> store)" where
  "set_assignments s user_id ids = stmt s ''set_assignments''
     (if \<not> user_exists s user_id then Err NotFound
      else
        (let wanted = remdups ids
         in case List.find (\<lambda>i. \<not> server_exists s i) wanted of
              Some i \<Rightarrow> Err (Invalid (''no server with id '' @ show_int i))
            | None \<Rightarrow>
                (let current = remdups (map snd (filter (\<lambda>a. fst a = user_id) (assignments s)));
                     adds = filter (\<lambda>i. i \<notin> set current) wanted;
                     drops = filter (\<lambda>i. i \<notin> set wanted) current
                 in Ok ((length adds, length drops),
                        fold (assignment_remove user_id) drops
                          (fold (assignment_add user_id) adds s)))))"

definition copy_assignments :: "store \<Rightarrow> int \<Rightarrow> int \<Rightarrow> store_error + (nat \<times> store)" where
  "copy_assignments s src dst = stmt s ''copy_assignments''
     (let new = filter (\<lambda>p. p \<notin> set (assignments s))
                  (map (\<lambda>a. (dst, snd a)) (filter (\<lambda>a. fst a = src) (assignments s)))
      in if new \<noteq> [] \<and> \<not> user_exists s dst
         then Err (Sql ''FOREIGN KEY constraint failed'')
         else Ok (length new, s\<lparr>assignments := assignments s @ new\<rparr>))"

section \<open>Saved credentials\<close>

definition credential_get :: "store \<Rightarrow> int \<Rightarrow> int \<Rightarrow> store_error + stored_credential option" where
  "credential_get s user_id server_id = stmt s ''credential_get''
     (Ok (map_option cr_cred (List.find
        (\<lambda>k. cr_user_id k = user_id \<and> cr_server_id k = server_id) (credentials s))))"

definition credential_put ::
  "store \<Rightarrow> unix_time \<Rightarrow> int \<Rightarrow> int \<Rightarrow> stored_credential \<Rightarrow> store_error + (unit \<times> store)" where
  "credential_put s now user_id server_id cred = stmt s ''credential_put''
     (let same = (\<lambda>k. cr_user_id k = user_id \<and> cr_server_id k = server_id)
      in if \<exists>k \<in> set (credentials s). same k
         then Ok ((), s\<lparr>credentials := update_where same
                          (\<lambda>k. k\<lparr>cr_cred := cred, cr_updated := now\<rparr>) (credentials s)\<rparr>)
         else if \<not> (user_exists s user_id \<and> server_exists s server_id)
         then Err (Sql ''FOREIGN KEY constraint failed'')
         else Ok ((), s\<lparr>credentials := credentials s @
                          [\<lparr> cr_user_id = user_id, cr_server_id = server_id, cr_cred = cred,
                             cr_updated = now \<rparr>]\<rparr>))"

definition credential_delete :: "store \<Rightarrow> int \<Rightarrow> int \<Rightarrow> store_error + (bool \<times> store)" where
  "credential_delete s user_id server_id = stmt s ''credential_delete''
     (let same = (\<lambda>k. cr_user_id k = user_id \<and> cr_server_id k = server_id)
      in Ok (count_where same (credentials s) > 0,
             s\<lparr>credentials := filter (\<lambda>k. \<not> same k) (credentials s)\<rparr>))"

definition saved_server_ids :: "store \<Rightarrow> int \<Rightarrow> store_error + int set" where
  "saved_server_ids s user_id = stmt s ''saved_server_ids''
     (Ok (set (map cr_server_id (filter (\<lambda>k. cr_user_id k = user_id) (credentials s)))))"

section \<open>Sign-in sessions\<close>

definition user_is :: "store \<Rightarrow> int \<Rightarrow> int \<Rightarrow> bool" where
  "user_is s i inc \<longleftrightarrow> (\<exists>r \<in> set (users s). ur_id r = i \<and> ur_incarnation r = inc)"

definition server_is :: "store \<Rightarrow> int \<Rightarrow> int \<Rightarrow> bool" where
  "server_is s i inc \<longleftrightarrow> (\<exists>r \<in> set (servers s). sr_id r = i \<and> sr_incarnation r = inc)"

definition session_create ::
  "store \<Rightarrow> unix_time \<Rightarrow> bytes \<Rightarrow> int \<Rightarrow> int \<Rightarrow> unix_time \<Rightarrow> store_error + (bool \<times> store)" where
  "session_create s now token_hash user_id inc expires = stmt s ''session_create''
     (if \<not> user_is s user_id inc then Ok (False, s)
      else if token_hash \<in> se_token_hash ` set (sessions s)
      then Err (Sql ''UNIQUE constraint failed: sessions.token_hash'')
      else Ok (True, s\<lparr>sessions := sessions s @
                 [\<lparr> se_token_hash = token_hash, se_user_id = user_id, se_created = now,
                    se_expires = expires \<rparr>]\<rparr>))"

definition session_user :: "store \<Rightarrow> bytes \<Rightarrow> unix_time \<Rightarrow> store_error + user option" where
  "session_user s token_hash at = stmt s ''session_user''
     (Ok (case List.find (\<lambda>e. se_token_hash e = token_hash \<and> se_expires e > at) (sessions s) of
            None \<Rightarrow> None
          | Some e \<Rightarrow> map_option user_from (List.find (\<lambda>r. ur_id r = se_user_id e) (users s))))"

definition session_expires :: "store \<Rightarrow> bytes \<Rightarrow> store_error + unix_time option" where
  "session_expires s token_hash = stmt s ''session_expires''
     (Ok (map_option se_expires (List.find (\<lambda>e. se_token_hash e = token_hash) (sessions s))))"

definition session_delete :: "store \<Rightarrow> bytes \<Rightarrow> store_error + (unit \<times> store)" where
  "session_delete s token_hash = stmt s ''session_delete''
     (Ok ((), s\<lparr>sessions := filter (\<lambda>e. se_token_hash e \<noteq> token_hash) (sessions s)\<rparr>))"

definition sessions_delete_user :: "store \<Rightarrow> int \<Rightarrow> store_error + (nat \<times> store)" where
  "sessions_delete_user s user_id = stmt s ''sessions_delete_user''
     (Ok (count_where (\<lambda>e. se_user_id e = user_id) (sessions s),
          s\<lparr>sessions := filter (\<lambda>e. se_user_id e \<noteq> user_id) (sessions s)\<rparr>))"

definition sessions_purge :: "store \<Rightarrow> unix_time \<Rightarrow> store_error + (nat \<times> store)" where
  "sessions_purge s at = stmt s ''sessions_purge''
     (Ok (count_where (\<lambda>e. se_expires e \<le> at) (sessions s),
          s\<lparr>sessions := filter (\<lambda>e. \<not> se_expires e \<le> at) (sessions s)\<rparr>))"

section \<open>The session log\<close>

definition incarnations :: "store \<Rightarrow> int \<Rightarrow> int \<Rightarrow> store_error + (int \<times> int) option" where
  "incarnations s user_id server_id = stmt s ''incarnations''
     (Ok (case (List.find (\<lambda>r. ur_id r = user_id) (users s),
                List.find (\<lambda>r. sr_id r = server_id) (servers s)) of
            (Some u, Some v) \<Rightarrow> Some (ur_incarnation u, sr_incarnation v)
          | _ \<Rightarrow> None))"

definition session_ended ::
  "store \<Rightarrow> int \<Rightarrow> int \<Rightarrow> int \<Rightarrow> int \<Rightarrow> unix_time \<Rightarrow> store_error + (bool \<times> store)" where
  "session_ended s user_id user_inc server_id server_inc at = stmt s ''session_ended''
     (let same = (\<lambda>l. sl_user_id l = user_id \<and> sl_server_id l = server_id)
      in if \<not> (user_is s user_id user_inc \<and> server_is s server_id server_inc) then Ok (False, s)
         else if \<exists>l \<in> set (session_log s). same l
         then Ok (True, s\<lparr>session_log := update_where same (\<lambda>l. l\<lparr>sl_ended := at\<rparr>) (session_log s)\<rparr>)
         else Ok (True, s\<lparr>session_log := session_log s @
                    [\<lparr> sl_user_id = user_id, sl_server_id = server_id, sl_ended = at \<rparr>]\<rparr>))"

definition recent_ends :: "store \<Rightarrow> int \<Rightarrow> unix_time \<Rightarrow> store_error + (int \<times> unix_time) list" where
  "recent_ends s user_id since = stmt s ''recent_ends''
     (Ok (map (\<lambda>l. (sl_server_id l, sl_ended l))
        (filter (\<lambda>l. sl_user_id l = user_id \<and> sl_ended l > since) (session_log s))))"

section \<open>The audit log\<close>

text \<open>
  \<open>audit\<close> never fails its caller: a write that fails changes nothing. An entry's id is one more
  than the largest one in the table.
\<close>

definition audit :: "store \<Rightarrow> unix_time \<Rightarrow> string \<Rightarrow> string \<Rightarrow> string \<Rightarrow> store" where
  "audit s now actor action detail =
     (case sql_fault s ''audit'' of
        Some _ \<Rightarrow> s
      | None \<Rightarrow> s\<lparr>audit_log := audit_log s @
                  [\<lparr> au_id = fold max (map au_id (audit_log s)) 0 + 1, au_at = now,
                     au_actor = actor, au_action = action, au_detail = detail \<rparr>]\<rparr>)"

text \<open>\<open>LIMIT n\<close>; a negative limit is none.\<close>

definition sql_limit :: "int \<Rightarrow> 'a list \<Rightarrow> 'a list" where
  "sql_limit n xs = (if n < 0 then xs else take (nat n) xs)"

definition audit_prune :: "store \<Rightarrow> unix_time \<Rightarrow> int \<Rightarrow> store_error + (nat \<times> store)" where
  "audit_prune s before batch = stmt s ''audit_prune''
     (let doomed = sql_limit batch (sort (map au_id (filter (\<lambda>a. au_at a < before) (audit_log s))))
      in Ok (count_where (\<lambda>a. au_id a \<in> set doomed) (audit_log s),
             s\<lparr>audit_log := filter (\<lambda>a. au_id a \<notin> set doomed) (audit_log s)\<rparr>))"

text \<open>\<open>str::replace\<close> of one character.\<close>

definition replace_char :: "char \<Rightarrow> string \<Rightarrow> string \<Rightarrow> string" where
  "replace_char c by s = concat (map (\<lambda>x. if x = c then by else [x]) s)"

definition like_escape :: "string \<Rightarrow> string" where
  "like_escape t =
     replace_char CHR ''_'' [CHR 0x5C, CHR ''_'']
       (replace_char CHR ''%'' [CHR 0x5C, CHR ''%'']
         (replace_char CHR 0x5C [CHR 0x5C, CHR 0x5C] t))"

text \<open>SQLite's \<open>LIKE ... ESCAPE '\'\<close>: \<open>%\<close> any run, \<open>_\<close> any one, letters without regard to case.\<close>

function like :: "string \<Rightarrow> string \<Rightarrow> bool" where
  "like [] s \<longleftrightarrow> s = []"
| "like (c # p) s \<longleftrightarrow>
     (if c = CHR ''%'' then like p s \<or> (case s of [] \<Rightarrow> False | _ # s' \<Rightarrow> like (c # p) s')
      else if c = CHR 0x5C
      then (case (p, s) of (e # p', x # s') \<Rightarrow> ascii_lower x = ascii_lower e \<and> like p' s'
                         | _ \<Rightarrow> False)
      else (case s of [] \<Rightarrow> False
                    | x # s' \<Rightarrow> (c = CHR ''_'' \<or> ascii_lower x = ascii_lower c) \<and> like p s'))"
  by pat_completeness auto
termination by (relation "measure (\<lambda>(p, s). length p + length s)") auto

definition audit_pattern :: "string option \<Rightarrow> string option" where
  "audit_pattern txt =
     (case txt of
        None \<Rightarrow> None
      | Some t \<Rightarrow> if t = [] then None else Some (CHR ''%'' # like_escape t @ ''%''))"

definition audit_search ::
  "store \<Rightarrow> int \<Rightarrow> int option \<Rightarrow> string option \<Rightarrow> store_error + audit_row list" where
  "audit_search s limit before txt = stmt s ''audit_search''
     (let pattern = audit_pattern txt;
          hit = (\<lambda>a. (case before of None \<Rightarrow> True | Some b \<Rightarrow> au_id a < b) \<and>
                     (case pattern of
                        None \<Rightarrow> True
                      | Some p \<Rightarrow> like p (au_actor a) \<or> like p (au_action a) \<or>
                                  like p (au_detail a)))
      in Ok (sql_limit limit (rev (sort_key au_id (filter hit (audit_log s))))))"

section \<open>Counts\<close>

definition counts :: "store \<Rightarrow> store_error + counts_rec" where
  "counts s = stmt s ''counts''
     (Ok \<lparr> n_users = int (length (users s)), n_servers = int (length (servers s)),
           n_assignments = int (length (assignments s)),
           n_credentials = int (length (credentials s)) \<rparr>)"

end
