(* ===== verification/WA_Store_Laws.thy ===== *)
theory WA_Store_Laws
  imports WA_Store
begin

text \<open>
  The laws of the store: the invariant \<open>store_wf\<close> that the declared constraints of the schema
  amount to, that every operation keeps it, and what the operations do to each other's results.
\<close>

section \<open>The invariant\<close>

definition users_wf :: "user_row list \<Rightarrow> int \<Rightarrow> bool" where
  "users_wf us sq \<longleftrightarrow> distinct (map ur_id us) \<and> distinct (map ur_username us) \<and>
     (\<forall>i \<in> ur_id ` set us. 0 < i \<and> i \<le> sq) \<and> 0 \<le> sq"

definition groups_wf :: "group_row list \<Rightarrow> int \<Rightarrow> bool" where
  "groups_wf gs sq \<longleftrightarrow> distinct (map gr_id gs) \<and>
     distinct (map (\<lambda>g. to_ascii_lowercase (gr_name g)) gs) \<and>
     (\<forall>i \<in> gr_id ` set gs. 0 < i \<and> i \<le> sq) \<and> 0 \<le> sq"

definition servers_wf :: "server_row list \<Rightarrow> int \<Rightarrow> bool" where
  "servers_wf rs sq \<longleftrightarrow> distinct (map sr_id rs) \<and>
     distinct (map (\<lambda>r. to_ascii_lowercase (sr_name r)) rs) \<and>
     (\<forall>i \<in> sr_id ` set rs. 0 < i \<and> i \<le> sq) \<and> 0 \<le> sq \<and>
     (\<forall>r \<in> set rs. 0 \<le> sr_port r \<and> sr_port r < 65536)"

abbreviation cr_key :: "credential_row \<Rightarrow> int \<times> int" where
  "cr_key k \<equiv> (cr_user_id k, cr_server_id k)"

abbreviation sl_key :: "session_log_row \<Rightarrow> int \<times> int" where
  "sl_key l \<equiv> (sl_user_id l, sl_server_id l)"

text \<open>The foreign keys, and the primary keys of the tables without a row id.\<close>

definition group_refs :: "server_row list \<Rightarrow> group_row list \<Rightarrow> bool" where
  "group_refs rs gs \<longleftrightarrow> (\<forall>r \<in> set rs. \<forall>i. sr_group_id r = Some i \<longrightarrow> i \<in> gr_id ` set gs)"

definition pairs_wf :: "(int \<times> int) list \<Rightarrow> user_row list \<Rightarrow> server_row list \<Rightarrow> bool" where
  "pairs_wf ps us rs \<longleftrightarrow> distinct ps \<and> set ps \<subseteq> ur_id ` set us \<times> sr_id ` set rs"

definition sessions_wf :: "session_row list \<Rightarrow> user_row list \<Rightarrow> bool" where
  "sessions_wf es us \<longleftrightarrow> distinct (map se_token_hash es) \<and> se_user_id ` set es \<subseteq> ur_id ` set us"

definition audit_wf :: "audit_row list \<Rightarrow> bool" where
  "audit_wf as \<longleftrightarrow> sorted_wrt (<) (map au_id as) \<and> (\<forall>i \<in> au_id ` set as. 0 < i)"

definition store_wf :: "store \<Rightarrow> bool" where
  "store_wf s \<longleftrightarrow>
     users_wf (users s) (users_seq s) \<and> groups_wf (server_groups s) (groups_seq s) \<and>
     servers_wf (servers s) (servers_seq s) \<and> group_refs (servers s) (server_groups s) \<and>
     pairs_wf (assignments s) (users s) (servers s) \<and>
     pairs_wf (map cr_key (credentials s)) (users s) (servers s) \<and>
     pairs_wf (map sl_key (session_log s)) (users s) (servers s) \<and>
     sessions_wf (sessions s) (users s) \<and> audit_wf (audit_log s)"

lemma store_wfD:
  assumes "store_wf s"
  shows "users_wf (users s) (users_seq s)" "groups_wf (server_groups s) (groups_seq s)"
    "servers_wf (servers s) (servers_seq s)" "group_refs (servers s) (server_groups s)"
    "pairs_wf (assignments s) (users s) (servers s)"
    "pairs_wf (map cr_key (credentials s)) (users s) (servers s)"
    "pairs_wf (map sl_key (session_log s)) (users s) (servers s)"
    "sessions_wf (sessions s) (users s)" "audit_wf (audit_log s)"
  using assms by (simp_all add: store_wf_def)

lemma empty_store_wf [wf_intros]: "store_wf empty_store"
  by (simp add: store_wf_def empty_store_def users_wf_def groups_wf_def servers_wf_def
      group_refs_def pairs_wf_def sessions_wf_def audit_wf_def)

section \<open>Rows\<close>

lemma stmt_Ok: "stmt s opname r = Ok x \<longleftrightarrow> sql_fault s opname = None \<and> r = Ok x"
  by (simp add: stmt_def split: option.splits)

lemma stmt_healthy [simp]: "sql_fault s opname = None \<Longrightarrow> stmt s opname r = r"
  by (simp add: stmt_def)

lemma next_id_Ok: "next_id sq = Ok i \<longleftrightarrow> sq < 2 ^ 63 - 1 \<and> i = sq + 1"
  by (auto simp: next_id_def)

lemma image_update_where [row_simps]:
  "(\<And>x. P x \<Longrightarrow> g (f x) = g x) \<Longrightarrow> g ` set (update_where P f xs) = g ` set xs"
  using map_update_where [of xs P g f] by (metis image_set)

lemma users_wf_update [row_simps]:
  "(\<And>r. P r \<Longrightarrow> ur_id (f r) = ur_id r) \<Longrightarrow> (\<And>r. P r \<Longrightarrow> ur_username (f r) = ur_username r) \<Longrightarrow>
   users_wf (update_where P f us) sq = users_wf us sq"
  by (simp add: users_wf_def row_simps)

lemma pairs_wf_users_update [row_simps]:
  "(\<And>r. P r \<Longrightarrow> ur_id (f r) = ur_id r) \<Longrightarrow> pairs_wf ps (update_where P f us) rs = pairs_wf ps us rs"
  by (simp add: pairs_wf_def row_simps)

lemma pairs_wf_servers_update [row_simps]:
  "(\<And>r. P r \<Longrightarrow> sr_id (f r) = sr_id r) \<Longrightarrow> pairs_wf ps us (update_where P f rs) = pairs_wf ps us rs"
  by (simp add: pairs_wf_def row_simps)

lemma sessions_wf_users_update [row_simps]:
  "(\<And>r. P r \<Longrightarrow> ur_id (f r) = ur_id r) \<Longrightarrow> sessions_wf es (update_where P f us) = sessions_wf es us"
  by (simp add: sessions_wf_def row_simps)

lemma users_wf_snoc [row_simps]:
  "users_wf us sq \<Longrightarrow> ur_id r = sq + 1 \<Longrightarrow> ur_username r \<notin> ur_username ` set us \<Longrightarrow>
   users_wf (us @ [r]) (sq + 1)"
  by (force simp: users_wf_def)

lemma pairs_wf_mono:
  "pairs_wf ps us rs \<Longrightarrow> ur_id ` set us \<subseteq> ur_id ` set us' \<Longrightarrow> sr_id ` set rs \<subseteq> sr_id ` set rs' \<Longrightarrow>
   pairs_wf ps us' rs'"
  by (auto simp: pairs_wf_def)

lemma pairs_wf_snoc_user [row_simps]: "pairs_wf ps us rs \<Longrightarrow> pairs_wf ps (us @ [r]) rs"
  by (rule pairs_wf_mono) auto

lemma pairs_wf_snoc_server [row_simps]: "pairs_wf ps us rs \<Longrightarrow> pairs_wf ps us (rs @ [r])"
  by (rule pairs_wf_mono) auto

lemma sessions_wf_snoc_user [row_simps]: "sessions_wf es us \<Longrightarrow> sessions_wf es (us @ [r])"
  by (auto simp: sessions_wf_def)

lemma sessions_wf_filter [row_simps]: "sessions_wf es us \<Longrightarrow> sessions_wf (filter P es) us"
  by (auto simp: sessions_wf_def row_simps)

lemma pairs_wf_filter [row_simps]: "pairs_wf ps us rs \<Longrightarrow> pairs_wf (filter P ps) us rs"
  by (auto simp: pairs_wf_def)

lemma pairs_wf_map_filter [row_simps]:
  "pairs_wf (map f ks) us rs \<Longrightarrow> pairs_wf (map f (filter P ks)) us rs"
  by (auto simp: pairs_wf_def row_simps)

lemma users_wf_filter [row_simps]: "users_wf us sq \<Longrightarrow> users_wf (filter P us) sq"
  by (auto simp: users_wf_def row_simps)

lemma servers_wf_filter [row_simps]: "servers_wf rs sq \<Longrightarrow> servers_wf (filter P rs) sq"
  by (auto simp: servers_wf_def row_simps)

lemma groups_wf_filter [row_simps]: "groups_wf gs sq \<Longrightarrow> groups_wf (filter P gs) sq"
  by (auto simp: groups_wf_def row_simps)

lemma pairs_wf_cascade_user [row_simps]:
  "pairs_wf (map f ks) us rs \<Longrightarrow>
   pairs_wf (map f (filter (\<lambda>k. fst (f k) \<noteq> i) ks)) (filter (\<lambda>r. ur_id r \<noteq> i) us) rs"
  by (auto simp: pairs_wf_def row_simps)

lemma pairs_wf_cascade_server [row_simps]:
  "pairs_wf (map f ks) us rs \<Longrightarrow>
   pairs_wf (map f (filter (\<lambda>k. snd (f k) \<noteq> i) ks)) us (filter (\<lambda>r. sr_id r \<noteq> i) rs)"
  by (auto simp: pairs_wf_def row_simps)

lemma sessions_wf_cascade [row_simps]:
  "sessions_wf es us \<Longrightarrow>
   sessions_wf (filter (\<lambda>e. se_user_id e \<noteq> i) es) (filter (\<lambda>r. ur_id r \<noteq> i) us)"
  by (auto simp: sessions_wf_def row_simps)

lemma group_refs_filter [row_simps]: "group_refs rs gs \<Longrightarrow> group_refs (filter P rs) gs"
  by (auto simp: group_refs_def)

lemma group_refs_snoc_group [row_simps]: "group_refs rs gs \<Longrightarrow> group_refs rs (gs @ [g])"
  by (auto simp: group_refs_def)

lemma audit_wf_filter [row_simps]: "audit_wf as \<Longrightarrow> audit_wf (filter P as)"
  by (induction as) (auto simp: audit_wf_def)

lemma fold_max_ge: "fold max xs (m :: int) \<ge> m \<and> (\<forall>x \<in> set xs. x \<le> fold max xs m)"
  by (induction xs arbitrary: m) (auto, (metis le_max_iff_disj order_trans order_refl)+)

lemma audit_wf_snoc [row_simps]:
  "audit_wf as \<Longrightarrow> au_id a = fold max (map au_id as) 0 + 1 \<Longrightarrow> audit_wf (as @ [a])"
  using fold_max_ge [of 0 "map au_id as"]
  by (auto simp: audit_wf_def sorted_wrt_append simp flip: zle_add1_eq_le)

lemma pairs_wf_Nil [row_simps]: "pairs_wf [] us rs"
  by (simp add: pairs_wf_def)

text \<open>A unique column stays unique when one row is given a value that no other row has.\<close>

lemma distinct_update_one:
  assumes "distinct (map k xs)" "distinct (map g xs)"
    and "\<And>x. P x \<Longrightarrow> k x = i" and "\<And>x. P x \<Longrightarrow> g (f x) = v"
    and "\<And>x. x \<in> set xs \<Longrightarrow> \<not> P x \<Longrightarrow> g x \<noteq> v"
  shows "distinct (map g (update_where P f xs))"
  using assms(1,2,5)
proof (induction xs)
  case (Cons x xs)
  then have IH: "distinct (map g (update_where P f xs))" by simp
  show ?case
  proof (cases "P x")
    case True
    have "\<not> P y" if "y \<in> set xs" for y
      using Cons.prems(1) that assms(3) [OF True] assms(3) [of y]
      by (auto simp: image_iff)
    then have "update_where P f xs = xs" by (simp add: update_where_none)
    with True Cons.prems \<open>\<And>y. y \<in> set xs \<Longrightarrow> \<not> P y\<close> show ?thesis by (auto simp: assms(4))
  next
    case False
    then have "g x \<noteq> v" using Cons.prems(3) by simp
    with False IH Cons.prems(2) show ?thesis by (auto simp: set_update_where assms(4) image_iff)
  qed
qed simp

section \<open>Every operation keeps the invariant\<close>

lemma meta_set_wf [wf_intros]: "meta_set s key v = Ok (x, t) \<Longrightarrow> store_wf s \<Longrightarrow> store_wf t"
  by (auto simp: meta_set_def stmt_Ok store_wf_def)

lemma meta_delete_wf [wf_intros]: "meta_delete s key = Ok (x, t) \<Longrightarrow> store_wf s \<Longrightarrow> store_wf t"
  by (auto simp: meta_delete_def stmt_Ok store_wf_def)

lemma replace_secrets_wf [wf_intros]:
  "replace_secrets s forget kv = Ok (x, t) \<Longrightarrow> store_wf s \<Longrightarrow> store_wf t"
  by (auto simp: replace_secrets_def stmt_Ok store_wf_def row_simps Let_def)

lemma set_flag_wf [wf_intros]: "set_flag s key b = Ok (x, t) \<Longrightarrow> store_wf s \<Longrightarrow> store_wf t"
  by (auto simp: set_flag_def split: if_splits intro: wf_intros)

lemma users_wf_rename:
  "users_wf us sq \<Longrightarrow> new \<notin> ur_username ` set us \<Longrightarrow> (\<And>r. P r \<Longrightarrow> ur_id r = i) \<Longrightarrow>
   users_wf (update_where P (\<lambda>r. r\<lparr>ur_username := new\<rparr>) us) sq"
  by (auto simp: users_wf_def row_simps intro!: distinct_update_one [where k = ur_id and i = i])

lemma user_rename_wf [wf_intros]:
  "user_rename s i inc sid new = Ok (x, t) \<Longrightarrow> store_wf s \<Longrightarrow> store_wf t"
proof -
  assume r: "user_rename s i inc sid new = Ok (x, t)" and w: "store_wf s"
  show "store_wf t"
  proof (cases "new \<in> ur_username ` set (users s)")
    case True
    with r w show ?thesis by (auto simp: user_rename_def stmt_Ok Let_def row_simps store_wf_def)
  next
    case False
    with r w show ?thesis
      by (auto simp: user_rename_def stmt_Ok Let_def row_simps store_wf_def
          intro!: users_wf_rename [where i = i])
  qed
qed

lemma user_create_returning_wf [wf_intros]:
  "user_create_returning s now rnd name disp = Ok (x, t) \<Longrightarrow> store_wf s \<Longrightarrow> store_wf t"
  by (auto simp: user_create_returning_def stmt_Ok next_id_Ok Let_def store_wf_def
      split: if_splits sum.splits intro!: row_simps)

lemma user_create_wf [wf_intros]:
  "user_create s now rnd name disp = Ok (x, t) \<Longrightarrow> store_wf s \<Longrightarrow> store_wf t"
  by (auto simp: user_create_def split: sum.splits prod.splits intro: wf_intros)

lemma user_record_login_wf [wf_intros]:
  "user_record_login s now i inc sid disp = Ok (x, t) \<Longrightarrow> store_wf s \<Longrightarrow> store_wf t"
  by (auto simp: user_record_login_def stmt_Ok Let_def store_wf_def row_simps)

lemma local_account_set_wf [wf_intros]:
  "local_account_set s now rnd name hsh sid = Ok (x, t) \<Longrightarrow> store_wf s \<Longrightarrow> store_wf t"
  by (auto simp: local_account_set_def stmt_Ok next_id_Ok Let_def store_wf_def row_simps
      find_None_set split: if_splits sum.splits option.splits intro!: users_wf_snoc) (auto)

lemma user_flag_mismatch_wf [wf_intros]:
  "user_flag_mismatch s i = Ok (x, t) \<Longrightarrow> store_wf s \<Longrightarrow> store_wf t"
  by (auto simp: user_flag_mismatch_def stmt_Ok store_wf_def row_simps)

lemma user_set_admin_wf [wf_intros]:
  "user_set_admin s i b = Ok (x, t) \<Longrightarrow> store_wf s \<Longrightarrow> store_wf t"
  by (auto simp: user_set_admin_def stmt_Ok store_wf_def row_simps split: if_splits)

lemma user_clear_sid_wf [wf_intros]:
  "user_clear_sid s i = Ok (x, t) \<Longrightarrow> store_wf s \<Longrightarrow> store_wf t"
  by (auto simp: user_clear_sid_def stmt_Ok store_wf_def row_simps split: if_splits)

lemma user_delete_wf [wf_intros]:
  "user_delete s i = Ok (x, t) \<Longrightarrow> store_wf s \<Longrightarrow> store_wf t"
  using pairs_wf_cascade_user [of "\<lambda>a. a" "assignments s" "users s" "servers s" i]
    pairs_wf_cascade_user [of cr_key "credentials s" "users s" "servers s" i]
    pairs_wf_cascade_user [of sl_key "session_log s" "users s" "servers s" i]
  by (auto simp: user_delete_def stmt_Ok store_wf_def row_simps split: if_splits)

lemma groups_wf_snoc:
  "groups_wf gs sq \<Longrightarrow> gr_id g = sq + 1 \<Longrightarrow>
   (\<forall>h \<in> set gs. \<not> eq_ignore_ascii_case (gr_name h) (gr_name g)) \<Longrightarrow> groups_wf (gs @ [g]) (sq + 1)"
  by (force simp: groups_wf_def eq_ignore_ascii_case_def)

lemma group_insert_wf [wf_intros]:
  "group_insert s name = Ok (x, t) \<Longrightarrow> store_wf s \<Longrightarrow> store_wf t"
  by (auto simp: group_insert_def group_taken_def next_id_Ok Let_def store_wf_def
      split: if_splits sum.splits intro!: groups_wf_snoc row_simps)

lemma group_create_wf [wf_intros]:
  "group_create s name = Ok (x, t) \<Longrightarrow> store_wf s \<Longrightarrow> store_wf t"
  by (auto simp: group_create_def stmt_Ok intro: wf_intros)

lemma group_refs_update [row_simps]:
  "(\<And>g. P g \<Longrightarrow> gr_id (f g) = gr_id g) \<Longrightarrow> group_refs rs (update_where P f gs) = group_refs rs gs"
  by (simp add: group_refs_def row_simps)

lemma group_rename_wf [wf_intros]:
  assumes "group_rename s i name = Ok (x, t)" "store_wf s"
  shows "store_wf t"
proof -
  let ?gs = "update_where (\<lambda>g. gr_id g = i) (\<lambda>g. g\<lparr>gr_name := name\<rparr>) (server_groups s)"
  have "groups_wf ?gs (groups_seq s)"
    using assms by (auto simp: group_rename_def stmt_Ok groups_wf_def store_wf_def row_simps
        eq_ignore_ascii_case_def split: if_splits
        intro!: distinct_update_one [where k = gr_id and i = i])
  moreover have "t = s\<lparr>server_groups := ?gs\<rparr>"
    using assms(1) by (auto simp: group_rename_def stmt_Ok split: if_splits)
  ultimately show ?thesis using assms(2) by (simp add: store_wf_def row_simps)
qed

lemma group_order_from_keeps:
  "map gr_id (group_order_from n ids gs) = map gr_id gs \<and>
   map gr_name (group_order_from n ids gs) = map gr_name gs"
  by (induction n ids gs rule: group_order_from.induct) (auto simp: row_simps)

lemma groups_wf_cong:
  "map gr_id gs = map gr_id gs' \<Longrightarrow> map gr_name gs = map gr_name gs' \<Longrightarrow>
   groups_wf gs sq = groups_wf gs' sq"
proof -
  assume i: "map gr_id gs = map gr_id gs'" and n: "map gr_name gs = map gr_name gs'"
  from n have "map to_ascii_lowercase (map gr_name gs) = map to_ascii_lowercase (map gr_name gs')"
    by simp
  moreover have "gr_id ` set gs = gr_id ` set gs'" using i by (metis image_set)
  ultimately show ?thesis using i by (simp add: groups_wf_def comp_def)
qed

lemma group_order_wf [wf_intros]:
  assumes "group_order s ids = Ok (x, t)" "store_wf s"
  shows "store_wf t"
proof -
  let ?gs = "group_order_from 0 ids (server_groups s)"
  have t: "t = s\<lparr>server_groups := ?gs\<rparr>" using assms(1) by (auto simp: group_order_def stmt_Ok)
  have "gr_id ` set ?gs = gr_id ` set (server_groups s)"
    using group_order_from_keeps by (metis image_set)
  then show ?thesis
    using assms(2) groups_wf_cong [of ?gs "server_groups s"] group_order_from_keeps
    by (simp add: t store_wf_def group_refs_def)
qed

lemma group_refs_unused:
  "group_refs rs gs \<Longrightarrow> (\<forall>r \<in> set rs. sr_group_id r \<noteq> Some i) \<Longrightarrow>
   group_refs rs (filter (\<lambda>g. gr_id g \<noteq> i) gs)"
  by (fastforce simp: group_refs_def)

lemma group_delete_wf [wf_intros]:
  "group_delete s i = Ok (x, t) \<Longrightarrow> store_wf s \<Longrightarrow> store_wf t"
  by (auto simp: group_delete_def stmt_Ok Let_def store_wf_def row_simps
      split: if_splits intro!: group_refs_unused)

lemma servers_wf_snoc:
  "servers_wf rs sq \<Longrightarrow> sr_id r = sq + 1 \<Longrightarrow> 0 \<le> sr_port r \<Longrightarrow> sr_port r < 65536 \<Longrightarrow>
   (\<forall>q \<in> set rs. \<not> eq_ignore_ascii_case (sr_name q) (sr_name r)) \<Longrightarrow> servers_wf (rs @ [r]) (sq + 1)"
  by (force simp: servers_wf_def eq_ignore_ascii_case_def)

lemma server_insert_wf:
  assumes "server_insert s rnd name host port gid domain = Ok (x, t)" "store_wf s"
    and "0 \<le> port" "port < 65536" "\<forall>q \<in> set (servers s). \<not> eq_ignore_ascii_case (sr_name q) name"
    and "\<And>i. gid = Some i \<Longrightarrow> i \<in> gr_id ` set (server_groups s)"
  shows "store_wf t"
proof -
  have "group_refs (servers s @ [r]) (server_groups s)" if "sr_group_id r = gid" for r
    using assms(2,6) that by (auto simp: store_wf_def group_refs_def)
  then show ?thesis
    using assms(1-5) by (auto simp: server_insert_def next_id_Ok store_wf_def
        split: sum.splits intro!: servers_wf_snoc row_simps)
qed

lemma uint16_range: "0 \<le> uint (p :: 16 word) \<and> uint p < 65536"
  using uint_lt2p [of p] by simp

lemma server_create_wf [wf_intros]:
  "server_create s rnd name host port gid domain = Ok (x, t) \<Longrightarrow> store_wf s \<Longrightarrow> store_wf t"
  using uint16_range [of port]
  by (auto simp: server_create_def stmt_Ok name_free_def group_exists_def
      split: if_splits sum.splits option.splits elim!: server_insert_wf)

lemma servers_wf_update_same:
  "servers_wf rs sq \<Longrightarrow> (\<And>r. P r \<Longrightarrow> sr_id (f r) = sr_id r) \<Longrightarrow> (\<And>r. P r \<Longrightarrow> sr_name (f r) = sr_name r) \<Longrightarrow>
   (\<And>r. P r \<Longrightarrow> r \<in> set rs \<Longrightarrow> 0 \<le> sr_port (f r) \<and> sr_port (f r) < 65536) \<Longrightarrow>
   servers_wf (update_where P f rs) sq"
  by (auto simp: servers_wf_def row_simps set_update_where)

lemma servers_wf_rename:
  assumes "servers_wf rs sq" "\<And>r. sr_id (f r) = sr_id r" "\<And>r. sr_name (f r) = name"
    and "\<And>r. 0 \<le> sr_port (f r) \<and> sr_port (f r) < 65536"
    and "\<And>r. r \<in> set rs \<Longrightarrow> sr_id r \<noteq> i \<Longrightarrow> \<not> eq_ignore_ascii_case (sr_name r) name"
  shows "servers_wf (update_where (\<lambda>r. sr_id r = i) f rs) sq"
proof -
  have "distinct (map (\<lambda>r. to_ascii_lowercase (sr_name r)) (update_where (\<lambda>r. sr_id r = i) f rs))"
    using assms by (intro distinct_update_one [where k = sr_id and i = i
          and v = "to_ascii_lowercase name"]) (auto simp: servers_wf_def eq_ignore_ascii_case_def)
  with assms show ?thesis by (auto simp: servers_wf_def row_simps set_update_where)
qed

lemma group_refs_update_server:
  "group_refs rs gs \<Longrightarrow> (\<And>r i. P r \<Longrightarrow> r \<in> set rs \<Longrightarrow> sr_group_id (f r) = Some i \<Longrightarrow> i \<in> gr_id ` set gs) \<Longrightarrow>
   group_refs (update_where P f rs) gs"
  by (auto simp: group_refs_def set_update_where)

lemma server_update_wf [wf_intros]:
  assumes "server_update s i name host port gid domain = Ok (x, t)" "store_wf s"
  shows "store_wf t"
proof -
  let ?f = "\<lambda>r. r\<lparr>sr_name := name, sr_host := host, sr_port := uint port,
                 sr_group_id := gid, sr_domain := domain\<rparr>"
  let ?rs = "update_where (\<lambda>r. sr_id r = i) ?f (servers s)"
  have t: "t = s\<lparr>servers := ?rs\<rparr>" and n: "name_free s name (Some i) = Ok ()"
    and g: "group_exists s gid = Ok ()"
    using assms(1) by (auto simp: server_update_def stmt_Ok split: if_splits sum.splits)
  have "servers_wf ?rs (servers_seq s)"
    using assms(2) n uint16_range [of port]
    by (intro servers_wf_rename) (auto simp: store_wf_def name_free_def split: if_splits)
  moreover have "group_refs ?rs (server_groups s)"
    using assms(2) g by (intro group_refs_update_server)
      (auto simp: store_wf_def group_exists_def split: option.splits if_splits)
  ultimately show ?thesis using assms(2) by (simp add: t store_wf_def row_simps)
qed

lemma server_delete_wf [wf_intros]:
  "server_delete s i = Ok (x, t) \<Longrightarrow> store_wf s \<Longrightarrow> store_wf t"
  using pairs_wf_cascade_server [of "\<lambda>a. a" "assignments s" "users s" "servers s" i]
    pairs_wf_cascade_server [of cr_key "credentials s" "users s" "servers s" i]
    pairs_wf_cascade_server [of sl_key "session_log s" "users s" "servers s" i]
  by (auto simp: server_delete_def stmt_Ok store_wf_def row_simps split: if_splits)

lemma import_group_wf:
  assumes "import_group s grp = Ok (gid, t)" "store_wf s"
  shows "store_wf t \<and> servers t = servers s \<and>
         (\<forall>i. gid = Some i \<longrightarrow> i \<in> gr_id ` set (server_groups t))"
proof -
  have ins: "servers v = servers s \<and> i \<in> gr_id ` set (server_groups v)"
    if "group_insert s n = Ok (i, v)" for n i v
    using that by (auto simp: group_insert_def Let_def split: if_splits sum.splits)
  show ?thesis
    using assms ins group_insert_wf [OF _ assms(2)]
    by (auto simp: import_group_def split: option.splits sum.splits prod.splits
        dest!: find_Some_set)
qed

lemma import_one_wf:
  assumes "import_one s rnd row = Ok (b, t)" "store_wf s"
  shows "store_wf t"
proof -
  obtain gid u where g: "import_group s (ir_group row) = Ok (gid, u)"
    using assms(1) by (auto simp: import_one_def split: sum.splits)
  note u = import_group_wf [OF g assms(2)]
  show ?thesis
  proof (cases "List.find (\<lambda>r. eq_ignore_ascii_case (sr_name r) (ir_name row)) (servers u)")
    case None
    let ?p = "case ir_port row of Some p \<Rightarrow> uint p | None \<Rightarrow> 3389"
    have "0 \<le> ?p \<and> ?p < 65536" using uint16_range by (auto split: option.splits)
    moreover obtain i where "server_insert u (rnd (servers_seq u + 1)) (ir_name row) (ir_host row)
        ?p gid (Option.bind (ir_domain row) (\<lambda>d. d)) = Ok (i, t)"
      using None g assms(1) by (auto simp: import_one_def split: sum.splits)
    ultimately show ?thesis
      using u None by (auto simp: find_None_set elim!: server_insert_wf)
  next
    case (Some q)
    let ?f = "\<lambda>r. r\<lparr>sr_host := ir_host row,
                 sr_port := (case ir_port row of Some p \<Rightarrow> uint p | None \<Rightarrow> sr_port r),
                 sr_group_id := (if ir_group row \<noteq> None then gid else sr_group_id r),
                 sr_domain := (case ir_domain row of Some d \<Rightarrow> d | None \<Rightarrow> sr_domain r)\<rparr>"
    let ?rs = "update_where (\<lambda>r. sr_id r = sr_id q) ?f (servers u)"
    have t: "t = u\<lparr>servers := ?rs\<rparr>" using assms(1) g Some by (simp add: import_one_def)
    have "servers_wf ?rs (servers_seq u)"
      using u uint16_range by (intro servers_wf_update_same)
        (auto simp: store_wf_def servers_wf_def split: option.splits)
    moreover have "group_refs ?rs (server_groups u)"
      using u by (intro group_refs_update_server) (auto simp: store_wf_def group_refs_def
          split: if_splits)
    ultimately show ?thesis using u by (auto simp: t store_wf_def row_simps)
  qed
qed

lemma import_rows_wf: "import_rows s rnd n rows = Ok (x, t) \<Longrightarrow> store_wf s \<Longrightarrow> store_wf t"
  by (induction s rnd n rows rule: import_rows.induct)
    (auto split: sum.splits prod.splits dest: import_one_wf)

lemma servers_import_wf [wf_intros]:
  "servers_import s rnd rows = Ok (x, t) \<Longrightarrow> store_wf s \<Longrightarrow> store_wf t"
  by (auto simp: servers_import_def stmt_Ok dest: import_rows_wf)

lemma fold_assignment_add:
  "fold (assignment_add u) is s = s\<lparr>assignments := assignments s @ map (Pair u) is\<rparr>"
  by (induction "is" arbitrary: s) (auto simp: assignment_add_def)

lemma fold_assignment_remove:
  "fold (assignment_remove u) is s =
     s\<lparr>assignments := filter (\<lambda>a. \<not> (fst a = u \<and> snd a \<in> set is)) (assignments s),
       credentials := filter (\<lambda>k. \<not> (cr_user_id k = u \<and> cr_server_id k \<in> set is)) (credentials s)\<rparr>"
  by (induction "is" arbitrary: s)
    (auto simp: assignment_remove_def intro!: store.equality filter_cong)

text \<open>What \<open>set_assignments\<close> computes, with its loops done.\<close>

lemma set_assignments_Ok:
  assumes "set_assignments s u ids = Ok (n, t)"
  shows "user_exists s u" "\<And>i. i \<in> set ids \<Longrightarrow> server_exists s i"
    "t = s\<lparr>assignments :=
             filter (\<lambda>a. fst a = u \<longrightarrow> snd a \<in> set ids) (assignments s) @
             map (Pair u) (filter (\<lambda>i. (u, i) \<notin> set (assignments s)) (remdups ids)),
           credentials :=
             filter (\<lambda>k. cr_user_id k = u \<and> (u, cr_server_id k) \<in> set (assignments s) \<longrightarrow>
                         cr_server_id k \<in> set ids) (credentials s)\<rparr>"
proof -
  let ?cur = "remdups (map snd (filter (\<lambda>a. fst a = u) (assignments s)))"
  have cur: "i \<in> set ?cur \<longleftrightarrow> (u, i) \<in> set (assignments s)" for i by force
  note d = assms [unfolded set_assignments_def stmt_Ok Let_def fold_assignment_add
      fold_assignment_remove]
  show "user_exists s u" "\<And>i. i \<in> set ids \<Longrightarrow> server_exists s i"
    using d by (auto split: if_splits option.splits simp: find_None_set)
  have "t = s\<lparr>assignments := filter (\<lambda>a. \<not> (fst a = u \<and> snd a \<in> set ?cur \<and> snd a \<notin> set ids))
             (assignments s @ map (Pair u) (filter (\<lambda>i. i \<notin> set ?cur) (remdups ids))),
           credentials := filter (\<lambda>k. \<not> (cr_user_id k = u \<and> cr_server_id k \<in> set ?cur \<and>
             cr_server_id k \<notin> set ids)) (credentials s)\<rparr>"
    using d by (auto split: if_splits option.splits)
  moreover have "filter (\<lambda>a. \<not> (fst a = u \<and> snd a \<in> set ?cur \<and> snd a \<notin> set ids)) (assignments s) =
      filter (\<lambda>a. fst a = u \<longrightarrow> snd a \<in> set ids) (assignments s)"
    unfolding cur by (rule filter_cong) auto
  moreover have "filter (\<lambda>a. \<not> (fst a = u \<and> snd a \<in> set ?cur \<and> snd a \<notin> set ids))
        (map (Pair u) (filter (\<lambda>i. i \<notin> set ?cur) (remdups ids))) =
      map (Pair u) (filter (\<lambda>i. (u, i) \<notin> set (assignments s)) (remdups ids))"
    unfolding cur filter_map filter_filter by (rule arg_cong [where f = "map (Pair u)"], rule filter_cong) auto
  moreover have "filter (\<lambda>k. \<not> (cr_user_id k = u \<and> cr_server_id k \<in> set ?cur \<and>
        cr_server_id k \<notin> set ids)) (credentials s) =
      filter (\<lambda>k. cr_user_id k = u \<and> (u, cr_server_id k) \<in> set (assignments s) \<longrightarrow>
                  cr_server_id k \<in> set ids) (credentials s)"
    unfolding cur by (rule filter_cong) auto
  ultimately show "t = s\<lparr>assignments :=
             filter (\<lambda>a. fst a = u \<longrightarrow> snd a \<in> set ids) (assignments s) @
             map (Pair u) (filter (\<lambda>i. (u, i) \<notin> set (assignments s)) (remdups ids)),
           credentials :=
             filter (\<lambda>k. cr_user_id k = u \<and> (u, cr_server_id k) \<in> set (assignments s) \<longrightarrow>
                         cr_server_id k \<in> set ids) (credentials s)\<rparr>"
    by (simp only: filter_append)
qed

lemma pairs_wf_append:
  "pairs_wf ps us rs \<Longrightarrow> pairs_wf qs us rs \<Longrightarrow> set ps \<inter> set qs = {} \<Longrightarrow> pairs_wf (ps @ qs) us rs"
  by (auto simp: pairs_wf_def)

lemma set_assignments_wf [wf_intros]:
  assumes "set_assignments s u ids = Ok (x, t)" "store_wf s"
  shows "store_wf t"
proof -
  note d = set_assignments_Ok [OF assms(1)]
  have "pairs_wf (map (Pair u) (filter (\<lambda>i. (u, i) \<notin> set (assignments s)) (remdups ids)))
      (users s) (servers s)"
    using d(1,2) by (auto simp: pairs_wf_def distinct_map inj_on_def user_exists_def
        server_exists_def)
  then have "pairs_wf (assignments t) (users s) (servers s)"
    unfolding d(3) using assms(2)
    by (auto simp: store_wf_def row_simps intro!: pairs_wf_append)
  with assms(2) show ?thesis by (auto simp: d(3) store_wf_def row_simps)
qed

lemma copy_assignments_wf [wf_intros]:
  assumes "copy_assignments s src dst = Ok (x, t)" "store_wf s"
  shows "store_wf t"
proof -
  let ?new = "filter (\<lambda>p. p \<notin> set (assignments s))
      (map (\<lambda>a. (dst, snd a)) (filter (\<lambda>a. fst a = src) (assignments s)))"
  have t: "t = s\<lparr>assignments := assignments s @ ?new\<rparr>"
    and fk: "?new \<noteq> [] \<Longrightarrow> user_exists s dst"
    using assms(1) by (auto simp: copy_assignments_def stmt_Ok Let_def split: if_splits)
  have a: "pairs_wf (assignments s) (users s) (servers s)" using assms(2) by (rule store_wfD)
  have "distinct (map (\<lambda>a. (dst, snd a)) (filter (\<lambda>a. fst a = src) (assignments s)))"
    using a by (auto simp: pairs_wf_def distinct_map inj_on_def)
  then have "pairs_wf ?new (users s) (servers s)"
    using a fk by (fastforce simp: pairs_wf_def user_exists_def filter_empty_conv)
  with a have "pairs_wf (assignments s @ ?new) (users s) (servers s)"
    by (intro pairs_wf_append) auto
  with assms(2) show ?thesis by (simp add: t store_wf_def)
qed

lemma map_cr_key_update [row_simps]:
  "map cr_key (update_where P (\<lambda>k. k\<lparr>cr_cred := c, cr_updated := n\<rparr>) ks) = map cr_key ks"
  by (rule map_update_where) simp

lemma map_sl_key_update [row_simps]:
  "map sl_key (update_where P (\<lambda>l. l\<lparr>sl_ended := n\<rparr>) ls) = map sl_key ls"
  by (rule map_update_where) simp

lemma credential_put_wf [wf_intros]:
  "credential_put s now u v c = Ok (x, t) \<Longrightarrow> store_wf s \<Longrightarrow> store_wf t"
  by (auto simp: credential_put_def stmt_Ok Let_def store_wf_def row_simps user_exists_def
      server_exists_def split: if_splits intro!: pairs_wf_append) (auto simp: pairs_wf_def)

lemma credential_delete_wf [wf_intros]:
  "credential_delete s u v = Ok (x, t) \<Longrightarrow> store_wf s \<Longrightarrow> store_wf t"
  by (auto simp: credential_delete_def stmt_Ok Let_def store_wf_def row_simps)

lemma session_create_wf [wf_intros]:
  "session_create s now h u inc ex = Ok (x, t) \<Longrightarrow> store_wf s \<Longrightarrow> store_wf t"
  by (auto simp: session_create_def stmt_Ok store_wf_def user_is_def sessions_wf_def
      split: if_splits) blast

lemma session_delete_wf [wf_intros]:
  "session_delete s h = Ok (x, t) \<Longrightarrow> store_wf s \<Longrightarrow> store_wf t"
  by (auto simp: session_delete_def stmt_Ok store_wf_def row_simps)

lemma sessions_delete_user_wf [wf_intros]:
  "sessions_delete_user s u = Ok (x, t) \<Longrightarrow> store_wf s \<Longrightarrow> store_wf t"
  by (auto simp: sessions_delete_user_def stmt_Ok store_wf_def row_simps)

lemma sessions_purge_wf [wf_intros]:
  "sessions_purge s at = Ok (x, t) \<Longrightarrow> store_wf s \<Longrightarrow> store_wf t"
  by (auto simp: sessions_purge_def stmt_Ok store_wf_def row_simps)

lemma session_ended_wf [wf_intros]:
  "session_ended s u ui v vi at = Ok (x, t) \<Longrightarrow> store_wf s \<Longrightarrow> store_wf t"
  by (auto simp: session_ended_def stmt_Ok Let_def store_wf_def row_simps user_is_def
      server_is_def split: if_splits intro!: pairs_wf_append) (auto simp: pairs_wf_def)

lemma audit_wf_step [wf_intros]: "store_wf s \<Longrightarrow> store_wf (audit s now actor action detail)"
  by (auto simp: audit_def store_wf_def intro!: audit_wf_snoc split: option.splits)

lemma audit_prune_wf [wf_intros]:
  "audit_prune s before batch = Ok (x, t) \<Longrightarrow> store_wf s \<Longrightarrow> store_wf t"
  by (auto simp: audit_prune_def stmt_Ok Let_def store_wf_def row_simps)

end
