(* ===== verification/WA_Store_Props.thy ===== *)
theory WA_Store_Props
  imports WA_Store_Laws
begin

text \<open>
  Runs of the store. \<open>store_op\<close> has one constructor per operation that writes, and \<open>exec_op\<close> runs
  it; the mutex of the connection makes any use of the store by the proxy a list of them. The
  section then states what holds over all runs and what the operations promise one another.
\<close>

section \<open>Runs of operations\<close>

datatype store_op =
    MetaSet string bytes
  | MetaDelete string
  | ReplaceSecrets "string list" "string \<times> bytes"
  | UserRename int int string string
  | UserCreate unix_time int string "string option"
  | UserRecordLogin unix_time int int string "string option"
  | LocalAccountSet unix_time int string string string
  | UserFlagMismatch int
  | UserSetAdmin int bool
  | UserClearSid int
  | UserDelete int
  | GroupCreate string
  | GroupRename int string
  | GroupOrder "int list"
  | GroupDelete int
  | ServerCreate int string string "16 word" "int option" "string option"
  | ServerUpdate int string string "16 word" "int option" "string option"
  | ServerDelete int
  | ServersImport "int \<Rightarrow> int" "import_row list"
  | SetAssignments int "int list"
  | CopyAssignments int int
  | CredentialPut unix_time int int stored_credential
  | CredentialDelete int int
  | SessionCreate unix_time bytes int int unix_time
  | SessionDelete bytes
  | SessionsDeleteUser int
  | SessionsPurge unix_time
  | SessionEnded int int int int unix_time
  | Audit unix_time string string string
  | AuditPrune unix_time int

text \<open>The store after an operation: what it wrote, or the store as it was when it fails.\<close>

definition after :: "store \<Rightarrow> store_error + ('a \<times> store) \<Rightarrow> store" where
  "after s r = (case r of Err _ \<Rightarrow> s | Ok (_, t) \<Rightarrow> t)"

fun exec_op :: "store_op \<Rightarrow> store \<Rightarrow> store" where
  "exec_op (MetaSet k v) s = after s (meta_set s k v)"
| "exec_op (MetaDelete k) s = after s (meta_delete s k)"
| "exec_op (ReplaceSecrets fs kv) s = after s (replace_secrets s fs kv)"
| "exec_op (UserRename i inc sid n) s = after s (user_rename s i inc sid n)"
| "exec_op (UserCreate now r n d) s = after s (user_create s now r n d)"
| "exec_op (UserRecordLogin now i inc sid d) s = after s (user_record_login s now i inc sid d)"
| "exec_op (LocalAccountSet now r n h sid) s = after s (local_account_set s now r n h sid)"
| "exec_op (UserFlagMismatch i) s = after s (user_flag_mismatch s i)"
| "exec_op (UserSetAdmin i b) s = after s (user_set_admin s i b)"
| "exec_op (UserClearSid i) s = after s (user_clear_sid s i)"
| "exec_op (UserDelete i) s = after s (user_delete s i)"
| "exec_op (GroupCreate n) s = after s (group_create s n)"
| "exec_op (GroupRename i n) s = after s (group_rename s i n)"
| "exec_op (GroupOrder is) s = after s (group_order s is)"
| "exec_op (GroupDelete i) s = after s (group_delete s i)"
| "exec_op (ServerCreate r n h p g d) s = after s (server_create s r n h p g d)"
| "exec_op (ServerUpdate i n h p g d) s = after s (server_update s i n h p g d)"
| "exec_op (ServerDelete i) s = after s (server_delete s i)"
| "exec_op (ServersImport r rows) s = after s (servers_import s r rows)"
| "exec_op (SetAssignments u is) s = after s (set_assignments s u is)"
| "exec_op (CopyAssignments a b) s = after s (copy_assignments s a b)"
| "exec_op (CredentialPut now u v c) s = after s (credential_put s now u v c)"
| "exec_op (CredentialDelete u v) s = after s (credential_delete s u v)"
| "exec_op (SessionCreate now h u inc ex) s = after s (session_create s now h u inc ex)"
| "exec_op (SessionDelete h) s = after s (session_delete s h)"
| "exec_op (SessionsDeleteUser u) s = after s (sessions_delete_user s u)"
| "exec_op (SessionsPurge at) s = after s (sessions_purge s at)"
| "exec_op (SessionEnded u ui v vi at) s = after s (session_ended s u ui v vi at)"
| "exec_op (Audit now a b c) s = audit s now a b c"
| "exec_op (AuditPrune before n) s = after s (audit_prune s before n)"

definition exec_ops :: "store_op list \<Rightarrow> store \<Rightarrow> store" where
  "exec_ops ops s = fold exec_op ops s"

text \<open>\<open>contains_nocase t s\<close>: somewhere in \<open>s\<close> there is \<open>t\<close>, letters without regard to case.\<close>

fun prefix_nocase :: "string \<Rightarrow> string \<Rightarrow> bool" where
  "prefix_nocase [] s = True"
| "prefix_nocase (c # t) [] = False"
| "prefix_nocase (c # t) (x # s) = (ascii_lower x = ascii_lower c \<and> prefix_nocase t s)"

fun contains_nocase :: "string \<Rightarrow> string \<Rightarrow> bool" where
  "contains_nocase t [] = (t = [])"
| "contains_nocase t (x # s) = (prefix_nocase t (x # s) \<or> contains_nocase t s)"

text \<open>A small database, for evaluating the definitions: two users, two servers, one assignment.\<close>

definition sample_user :: "int \<Rightarrow> string \<Rightarrow> user_row" where
  "sample_user i name = \<lparr> ur_id = i, ur_username = name, ur_display_name = None, ur_sid = Some ''S-1-5'',
     ur_is_admin = False, ur_sid_mismatch = False, ur_created = 0, ur_last_login = None,
     ur_local_hash = None, ur_incarnation = 70 + i \<rparr>"

definition sample_server :: "int \<Rightarrow> string \<Rightarrow> server_row" where
  "sample_server i name = \<lparr> sr_id = i, sr_name = name, sr_host = ''10.0.0.1'', sr_port = 3389,
     sr_group_id = None, sr_domain = None, sr_incarnation = 90 + i \<rparr>"

definition sample_store :: store where
  "sample_store = empty_store\<lparr>
     users := [sample_user 1 ''alice'', sample_user 2 ''bob''], users_seq := 2,
     servers := [sample_server 1 ''db'', sample_server 2 ''web''], servers_seq := 2,
     assignments := [(1, 1)],
     sessions := [\<lparr> se_token_hash = [7], se_user_id = 1, se_created = 0, se_expires = 100 \<rparr>],
     audit_log := [\<lparr> au_id = 1, au_at = 5, au_actor = ''alice'', au_action = ''sign-in'',
                      au_detail = ''from 100%'' \<rparr>]\<rparr>"

section \<open>The invariant over runs\<close>

lemma after_wf: "store_wf s \<Longrightarrow> (\<And>x t. r = Ok (x, t) \<Longrightarrow> store_wf t) \<Longrightarrow> store_wf (after s r)"
  by (auto simp: after_def split: sum.splits)

lemma exec_op_wf: "store_wf s \<Longrightarrow> store_wf (exec_op opn s)"
  by (cases opn) (auto intro!: after_wf intro: wf_intros)

lemma exec_ops_wf: "store_wf s \<Longrightarrow> store_wf (exec_ops ops s)"
  by (induction ops arbitrary: s) (auto simp: exec_ops_def exec_op_wf)

lemmas sample_defs = sample_store_def sample_user_def sample_server_def empty_store_def

lemma sample_store_wf: "store_wf sample_store"
  by (simp add: sample_defs store_wf_def users_wf_def groups_wf_def servers_wf_def group_refs_def
      pairs_wf_def sessions_wf_def audit_wf_def to_ascii_lowercase_def)

text \<open>
  C6: every database the operations can build from an empty one, in any order and with any of them
  failing, satisfies the declared constraints: keys are unique, names are unique without regard to
  case, no id is above its sequence, and every reference names a row that exists.
\<close>

theorem store_reachable_wf: "store_wf (exec_ops ops empty_store)"
  by (intro exec_ops_wf empty_store_wf)

section \<open>Ids are never reused\<close>

text \<open>
  \<open>users_later s t\<close>: every user row of \<open>t\<close> is a row of \<open>s\<close> with its incarnation, or is new and
  has an id no row had before.
\<close>

definition rows_later :: "('r \<Rightarrow> int) \<Rightarrow> ('r \<Rightarrow> int) \<Rightarrow> int \<Rightarrow> 'r list \<Rightarrow> int \<Rightarrow> 'r list \<Rightarrow> bool" where
  "rows_later key inc sq rs sq' rs' \<longleftrightarrow> sq \<le> sq' \<and>
     (\<forall>r \<in> set rs'. sq < key r \<or> (\<exists>q \<in> set rs. key q = key r \<and> inc q = inc r))"

abbreviation users_later :: "store \<Rightarrow> store \<Rightarrow> bool" where
  "users_later s t \<equiv> rows_later ur_id ur_incarnation (users_seq s) (users s) (users_seq t) (users t)"

abbreviation servers_later :: "store \<Rightarrow> store \<Rightarrow> bool" where
  "servers_later s t \<equiv>
     rows_later sr_id sr_incarnation (servers_seq s) (servers s) (servers_seq t) (servers t)"

named_theorems later_simps \<open>what an operation does to the rows of a table\<close>

lemma rows_later_refl [later_simps]: "rows_later key inc sq rs sq rs"
  by (auto simp: rows_later_def)

lemma rows_later_trans:
  "rows_later key inc a rs b rs' \<Longrightarrow> rows_later key inc b rs' c rs'' \<Longrightarrow> rows_later key inc a rs c rs''"
  unfolding rows_later_def by (smt (verit))

lemma rows_later_update [later_simps]:
  "(\<And>r. P r \<Longrightarrow> key (f r) = key r) \<Longrightarrow> (\<And>r. P r \<Longrightarrow> inc (f r) = inc r) \<Longrightarrow>
   rows_later key inc sq rs sq (update_where P f rs)"
  by (auto simp: rows_later_def set_update_where)

lemma rows_later_filter [later_simps]: "rows_later key inc sq rs sq (filter P rs)"
  by (auto simp: rows_later_def)

lemma rows_later_snoc [later_simps]:
  "key r = sq + 1 \<Longrightarrow> rows_later key inc sq rs (sq + 1) (rs @ [r])"
  by (auto simp: rows_later_def)

definition later :: "store \<Rightarrow> store \<Rightarrow> bool" where
  "later s t \<longleftrightarrow> users_later s t \<and> servers_later s t"

lemma after_later: "(\<And>x t. r = Ok (x, t) \<Longrightarrow> later s t) \<Longrightarrow> later s (after s r)"
  by (auto simp: after_def later_def later_simps split: sum.splits)

lemma group_insert_frame:
  "group_insert s n = Ok (i, t) \<Longrightarrow> users t = users s \<and> users_seq t = users_seq s \<and>
   servers t = servers s \<and> servers_seq t = servers_seq s"
  by (auto simp: group_insert_def Let_def split: if_splits sum.splits)

lemma import_one_later:
  "import_one s r row = Ok (b, t) \<Longrightarrow> users t = users s \<and> users_seq t = users_seq s \<and> servers_later s t"
  by (auto simp: import_one_def import_group_def server_insert_def next_id_Ok
      split: sum.splits option.splits prod.splits dest!: group_insert_frame intro!: later_simps)

lemma import_rows_later:
  "import_rows s r n rows = Ok (x, t) \<Longrightarrow>
   users t = users s \<and> users_seq t = users_seq s \<and> servers_later s t"
proof (induction s r n rows rule: import_rows.induct)
  case (2 s r n row rows)
  then obtain b u where "import_one s r row = Ok (b, u)" by (auto split: sum.splits)
  with 2 show ?case by (auto dest!: import_one_later intro: rows_later_trans)
qed (auto intro: later_simps)

lemma later_frame:
  "users t = users s \<Longrightarrow> users_seq t = users_seq s \<Longrightarrow> servers t = servers s \<Longrightarrow>
   servers_seq t = servers_seq s \<Longrightarrow> later s t"
  by (simp add: later_def later_simps)

named_theorems later_ops \<open>every operation leads to a later state\<close>

lemma meta_later [later_ops]:
  "meta_set s k v = Ok (x, t) \<Longrightarrow> later s t"
  "meta_delete s k = Ok (x, t) \<Longrightarrow> later s t"
  "replace_secrets s fs kv = Ok (y, t) \<Longrightarrow> later s t"
  by (auto simp: meta_set_def meta_delete_def replace_secrets_def stmt_Ok Let_def
      intro!: later_frame)

lemma user_create_returning_later:
  "user_create_returning s now r n d = Ok (x, t) \<Longrightarrow> later s t"
  by (auto simp: user_create_returning_def stmt_Ok next_id_Ok Let_def later_def
      split: if_splits sum.splits intro!: later_simps)

lemma user_create_later [later_ops]: "user_create s now r n d = Ok (x, t) \<Longrightarrow> later s t"
  by (auto simp: user_create_def split: sum.splits dest: user_create_returning_later)

lemma local_account_set_later [later_ops]:
  "local_account_set s now r n h sid = Ok (x, t) \<Longrightarrow> later s t"
  by (auto simp: local_account_set_def stmt_Ok next_id_Ok later_def
      split: if_splits sum.splits option.splits intro!: later_simps)

lemma user_rows_later [later_ops]:
  "user_rename s i inc sid n = Ok (b, t) \<Longrightarrow> later s t"
  "user_record_login s now i inc sid d = Ok (b, t) \<Longrightarrow> later s t"
  "user_flag_mismatch s i = Ok (x, t) \<Longrightarrow> later s t"
  "user_set_admin s i c = Ok (x, t) \<Longrightarrow> later s t"
  "user_clear_sid s i = Ok (x, t) \<Longrightarrow> later s t"
  "user_delete s i = Ok (x, t) \<Longrightarrow> later s t"
  by (auto simp: user_rename_def user_record_login_def user_flag_mismatch_def user_set_admin_def
      user_clear_sid_def user_delete_def stmt_Ok Let_def later_def split: if_splits
      intro!: later_simps)

lemma group_rows_later [later_ops]:
  "group_create s n = Ok (j, t) \<Longrightarrow> later s t"
  "group_rename s i n = Ok (x, t) \<Longrightarrow> later s t"
  "group_order s is = Ok (x, t) \<Longrightarrow> later s t"
  "group_delete s i = Ok (x, t) \<Longrightarrow> later s t"
  by (auto simp: group_create_def group_rename_def group_order_def group_delete_def stmt_Ok Let_def
      split: if_splits dest!: group_insert_frame intro!: later_frame)

lemma server_rows_later [later_ops]:
  "server_create s r n h p g d = Ok (j, t) \<Longrightarrow> later s t"
  "server_update s i n h p g d = Ok (x, t) \<Longrightarrow> later s t"
  "server_delete s i = Ok (x, t) \<Longrightarrow> later s t"
  by (auto simp: server_create_def server_insert_def server_update_def server_delete_def stmt_Ok
      next_id_Ok later_def split: if_splits sum.splits intro!: later_simps)

lemma servers_import_later [later_ops]:
  "servers_import s r rows = Ok (x, t) \<Longrightarrow> later s t"
  by (auto simp: servers_import_def stmt_Ok later_def dest!: import_rows_later intro: later_simps)

lemma assignment_rows_later [later_ops]:
  "set_assignments s u ids = Ok (p, t) \<Longrightarrow> later s t"
  "copy_assignments s i j = Ok (n, t) \<Longrightarrow> later s t"
  by (auto simp: copy_assignments_def stmt_Ok Let_def split: if_splits
      dest!: set_assignments_Ok(3) intro!: later_frame)

lemma other_rows_later [later_ops]:
  "credential_put s now u v c = Ok (x, t) \<Longrightarrow> later s t"
  "credential_delete s u v = Ok (b, t) \<Longrightarrow> later s t"
  "session_create s now h u inc ex = Ok (b, t) \<Longrightarrow> later s t"
  "session_delete s h = Ok (x, t) \<Longrightarrow> later s t"
  "sessions_delete_user s u = Ok (n, t) \<Longrightarrow> later s t"
  "sessions_purge s at = Ok (n, t) \<Longrightarrow> later s t"
  "session_ended s u ui v vi at = Ok (b, t) \<Longrightarrow> later s t"
  "audit_prune s before m = Ok (n, t) \<Longrightarrow> later s t"
  by (auto simp: credential_put_def credential_delete_def session_create_def session_delete_def
      sessions_delete_user_def sessions_purge_def session_ended_def audit_prune_def stmt_Ok Let_def
      split: if_splits intro!: later_frame)

lemma audit_later: "later s (audit s now a b c)"
  by (auto simp: audit_def split: option.splits intro!: later_frame)

lemma exec_op_later: "later s (exec_op opn s)"
  by (cases opn) (auto intro!: after_later audit_later intro: later_ops)

lemma exec_ops_later: "later s (exec_ops ops s)"
proof (induction ops arbitrary: s)
  case (Cons opn ops)
  have "later (exec_op opn s) (exec_ops ops (exec_op opn s))" by (rule Cons)
  with exec_op_later [of s opn] show ?case
    by (auto simp: exec_ops_def later_def intro: rows_later_trans)
qed (simp add: exec_ops_def later_def later_simps)

lemma rows_later_earlier:
  "rows_later key inc sq rs sq' rs' \<Longrightarrow> key r \<le> sq \<Longrightarrow> r \<in> set rs' \<Longrightarrow>
   \<exists>q \<in> set rs. key q = key r \<and> inc q = inc r"
  unfolding rows_later_def by fastforce



text \<open>A deleted row is gone for good, and so is everything that refers to it.\<close>

definition mentions_user :: "store \<Rightarrow> int \<Rightarrow> bool" where
  "mentions_user s i \<longleftrightarrow> user_exists s i \<or> (\<exists>a \<in> set (assignments s). fst a = i) \<or>
     (\<exists>k \<in> set (credentials s). cr_user_id k = i) \<or> (\<exists>e \<in> set (sessions s). se_user_id e = i) \<or>
     (\<exists>l \<in> set (session_log s). sl_user_id l = i)"

definition mentions_server :: "store \<Rightarrow> int \<Rightarrow> bool" where
  "mentions_server s i \<longleftrightarrow> server_exists s i \<or> (\<exists>a \<in> set (assignments s). snd a = i) \<or>
     (\<exists>k \<in> set (credentials s). cr_server_id k = i) \<or> (\<exists>l \<in> set (session_log s). sl_server_id l = i)"

lemma pairs_wf_refs:
  "pairs_wf (map f ks) us rs \<Longrightarrow> k \<in> set ks \<Longrightarrow> fst (f k) \<in> ur_id ` set us \<and> snd (f k) \<in> sr_id ` set rs"
  by (auto simp: pairs_wf_def mem_Times_iff image_subset_iff)

lemma store_refs:
  assumes "store_wf s"
  shows "a \<in> set (assignments s) \<Longrightarrow> user_exists s (fst a) \<and> server_exists s (snd a)"
    "k \<in> set (credentials s) \<Longrightarrow> user_exists s (cr_user_id k) \<and> server_exists s (cr_server_id k)"
    "l \<in> set (session_log s) \<Longrightarrow> user_exists s (sl_user_id l) \<and> server_exists s (sl_server_id l)"
    "e \<in> set (sessions s) \<Longrightarrow> user_exists s (se_user_id e)"
proof -
  note refs = pairs_wf_refs [of "\<lambda>a. a" "assignments s" "users s" "servers s" a]
    pairs_wf_refs [of cr_key "credentials s" "users s" "servers s" k]
    pairs_wf_refs [of sl_key "session_log s" "users s" "servers s" l]
  show "a \<in> set (assignments s) \<Longrightarrow> user_exists s (fst a) \<and> server_exists s (snd a)"
    "k \<in> set (credentials s) \<Longrightarrow> user_exists s (cr_user_id k) \<and> server_exists s (cr_server_id k)"
    "l \<in> set (session_log s) \<Longrightarrow> user_exists s (sl_user_id l) \<and> server_exists s (sl_server_id l)"
    using refs store_wfD(5,6,7) [OF assms] by (simp_all add: user_exists_def server_exists_def)
  show "e \<in> set (sessions s) \<Longrightarrow> user_exists s (se_user_id e)"
    using store_wfD(8) [OF assms] by (auto simp: sessions_wf_def user_exists_def image_subset_iff)
qed

lemma mentions_user_wf: "store_wf s \<Longrightarrow> mentions_user s i \<longleftrightarrow> user_exists s i"
  unfolding mentions_user_def by (blast dest: store_refs)

lemma mentions_server_wf: "store_wf s \<Longrightarrow> mentions_server s i \<longleftrightarrow> server_exists s i"
  unfolding mentions_server_def by (blast dest: store_refs)

lemma user_stays_gone:
  "\<not> user_exists s i \<Longrightarrow> i \<le> users_seq s \<Longrightarrow> \<not> user_exists (exec_ops ops s) i"
  using exec_ops_later [of s ops]
  by (auto simp: later_def user_exists_def image_iff dest!: rows_later_earlier)

lemma server_stays_gone:
  "\<not> server_exists s i \<Longrightarrow> i \<le> servers_seq s \<Longrightarrow> \<not> server_exists (exec_ops ops s) i"
  using exec_ops_later [of s ops]
  by (auto simp: later_def server_exists_def image_iff dest!: rows_later_earlier)



text \<open>the same for a deleted server.\<close>

theorem server_delete_forever:
  assumes "store_wf s" "server_delete s i = Ok (x, t)"
  shows "\<not> mentions_server (exec_ops ops t) i"
proof -
  have "store_wf t" using assms by (auto intro: wf_intros)
  moreover have "\<not> server_exists t i" "i \<le> servers_seq t"
    using assms by (auto simp: server_delete_def stmt_Ok server_exists_def store_wf_def
        servers_wf_def split: if_splits)
  ultimately show ?thesis
    using mentions_server_wf [OF exec_ops_wf] server_stays_gone by blast
qed

theorem server_delete_forever_witness:
  "store_wf sample_store \<and> (\<exists>t. server_delete sample_store 1 = Ok ((), t) \<and>
     \<not> mentions_server (exec_ops [ServerCreate 5 ''db'' ''10.0.0.2'' 3389 None None] t) 1)"
proof -
  have "\<exists>t. server_delete sample_store 1 = Ok ((), t)"
    by (simp add: server_delete_def stmt_def sample_defs count_where_def)
  then obtain t where t: "server_delete sample_store 1 = Ok ((), t)" ..
  show ?thesis using sample_store_wf t server_delete_forever [OF sample_store_wf t] by blast
qed

section \<open>Assignments\<close>

definition assigned_to :: "store \<Rightarrow> int \<Rightarrow> int set" where
  "assigned_to s u = {i. (u, i) \<in> set (assignments s)}"

lemma length_distinct_filter: "distinct xs \<Longrightarrow> length (filter P xs) = card {x \<in> set xs. P x}"
  by (metis distinct_card distinct_filter set_filter)

lemma set_assignments_counts:
  assumes "set_assignments s u ids = Ok ((added, removed), t)"
  shows "added = card (set ids - assigned_to s u)" "removed = card (assigned_to s u - set ids)"
proof -
  let ?l = "remdups (map snd (filter (\<lambda>a. fst a = u) (assignments s)))"
  have cur: "set ?l = assigned_to s u" by (force simp: assigned_to_def)
  have n: "added = length (filter (\<lambda>i. i \<notin> set ?l) (remdups ids))"
    "removed = length (filter (\<lambda>i. i \<notin> set ids) ?l)"
    using assms by (auto simp: set_assignments_def stmt_Ok Let_def split: if_splits option.splits)
  have "{i \<in> set (remdups ids). i \<notin> set ?l} = set ids - assigned_to s u"
    unfolding cur by auto
  then show "added = card (set ids - assigned_to s u)"
    by (simp only: n(1) length_distinct_filter [OF distinct_remdups])
  have "{i \<in> set ?l. i \<notin> set ids} = assigned_to s u - set ids"
    unfolding cur by auto
  then show "removed = card (assigned_to s u - set ids)"
    by (simp only: n(2) length_distinct_filter [OF distinct_remdups])
qed

text \<open>
  C31: \<open>set_assignments\<close> succeeds exactly when the user and every server exist, and then the user's
  assignments are exactly the ones asked for, those of other users are untouched, the counts are
  those of the two differences, and the credentials that go are the user's for servers taken away.
\<close>

theorem set_assignments_exact:
  assumes "sql_fault s ''set_assignments'' = None"
  shows "case set_assignments s u ids of
      Err e \<Rightarrow> \<not> (user_exists s u \<and> (\<forall>i \<in> set ids. server_exists s i))
    | Ok ((added, removed), t) \<Rightarrow>
        user_exists s u \<and> (\<forall>i \<in> set ids. server_exists s i) \<and>
        set (assignments t) = {a \<in> set (assignments s). fst a \<noteq> u} \<union> {u} \<times> set ids \<and>
        added = card (set ids - assigned_to s u) \<and> removed = card (assigned_to s u - set ids) \<and>
        credentials t = filter (\<lambda>k. \<not> (cr_user_id k = u \<and> cr_server_id k \<in> assigned_to s u - set ids))
                          (credentials s)"
proof (cases "set_assignments s u ids")
  case (Inl e)
  then show ?thesis
    using assms by (auto simp: set_assignments_def Let_def split: option.splits if_splits
        dest!: find_Some_set)
next
  case (Inr p)
  then obtain a r t where p: "p = ((a, r), t)" by (metis surj_pair)
  note ok = Inr [unfolded p]
  have "set (assignments t) = {a \<in> set (assignments s). fst a \<noteq> u} \<union> {u} \<times> set ids"
    by (subst set_assignments_Ok(3) [OF ok]) auto
  moreover have "credentials t = filter (\<lambda>k. \<not> (cr_user_id k = u \<and>
      cr_server_id k \<in> assigned_to s u - set ids)) (credentials s)"
    by (subst set_assignments_Ok(3) [OF ok], simp, rule filter_cong) (auto simp: assigned_to_def)
  ultimately show ?thesis
    unfolding ok sum.case prod.case
    using set_assignments_Ok(1,2) [OF ok] set_assignments_counts [OF ok] by blast
qed

theorem set_assignments_exact_witness:
  "sql_fault sample_store ''set_assignments'' = None \<and>
   (\<exists>added removed t. set_assignments sample_store 1 [2] = Ok ((added, removed), t) \<and>
      set (assignments t) = {a \<in> set (assignments sample_store). fst a \<noteq> 1} \<union> {1} \<times> {2} \<and>
      added = card ({2} - assigned_to sample_store 1))"
proof -
  have f: "sql_fault sample_store ''set_assignments'' = None" by (simp add: sample_defs)
  have "is_ok (set_assignments sample_store 1 [2])"
    by (simp add: set_assignments_def stmt_def sample_defs user_exists_def server_exists_def
        Let_def)
  then obtain a r t where ok: "set_assignments sample_store 1 [2] = Ok ((a, r), t)"
    by (metis is_ok_iff surj_pair)
  show ?thesis using f ok set_assignments_exact [OF f, of 1 "[2]"] by simp
qed

section \<open>Searching the audit log\<close>

definition esc_char :: "char \<Rightarrow> string" where
  "esc_char c = (if c \<in> {CHR 0x5C, CHR ''%'', CHR ''_''} then [CHR 0x5C, c] else [c])"

lemma like_escape_Cons [simp]:
  "like_escape [] = []" "like_escape (c # t) = esc_char c @ like_escape t"
  by (auto simp: like_escape_def replace_char_def esc_char_def)

lemma like_percent [simp]: "like ''%'' s"
  by (induction s) auto

lemma like_escape_prefix: "like (like_escape t @ ''%'') s \<longleftrightarrow> prefix_nocase t s"
proof (induction t arbitrary: s)
  case (Cons c t)
  then show ?case by (cases s) (auto simp: esc_char_def)
qed (simp del: like.simps)

lemma like_contains: "like (CHR ''%'' # like_escape t @ ''%'') s \<longleftrightarrow> contains_nocase t s"
proof (induction s)
  case Nil
  then show ?case by (cases t) (auto simp: like_escape_prefix [of "_ # _", simplified])
next
  case (Cons x s)
  then show ?case using like_escape_prefix [of t "x # s"] by auto
qed

lemma sort_key_sorted: "sorted (map f xs) \<Longrightarrow> sort_key f xs = xs"
  by (rule sort_key_id_if_sorted)

lemma audit_sorted: "audit_wf as \<Longrightarrow> sorted (map au_id (filter P as))"
  by (auto simp: audit_wf_def sorted_wrt_map intro!: sorted_wrt_filter
      elim!: sorted_wrt_mono_rel [rotated])

text \<open>
  a search returns, newest first and at most \<open>limit\<close> of them, exactly the entries before the
  given one whose actor, action or detail contains the text as it stands, ignoring case: the
  wildcards of \<open>LIKE\<close> in the text are escaped.
\<close>

theorem audit_search_contains:
  assumes "sql_fault s ''audit_search'' = None" "store_wf s" "t \<noteq> []"
  shows "audit_search s limit before (Some t) = Ok (sql_limit limit (rev (filter
      (\<lambda>a. (case before of None \<Rightarrow> True | Some b \<Rightarrow> au_id a < b) \<and>
           (contains_nocase t (au_actor a) \<or> contains_nocase t (au_action a) \<or>
            contains_nocase t (au_detail a))) (audit_log s))))"
  using assms sort_key_sorted [OF audit_sorted [OF store_wfD(9) [OF assms(2)]]]
  by (simp add: audit_search_def audit_pattern_def like_contains Let_def del: like.simps)

theorem audit_search_contains_witness:
  "audit_search sample_store 10 None (Some ''0%'') = Ok (audit_log sample_store) \<and>
   audit_search sample_store 10 None (Some ''0_'') = Ok []"
  using audit_search_contains [of sample_store "''0%''" 10 None]
    audit_search_contains [of sample_store "''0_''" 10 None] sample_store_wf
  by (simp add: sample_defs sql_limit_def ascii_lower_def)

section \<open>Pruning the audit log\<close>

lemma strict_sorted_take_mem:
  "sorted_wrt (<) (map f xs) \<Longrightarrow> filter (\<lambda>x. f x \<notin> f ` set (take n xs)) xs = drop n xs"
  for f :: "'a \<Rightarrow> int"
proof -
  assume "sorted_wrt (<) (map f xs)"
  then have d: "distinct (map f xs)" by (simp add: strict_sorted_iff)
  have disj: "f x \<notin> f ` set (take n xs)" if "x \<in> set (drop n xs)" for x
  proof -
    have "f ` set (take n xs) \<inter> f ` set (drop n xs) = {}"
      using d by (metis append_take_drop_id distinct_append map_append set_map)
    then show ?thesis using that by blast
  qed
  have "filter (\<lambda>x. f x \<notin> f ` set (take n xs)) (take n xs) = []"
    by (simp add: filter_empty_conv)
  moreover have "filter (\<lambda>x. f x \<notin> f ` set (take n xs)) (drop n xs) = drop n xs"
    using disj by (simp add: filter_id_conv)
  ultimately show ?thesis by (metis append_Nil append_take_drop_id filter_append)
qed

definition old_entries :: "store \<Rightarrow> unix_time \<Rightarrow> audit_row list" where
  "old_entries s before = filter (\<lambda>a. au_at a < before) (audit_log s)"

definition kept_entries :: "store \<Rightarrow> unix_time \<Rightarrow> audit_row list" where
  "kept_entries s before = filter (\<lambda>a. \<not> au_at a < before) (audit_log s)"

lemma audit_prune_doomed:
  assumes "store_wf s" "0 \<le> batch"
  shows "sql_limit batch (sort (map au_id (filter (\<lambda>a. au_at a < before) (audit_log s)))) =
         map au_id (take (nat batch) (old_entries s before))"
proof -
  have "sorted (map au_id (old_entries s before))"
    unfolding old_entries_def by (rule audit_sorted [OF store_wfD(9) [OF assms(1)]])
  then show ?thesis using assms(2)
    by (simp add: sql_limit_def old_entries_def sorted_sort_id take_map)
qed

lemma audit_prune_effect:
  assumes "store_wf s" "0 \<le> batch" "audit_prune s before batch = Ok (n, t)"
  shows "old_entries t before = drop (nat batch) (old_entries s before)"
    "kept_entries t before = kept_entries s before"
    "n = min (nat batch) (length (old_entries s before))"
proof -
  let ?gone = "take (nat batch) (old_entries s before)"
  have srt: "sorted_wrt (<) (map au_id (audit_log s))"
    using store_wfD(9) [OF assms(1)] by (simp add: audit_wf_def)
  then have srt': "sorted_wrt (<) (map au_id (old_entries s before))"
    unfolding old_entries_def sorted_wrt_map by (rule sorted_wrt_filter)
  have t: "audit_log t = filter (\<lambda>a. au_id a \<notin> au_id ` set ?gone) (audit_log s)"
    and n: "n = count_where (\<lambda>a. au_id a \<in> au_id ` set ?gone) (audit_log s)"
    using assms(3) audit_prune_doomed [OF assms(1,2)]
    by (auto simp: audit_prune_def stmt_Ok Let_def)
  have old: "set ?gone \<subseteq> set (old_entries s before)" by (rule set_take_subset)
  have inj: "a = b" if "a \<in> set (audit_log s)" "b \<in> set (audit_log s)" "au_id a = au_id b" for a b
    using srt that by (auto simp: strict_sorted_iff intro: distinct_map_eq)
  have mem: "au_id a \<in> au_id ` set ?gone \<longleftrightarrow> a \<in> set ?gone" if "a \<in> set (audit_log s)" for a
  proof -
    have "x \<in> set (audit_log s)" if "x \<in> set ?gone" for x
      using that old by (auto simp: old_entries_def)
    then show ?thesis using that inj by blast
  qed
  have "old_entries t before = filter (\<lambda>a. au_id a \<notin> au_id ` set ?gone) (old_entries s before)"
    by (auto simp: old_entries_def t intro!: filter_cong)
  then show "old_entries t before = drop (nat batch) (old_entries s before)"
    by (simp only: strict_sorted_take_mem [OF srt'])
  show "kept_entries t before = kept_entries s before"
    unfolding kept_entries_def t filter_filter using mem old
    by (intro filter_cong) (auto simp: old_entries_def dest!: in_set_takeD)
  have "n = card (set ?gone)"
  proof -
    have "{a \<in> set (audit_log s). au_id a \<in> au_id ` set ?gone} = set ?gone"
      using mem old by (auto simp: old_entries_def)
    moreover have "distinct (audit_log s)"
      using srt by (auto simp: strict_sorted_iff distinct_map)
    ultimately show ?thesis by (simp add: n count_where_def length_distinct_filter)
  qed
  moreover have "distinct ?gone"
    using srt' by (auto simp: strict_sorted_iff distinct_map)
  ultimately show "n = min (nat batch) (length (old_entries s before))"
    by (simp add: distinct_card)
qed

text \<open>
  \<open>audit_prune\<close> removes the oldest entries written before the limit, at most \<open>batch\<close> of them,
  returns how many, and touches no other entry.
\<close>

theorem audit_prune_oldest:
  assumes "store_wf s" "0 \<le> batch" "audit_prune s before batch = Ok (n, t)"
  shows "old_entries t before = drop (nat batch) (old_entries s before) \<and>
    kept_entries t before = kept_entries s before \<and>
    n = min (nat batch) (length (old_entries s before))"
  using audit_prune_effect [OF assms] by blast

theorem audit_prune_oldest_witness:
  "store_wf sample_store \<and> (\<exists>n t. audit_prune sample_store 9 5 = Ok (n, t) \<and> n = 1 \<and>
     old_entries t 9 = [] )"
proof -
  obtain n t where p: "audit_prune sample_store 9 5 = Ok (n, t)"
    by (auto simp: audit_prune_def stmt_def sample_defs Let_def)
  show ?thesis using sample_store_wf p audit_prune_oldest [OF sample_store_wf _ p]
    by (simp add: old_entries_def sample_defs)
qed

section \<open>Sign-in sessions\<close>

text \<open>
  a sign-in session is created only for the user row that was authenticated, names that user
  until it expires and nobody afterwards, and names nobody once it, or the user's sessions, have
  been deleted.
\<close>

theorem session_lifecycle:
  assumes "store_wf s" "sql_fault s = (\<lambda>_. None)" "session_create s now h u inc ex = Ok (True, t)"
  shows "\<exists>r \<in> set (users s). ur_id r = u \<and> ur_incarnation r = inc \<and>
     (\<forall>at. session_user t h at = Ok (if at < ex then Some (user_from r) else None)) \<and>
     (\<forall>at v. session_delete t h = Ok ((), v) \<longrightarrow> session_user v h at = Ok None) \<and>
     (\<forall>at n v. sessions_delete_user t u = Ok (n, v) \<longrightarrow> session_user v h at = Ok None)"
proof -
  obtain r where r: "r \<in> set (users s)" "ur_id r = u" "ur_incarnation r = inc"
    and t: "t = s\<lparr>sessions := sessions s @ [\<lparr> se_token_hash = h, se_user_id = u,
                    se_created = now, se_expires = ex \<rparr>]\<rparr>"
    and fresh: "h \<notin> se_token_hash ` set (sessions s)"
    using assms(3) by (auto simp: session_create_def stmt_Ok user_is_def split: if_splits)
  have none: "List.find (\<lambda>e. se_token_hash e = h \<and> P e) (filter Q (sessions s)) = None" for P Q
    using fresh by (auto simp: find_None_set)
  have row: "List.find (\<lambda>q. ur_id q = u) (users s) = Some r"
    using find_key [of ur_id "users s" r] r store_wfD(1) [OF assms(1)] by (auto simp: users_wf_def)
  have "session_user t h at = Ok (if at < ex then Some (user_from r) else None)" for at
    using none [of _ "\<lambda>_. True"] row assms(2)
    by (simp add: session_user_def t find_append)
  moreover have "session_delete t h = Ok ((), v) \<Longrightarrow> session_user v h at = Ok None" for at v
    using none assms(2) by (auto simp: session_delete_def session_user_def t)
  moreover have "sessions_delete_user t u = Ok (n, v) \<Longrightarrow> session_user v h at = Ok None" for at n v
    using none assms(2) by (auto simp: sessions_delete_user_def session_user_def t)
  ultimately show ?thesis using r by blast
qed

theorem session_lifecycle_witness:
  "\<exists>t. session_create sample_store 10 [9] 1 71 50 = Ok (True, t) \<and>
     session_user t [9] 49 = Ok (Some (user_from (sample_user 1 ''alice''))) \<and>
     session_user t [9] 50 = Ok None"
proof -
  obtain t where t: "session_create sample_store 10 [9] 1 71 50 = Ok (True, t)"
    by (auto simp: session_create_def stmt_def sample_defs user_is_def)
  have f: "sql_fault sample_store = (\<lambda>_. None)" by (simp add: sample_defs)
  show ?thesis using t session_lifecycle [OF sample_store_wf f t] by (auto simp: sample_defs)
qed

text \<open>
  recording a sign-in binds an account to a SID once. It writes only to the row it was given,
  in that incarnation, and only while the row is unbound or bound to the same SID; no bound row is
  ever bound to another.
\<close>

theorem user_record_login_binds_once:
  assumes "user_record_login s now i inc sid d = Ok (b, t)"
  shows "(b \<longleftrightarrow> (\<exists>r \<in> set (users s). ur_id r = i \<and> ur_incarnation r = inc \<and>
            (ur_sid r = None \<or> ur_sid r = Some sid))) \<and>
    (\<not> b \<longrightarrow> t = s) \<and> length (users t) = length (users s) \<and>
    (\<forall>n < length (users s). let r = users s ! n; r' = users t ! n in
       (ur_sid r \<noteq> None \<longrightarrow> ur_sid r' = ur_sid r) \<and>
       (r' \<noteq> r \<longrightarrow> ur_id r = i \<and> ur_incarnation r = inc \<and> ur_sid r' = Some sid \<and>
                  ur_last_login r' = Some now))"
proof -
  let ?hit = "\<lambda>r. ur_id r = i \<and> ur_incarnation r = inc \<and> (ur_sid r = None \<or> ur_sid r = Some sid)"
  let ?f = "\<lambda>r. r\<lparr>ur_sid := coalesce (ur_sid r) (Some sid),
                 ur_display_name := coalesce d (ur_display_name r), ur_last_login := Some now\<rparr>"
  have t: "t = s\<lparr>users := update_where ?hit ?f (users s)\<rparr>" and b: "b = (count_where ?hit (users s) > 0)"
    using assms by (auto simp: user_record_login_def stmt_Ok Let_def)
  have hits: "b \<longleftrightarrow> (\<exists>r \<in> set (users s). ?hit r)"
    by (auto simp: b count_where_def filter_empty_conv)
  moreover have "\<not> b \<Longrightarrow> t = s" using hits by (simp add: t update_where_none)
  ultimately show ?thesis
    by (auto simp: t update_where_def Let_def coalesce_def split: option.splits)
qed

theorem user_record_login_binds_once_witness:
  "\<exists>t. user_record_login sample_store 10 1 71 ''S-9'' None = Ok (False, t) \<and> t = sample_store"
proof -
  obtain b t where t: "user_record_login sample_store 10 1 71 ''S-9'' None = Ok (b, t)"
    by (auto simp: user_record_login_def stmt_def sample_defs Let_def)
  then show ?thesis using user_record_login_binds_once [OF t] by (auto simp: sample_defs)
qed

section \<open>Imports\<close>

lemma import_group_servers: "import_group s g = Ok (gid, t) \<Longrightarrow> servers t = servers s"
  by (auto simp: import_group_def split: option.splits sum.splits prod.splits
      dest: group_insert_frame)

lemma import_one_effect:
  assumes "import_one s rnd row = Ok (b, t)" "store_wf s"
  shows "\<exists>q \<in> set (servers t). eq_ignore_ascii_case (sr_name q) (ir_name row) \<and> sr_host q = ir_host row"
    and "\<And>q. q \<in> set (servers s) \<Longrightarrow> \<not> eq_ignore_ascii_case (sr_name q) (ir_name row) \<Longrightarrow>
           q \<in> set (servers t)"
    and "length (servers t) = length (servers s) + (if b then 1 else 0)"
proof -
  obtain gid u where g: "import_group s (ir_group row) = Ok (gid, u)"
    using assms(1) by (auto simp: import_one_def split: sum.splits)
  have u: "servers u = servers s" using g by (rule import_group_servers)
  have d: "distinct (map sr_id (servers s))" using store_wfD(3) [OF assms(2)] by (simp add: servers_wf_def)
  have "(\<exists>q \<in> set (servers t). eq_ignore_ascii_case (sr_name q) (ir_name row) \<and> sr_host q = ir_host row) \<and>
    (\<forall>q \<in> set (servers s). \<not> eq_ignore_ascii_case (sr_name q) (ir_name row) \<longrightarrow> q \<in> set (servers t)) \<and>
    length (servers t) = length (servers s) + (if b then 1 else 0)"
  proof (cases "List.find (\<lambda>r. eq_ignore_ascii_case (sr_name r) (ir_name row)) (servers s)")
    case None
    then show ?thesis using assms(1) g u
      by (auto simp: import_one_def server_insert_def split: sum.splits)
  next
    case (Some q)
    then have "q \<in> set (servers s)" "eq_ignore_ascii_case (sr_name q) (ir_name row)"
      by (auto dest: find_Some_set)
    moreover have "sr_id x \<noteq> sr_id q"
      if "x \<in> set (servers s)" "\<not> eq_ignore_ascii_case (sr_name x) (ir_name row)" for x
      using that calculation distinct_map_eq [OF d that(1) calculation(1)] by auto
    ultimately show ?thesis using assms(1) g u Some
      by (auto simp: import_one_def set_update_where bex_Un)
  qed
  then show "\<exists>q \<in> set (servers t). eq_ignore_ascii_case (sr_name q) (ir_name row) \<and> sr_host q = ir_host row"
    "\<And>q. q \<in> set (servers s) \<Longrightarrow> \<not> eq_ignore_ascii_case (sr_name q) (ir_name row) \<Longrightarrow>
           q \<in> set (servers t)"
    "length (servers t) = length (servers s) + (if b then 1 else 0)"
    by blast+
qed

lemma import_rows_keep:
  "import_rows s rnd n rows = Ok (x, t) \<Longrightarrow> store_wf s \<Longrightarrow> q \<in> set (servers s) \<Longrightarrow>
   (\<forall>row \<in> set rows. \<not> eq_ignore_ascii_case (sr_name q) (ir_name row)) \<Longrightarrow> q \<in> set (servers t)"
proof (induction s rnd n rows rule: import_rows.induct)
  case (2 s rnd n row rows)
  then obtain b u where u: "import_one s rnd row = Ok (b, u)" by (auto split: sum.splits)
  have "q \<in> set (servers u)" using import_one_effect(2) [OF u "2.prems"(2,3)] "2.prems"(4) by simp
  then show ?case using "2.IH" [OF u refl] "2.prems" import_one_wf [OF u] u by auto
qed auto

lemma import_rows_effect:
  "import_rows s rnd n rows = Ok (m, t) \<Longrightarrow> store_wf s \<Longrightarrow>
   fst m + snd m = fst n + snd n + length rows \<and>
   length (servers t) + fst n = length (servers s) + fst m"
proof (induction s rnd n rows rule: import_rows.induct)
  case (2 s rnd n row rows)
  then obtain b u where u: "import_one s rnd row = Ok (b, u)" by (auto split: sum.splits)
  show ?case
    using "2.IH" [OF u refl] "2.prems" import_one_wf [OF u] import_one_effect(3) [OF u] u
    by (auto split: if_splits)
qed auto

lemma import_rows_append:
  "import_rows s rnd n (xs @ ys) =
     (case import_rows s rnd n xs of Err e \<Rightarrow> Err e | Ok (m, t) \<Rightarrow> import_rows t rnd m ys)"
  by (induction s rnd n xs rule: import_rows.induct) (auto split: sum.splits prod.splits)

text \<open>
  an import that succeeds counts every row once, as created or as updated, adds exactly the
  created ones, and for every row whose name no later row repeats there is a server of that name
  with the row's host.
\<close>

theorem servers_import_applies:
  assumes "store_wf s" "servers_import s rnd (xs @ row # ys) = Ok ((created, updated), t)"
    "\<forall>r \<in> set ys. \<not> eq_ignore_ascii_case (ir_name row) (ir_name r)"
  shows "created + updated = length (xs @ row # ys) \<and>
    length (servers t) = length (servers s) + created \<and>
    (\<exists>q \<in> set (servers t). eq_ignore_ascii_case (sr_name q) (ir_name row) \<and> sr_host q = ir_host row)"
proof -
  have r: "import_rows s rnd (0, 0) (xs @ row # ys) = Ok ((created, updated), t)"
    using assms(2) by (simp add: servers_import_def stmt_Ok)
  then obtain m u b v where u: "import_rows s rnd (0, 0) xs = Ok (m, u)"
    and v: "import_one u rnd row = Ok (b, v)"
    and t: "import_rows v rnd (if b then (fst m + 1, snd m) else (fst m, snd m + 1)) ys =
            Ok ((created, updated), t)"
    by (auto simp: import_rows_append split: sum.splits prod.splits)
  have wu: "store_wf u" by (rule import_rows_wf [OF u assms(1)])
  obtain q where q: "q \<in> set (servers v)" "eq_ignore_ascii_case (sr_name q) (ir_name row)"
    "sr_host q = ir_host row" using import_one_effect(1) [OF v wu] by blast
  have "\<forall>r \<in> set ys. \<not> eq_ignore_ascii_case (sr_name q) (ir_name r)"
    using assms(3) q(2) by (simp add: eq_ignore_ascii_case_def)
  with q t have "q \<in> set (servers t)" by (blast intro: import_rows_keep import_one_wf [OF v wu])
  with q import_rows_effect [OF r assms(1)] show ?thesis by auto
qed

definition sample_import :: "string \<Rightarrow> string \<Rightarrow> import_row" where
  "sample_import n h = \<lparr> ir_name = n, ir_host = h, ir_port = None, ir_group = Some (Some ''eu''),
                         ir_domain = None \<rparr>"

theorem servers_import_applies_witness:
  "\<exists>c u t. servers_import sample_store id ([] @ sample_import ''DB'' ''h1'' # [sample_import ''new'' ''h2''])
       = Ok ((c, u), t) \<and> c + u = 2 \<and> length (servers t) = 2 + c"
proof -
  have "is_ok (servers_import sample_store id ([] @ sample_import ''DB'' ''h1'' # [sample_import ''new'' ''h2'']))"
    by code_simp
  then obtain c u t where ok: "servers_import sample_store id
      ([] @ sample_import ''DB'' ''h1'' # [sample_import ''new'' ''h2'']) = Ok ((c, u), t)"
    by (metis is_ok_iff surj_pair)
  have "length (servers sample_store) = 2" by (simp add: sample_defs)
  then show ?thesis using ok servers_import_applies [OF sample_store_wf ok]
    by (auto simp: sample_import_def eq_ignore_ascii_case_def to_ascii_lowercase_def ascii_lower_def)
qed

end
