(* ===== verification/WA_Policy.thy ===== *)
theory WA_Policy
  imports WA_Store_Props
begin

text \<open>
  The authorization decision, \<open>src/src/policy.rs\<close>. \<open>resolve\<close> answers one request to connect and
  \<open>permitted\<close> makes the user's list; the point of the module is that the two are one model. The
  locale \<open>access_model\<close> states that contract for a connection predicate and a list, and is
  interpreted on the two functions.
\<close>

section \<open>The two functions\<close>

datatype denied = NoSuchTarget | NotPermitted

datatype policy_error = Denied denied | PolicyStore store_error

definition resolve :: "store \<Rightarrow> int \<Rightarrow> string \<Rightarrow> policy_error + server" where
  "resolve s user_id target_id =
     (case parse_i64 target_id of
        None \<Rightarrow> Err (Denied NoSuchTarget)
      | Some i \<Rightarrow>
          (case server_by_id s i of
             Err e \<Rightarrow> Err (PolicyStore e)
           | Ok None \<Rightarrow> Err (Denied NoSuchTarget)
           | Ok (Some v) \<Rightarrow>
               (case is_assigned s user_id (s_id v) of
                  Err e \<Rightarrow> Err (PolicyStore e)
                | Ok b \<Rightarrow> if b then Ok v else Err (Denied NotPermitted))))"

definition permitted :: "store \<Rightarrow> int \<Rightarrow> policy_error + listed_server list" where
  "permitted s user_id =
     (case assigned_servers s user_id of Err e \<Rightarrow> Err (PolicyStore e) | Ok l \<Rightarrow> Ok l)"

text \<open>The two, as a connection predicate and a list, for a store that answers.\<close>

definition connects :: "store \<Rightarrow> int \<Rightarrow> int \<Rightarrow> server option" where
  "connects s u i = (case resolve s u (show_int i) of Ok v \<Rightarrow> Some v | Err _ \<Rightarrow> None)"

definition list_servers :: "store \<Rightarrow> int \<Rightarrow> server list" where
  "list_servers s u = (case permitted s u of Ok l \<Rightarrow> map ls_server l | Err _ \<Rightarrow> [])"

section \<open>One authorization model\<close>

locale access_model =
  fixes good :: "'s \<Rightarrow> bool"
    and conn :: "'s \<Rightarrow> 'u \<Rightarrow> 'k \<Rightarrow> 'v option"
    and shown :: "'s \<Rightarrow> 'u \<Rightarrow> 'v list"
    and key :: "'v \<Rightarrow> 'k"
  assumes conn_shown: "good s \<Longrightarrow> conn s u k = Some v \<Longrightarrow> v \<in> set (shown s u)"
    and conn_key: "good s \<Longrightarrow> conn s u k = Some v \<Longrightarrow> key v = k"
    and shown_conn: "good s \<Longrightarrow> v \<in> set (shown s u) \<Longrightarrow> conn s u (key v) = Some v"
    and shown_distinct: "good s \<Longrightarrow> distinct (shown s u)"
begin

lemma shown_iff: "good s \<Longrightarrow> v \<in> set (shown s u) \<longleftrightarrow> conn s u (key v) = Some v"
  using conn_shown shown_conn by blast

lemma conn_iff: "good s \<Longrightarrow> conn s u k = Some v \<longleftrightarrow> v \<in> set (shown s u) \<and> key v = k"
  using shown_iff conn_key by blast

lemma distinct_keys: "good s \<Longrightarrow> distinct (map key (shown s u))"
  using shown_distinct shown_iff by (force simp: distinct_map inj_on_def)

lemma empty_iff: "good s \<Longrightarrow> shown s u = [] \<longleftrightarrow> (\<forall>k. conn s u k = None)"
proof
  assume "good s" "shown s u = []"
  then show "\<forall>k. conn s u k = None" using conn_shown by (metis empty_iff list.set(1) option.exhaust)
next
  assume g: "good s" and n: "\<forall>k. conn s u k = None"
  show "shown s u = []"
  proof (rule ccontr)
    assume "shown s u \<noteq> []"
    then have "hd (shown s u) \<in> set (shown s u)" by simp
    then show False using shown_iff [OF g] n by fastforce
  qed
qed

end

text \<open>A store that is well formed, answers, and whose sequences are \<open>i64\<close> values.\<close>

definition store_good :: "store \<Rightarrow> bool" where
  "store_good s \<longleftrightarrow> store_wf s \<and> sql_fault s = (\<lambda>_. None) \<and> servers_seq s < 2 ^ 63"

lemma server_from_id [simp]: "s_id (server_from r) = sr_id r"
  by (simp add: server_from_def)

lemma set_assigned_rows:
  "set [r. a \<leftarrow> assignments s, fst a = u, r \<leftarrow> servers s, sr_id r = snd a] =
   {r \<in> set (servers s). (u, sr_id r) \<in> set (assignments s)}"
  by auto

lemma list_servers_set:
  "sql_fault s = (\<lambda>_. None) \<Longrightarrow>
   set (list_servers s u) = server_from ` {r \<in> set (servers s). (u, sr_id r) \<in> set (assignments s)}"
  by (simp add: list_servers_def permitted_def assigned_servers_def image_image
      set_assigned_rows [symmetric])

lemma resolve_row:
  assumes "store_wf s" "sql_fault s = (\<lambda>_. None)"
  shows "resolve s u t = Ok v \<longleftrightarrow>
    (\<exists>r \<in> set (servers s). parse_i64 t = Some (sr_id r) \<and> v = server_from r \<and>
       (u, sr_id r) \<in> set (assignments s))"
proof -
  have d: "distinct (map sr_id (servers s))" using store_wfD(3) [OF assms(1)] by (simp add: servers_wf_def)
  have f: "List.find (\<lambda>r. sr_id r = i) (servers s) = Some r \<longleftrightarrow> r \<in> set (servers s) \<and> sr_id r = i" for i r
    using find_key [OF d, of r] find_Some_set by fastforce
  have "resolve s u t = Ok v \<longleftrightarrow> (\<exists>i r. parse_i64 t = Some i \<and>
      List.find (\<lambda>r. sr_id r = i) (servers s) = Some r \<and> v = server_from r \<and>
      (u, sr_id r) \<in> set (assignments s))"
    using assms(2) by (auto simp: resolve_def server_by_id_def is_assigned_def
        split: option.splits if_splits)
  then show ?thesis unfolding f by blast
qed

lemma server_id_i64:
  "store_good s \<Longrightarrow> r \<in> set (servers s) \<Longrightarrow> i64_range (sr_id r)"
  by (fastforce simp: store_good_def store_wf_def servers_wf_def i64_range_def)

lemma concat_if_filter: "concat (map (\<lambda>r. if P r then [r] else []) rs) = filter P rs"
  by (induction rs) auto

lemma assigned_rows_distinct:
  assumes "store_wf s"
  shows "distinct (map sr_id [r. a \<leftarrow> assignments s, fst a = u, r \<leftarrow> servers s, sr_id r = snd a])"
proof -
  have d: "distinct (map sr_id (servers s))" using store_wfD(3) [OF assms] by (simp add: servers_wf_def)
  have one: "map sr_id (filter (\<lambda>r. sr_id r = i) rs) = (if i \<in> sr_id ` set rs then [i] else [])"
    if "distinct (map sr_id rs)" for i rs
    using that by (induction rs) (auto simp: filter_empty_conv image_iff)
  have "distinct ps \<Longrightarrow> map sr_id [r. a \<leftarrow> ps, fst a = u, r \<leftarrow> servers s, sr_id r = snd a] =
    map snd (filter (\<lambda>a. fst a = u \<and> snd a \<in> sr_id ` set (servers s)) ps)" for ps
  proof (induction ps)
    case (Cons a ps)
    then show ?case using one [OF d, of "snd a"]
      by (auto simp: concat_if_filter filter_empty_conv)
  qed simp
  moreover have "distinct (map snd (filter (\<lambda>a. fst a = u \<and> Q a) (assignments s)))" for Q
    using store_wfD(5) [OF assms] by (auto simp: pairs_wf_def distinct_map inj_on_def)
  ultimately show ?thesis using store_wfD(5) [OF assms] by (simp add: pairs_wf_def)
qed

lemma list_servers_distinct: "store_good s \<Longrightarrow> distinct (map s_id (list_servers s u))"
proof -
  assume g: "store_good s"
  let ?l = "[r. a \<leftarrow> assignments s, fst a = u, r \<leftarrow> servers s, sr_id r = snd a]"
  have "mset (map sr_id (sort_key (listed_key s) ?l)) = mset (map sr_id ?l)" by (simp del: map_concat)
  then have "distinct (map sr_id (sort_key (listed_key s) ?l)) = distinct (map sr_id ?l)"
    by (rule mset_eq_imp_distinct_iff)
  then have "distinct (map sr_id (sort_key (listed_key s) ?l))"
    using assigned_rows_distinct [of s u] g unfolding store_good_def by blast
  moreover have "map s_id (list_servers s u) = map sr_id (sort_key (listed_key s) ?l)"
    using g by (simp add: list_servers_def permitted_def assigned_servers_def store_good_def
        server_from_def comp_def)
  ultimately show ?thesis by simp
qed

lemma connects_row:
  assumes "store_good s"
  shows "connects s u k = Some v \<longleftrightarrow>
    (\<exists>r \<in> set (servers s). sr_id r = k \<and> v = server_from r \<and> (u, sr_id r) \<in> set (assignments s))"
proof -
  have "connects s u k = Some v \<longleftrightarrow> resolve s u (show_int k) = Ok v"
    by (simp add: connects_def split: sum.splits)
  then show ?thesis
    using assms server_id_i64 [OF assms] by (auto simp: store_good_def resolve_row split: if_splits)
qed

interpretation policy: access_model store_good connects list_servers s_id
proof
  fix s u k v
  assume g: "store_good s"
  show "connects s u k = Some v \<Longrightarrow> v \<in> set (list_servers s u)"
    using g by (auto simp: connects_row list_servers_set store_good_def)
  show "connects s u k = Some v \<Longrightarrow> s_id v = k"
    using g by (auto simp: connects_row)
  show "v \<in> set (list_servers s u) \<Longrightarrow> connects s u (s_id v) = Some v"
    using g by (auto simp: connects_row list_servers_set store_good_def)
  show "distinct (list_servers s u)"
    using list_servers_distinct [OF g] by (simp add: distinct_map)
qed

section \<open>Properties\<close>

text \<open>
  C15: the list and the connection are one authorization model. On a store that answers, the user
  can connect to a target exactly when it is the id of a server their list shows, and gets that
  server; the list shows each server once.
\<close>

theorem list_is_connection:
  assumes "store_good s"
  shows "(\<forall>i v. connects s u i = Some v \<longleftrightarrow> v \<in> set (list_servers s u) \<and> s_id v = i) \<and>
    distinct (map s_id (list_servers s u))"
  using policy.conn_iff [OF assms] policy.distinct_keys [OF assms] by blast

lemma sample_store_good: "store_good sample_store"
  using sample_store_wf by (simp add: store_good_def sample_defs)

theorem list_is_connection_witness:
  "store_good sample_store \<and>
   connects sample_store 1 1 = Some (server_from (sample_server 1 ''db'')) \<and>
   s_id (server_from (sample_server 1 ''db'')) = 1"
proof -
  have "server_from (sample_server 1 ''db'') \<in> set (list_servers sample_store 1)"
    by (subst list_servers_set) (simp_all add: sample_defs)
  moreover have "s_id (server_from (sample_server 1 ''db'')) = 1"
    by (simp add: server_from_def sample_defs)
  ultimately show ?thesis using sample_store_good list_is_connection [OF sample_store_good, of 1] by blast
qed

text \<open>
  default deny. A target that is not a number, names no server or names one that is not
  assigned to the user is refused, with a reason that distinguishes only these two; when the store
  does not answer, nothing is allowed.
\<close>

theorem resolve_default_deny:
  assumes "store_wf s"
  shows "(\<forall>v. resolve s u t = Ok v \<longrightarrow>
            (\<exists>i. parse_i64 t = Some i \<and> s_id v = i \<and> (u, i) \<in> set (assignments s))) \<and>
    (sql_fault s = (\<lambda>_. None) \<longrightarrow>
       resolve s u t =
         (case parse_i64 t of
            None \<Rightarrow> Err (Denied NoSuchTarget)
          | Some i \<Rightarrow>
              if \<not> server_exists s i then Err (Denied NoSuchTarget)
              else if (u, i) \<notin> set (assignments s) then Err (Denied NotPermitted)
              else Ok (server_from (the (List.find (\<lambda>r. sr_id r = i) (servers s))))))"
proof
  show "\<forall>v. resolve s u t = Ok v \<longrightarrow>
      (\<exists>i. parse_i64 t = Some i \<and> s_id v = i \<and> (u, i) \<in> set (assignments s))"
    by (auto simp: resolve_def server_by_id_def is_assigned_def stmt_def
        split: option.splits if_splits dest!: find_Some_set)
  show "sql_fault s = (\<lambda>_. None) \<longrightarrow> resolve s u t =
         (case parse_i64 t of
            None \<Rightarrow> Err (Denied NoSuchTarget)
          | Some i \<Rightarrow>
              if \<not> server_exists s i then Err (Denied NoSuchTarget)
              else if (u, i) \<notin> set (assignments s) then Err (Denied NotPermitted)
              else Ok (server_from (the (List.find (\<lambda>r. sr_id r = i) (servers s)))))"
    by (auto simp: resolve_def server_by_id_def is_assigned_def server_exists_def find_None_set
        split: option.splits dest: find_Some_set)
qed

theorem resolve_default_deny_witness:
  "store_wf sample_store \<and> resolve sample_store 1 ''x1'' = Err (Denied NoSuchTarget) \<and>
   resolve sample_store 1 ''2'' = Err (Denied NotPermitted) \<and>
   is_ok (resolve sample_store 1 ''1'')"
proof -
  have "parse_i64 ''x1'' = None" "parse_i64 ''2'' = Some 2" "parse_i64 ''1'' = Some 1" by code_simp+
  then show ?thesis
    using sample_store_wf resolve_default_deny [OF sample_store_wf, of 1 "''x1''"]
      resolve_default_deny [OF sample_store_wf, of 1 "''2''"]
      resolve_default_deny [OF sample_store_wf, of 1 "''1''"]
    by (simp add: sample_defs server_exists_def)
qed

text \<open>
  the order of the list. It is a permutation of the assigned servers, ordered by the group's
  position with ungrouped servers after every position below a thousand million, then by the
  group's name and the server's name without regard to case.
\<close>

theorem permitted_ordered:
  assumes "permitted s u = Ok l"
  shows "\<exists>rows. l = map (\<lambda>r. \<lparr> ls_server = server_from r, ls_group_name = map_option gr_name (group_of s r) \<rparr>) rows
    \<and> sorted (map (listed_key s) rows) \<and>
    set rows = {r \<in> set (servers s). (u, sr_id r) \<in> set (assignments s)}"
proof -
  let ?rows = "sort_key (listed_key s) [r. a \<leftarrow> assignments s, fst a = u, r \<leftarrow> servers s, sr_id r = snd a]"
  have "l = map (\<lambda>r. \<lparr> ls_server = server_from r, ls_group_name = map_option gr_name (group_of s r) \<rparr>) ?rows"
    using assms by (auto simp: permitted_def assigned_servers_def stmt_def split: sum.splits option.splits)
  moreover have "set ?rows = {r \<in> set (servers s). (u, sr_id r) \<in> set (assignments s)}"
    unfolding set_sort set_assigned_rows ..
  ultimately show ?thesis using sorted_sort_key by blast
qed

theorem permitted_ordered_witness:
  "\<exists>l rows. permitted sample_store 1 = Ok l \<and>
     l = map (\<lambda>r. \<lparr> ls_server = server_from r, ls_group_name = map_option gr_name (group_of sample_store r) \<rparr>) rows \<and>
     set rows = {r \<in> set (servers sample_store). (1, sr_id r) \<in> set (assignments sample_store)}"
proof -
  obtain l where l: "permitted sample_store 1 = Ok l"
    by (auto simp: permitted_def assigned_servers_def stmt_def sample_defs)
  then show ?thesis using permitted_ordered [OF l] by blast
qed

end
