(* ===== verification/WA_Settings.thy ===== *)
theory WA_Settings
  imports WA_Store_Laws
begin

text \<open>
  The administrator's settings, \<open>src/src/settings.rs\<close>: one JSON value in the database. The JSON
  reader and writer are the \<open>serde_json\<close> library's, so they are arguments (\<open>from_json\<close>, \<open>to_json\<close>);
  what the code relies on, that what was written reads back, is a hypothesis where it is needed.
\<close>

record settings =
  signin_hours :: "32 word"
  renew_below_hours :: "32 word"
  max_file_mb :: "32 word"

definition SETTINGS_KEY :: string where
  "SETTINGS_KEY = ''settings''"

definition MAX_SIGNIN_HOURS :: "32 word" where
  "MAX_SIGNIN_HOURS = 720"

definition default_settings :: settings where
  "default_settings = \<lparr> signin_hours = 24, renew_below_hours = 18, max_file_mb = 0 \<rparr>"

definition settings_check :: "settings \<Rightarrow> string + unit" where
  "settings_check st =
     (if \<not> (1 \<le> signin_hours st \<and> signin_hours st \<le> MAX_SIGNIN_HOURS)
      then Err (''a sign-in lasts 1 to '' @ show_nat (unat MAX_SIGNIN_HOURS) @ '' hours'')
      else if renew_below_hours st \<ge> signin_hours st
      then Err (''ask for the password again under fewer hours than a sign-in lasts ('' @
                show_nat (unat (signin_hours st)) @ '')'')
      else Ok ())"

definition signin_secs :: "settings \<Rightarrow> int" where
  "signin_secs st = uint (signin_hours st) * 3600"

definition renew_below_secs :: "settings \<Rightarrow> int" where
  "renew_below_secs st = uint (renew_below_hours st) * 3600"

definition max_file_bytes :: "settings \<Rightarrow> 64 word option" where
  "max_file_bytes st =
     (if max_file_mb st > 0 then Some (ucast (max_file_mb st) * 1024 * 1024) else None)"

definition settings_describe :: "settings \<Rightarrow> string" where
  "settings_describe st =
     ''sign-in '' @ show_nat (unat (signin_hours st)) @ '' h, ask again under '' @
     show_nat (unat (renew_below_hours st)) @ '' h, files '' @
     (if max_file_mb st = 0 then ''any size''
      else ''up to '' @ show_nat (unat (max_file_mb st)) @ '' MB'')"

definition settings_read ::
  "(bytes \<Rightarrow> settings option) \<Rightarrow> store \<Rightarrow> store_error + settings" where
  "settings_read from_json s =
     (case meta_get s SETTINGS_KEY of
        Err e \<Rightarrow> Err e
      | Ok v \<Rightarrow>
          (case Option.bind v from_json of
             Some st \<Rightarrow> Ok (if is_ok (settings_check st) then st else default_settings)
           | None \<Rightarrow> Ok default_settings))"

definition settings_write ::
  "(settings \<Rightarrow> bytes) \<Rightarrow> store \<Rightarrow> settings \<Rightarrow> store_error + (unit \<times> store)" where
  "settings_write to_json s st = meta_set s SETTINGS_KEY (to_json st)"

section \<open>Properties\<close>

lemma default_settings_ok: "settings_check default_settings = Ok ()"
  by (simp add: settings_check_def default_settings_def MAX_SIGNIN_HOURS_def)

lemma settings_check_Ok:
  "settings_check st = Ok () \<longleftrightarrow>
   1 \<le> signin_hours st \<and> signin_hours st \<le> MAX_SIGNIN_HOURS \<and>
   renew_below_hours st < signin_hours st"
  unfolding settings_check_def not_le [symmetric] by (simp only: split: if_split) auto

text \<open>
  whatever is stored, and however the JSON reader takes it, the settings in force pass the
  check: a sign-in lasts between one hour and thirty days, and the time below which the password
  is asked for again is shorter than the sign-in.
\<close>

theorem settings_read_checked:
  assumes "settings_read from_json s = Ok st"
  shows "settings_check st = Ok () \<and> 3600 \<le> signin_secs st \<and> signin_secs st \<le> 720 * 3600 \<and>
    0 \<le> renew_below_secs st \<and> renew_below_secs st < signin_secs st"
proof -
  have c: "settings_check st = Ok ()"
    using assms default_settings_ok
    by (auto simp: settings_read_def is_ok_iff split: sum.splits option.splits if_splits)
  then have "1 \<le> uint (signin_hours st)" "uint (signin_hours st) \<le> 720"
    "uint (renew_below_hours st) < uint (signin_hours st)"
    by (simp_all add: settings_check_Ok MAX_SIGNIN_HOURS_def word_le_def word_less_def)
  with c show ?thesis by (simp add: signin_secs_def renew_below_secs_def)
qed

theorem settings_read_checked_witness:
  "\<exists>st. settings_read (\<lambda>_. Some \<lparr> signin_hours = 1000, renew_below_hours = 0, max_file_mb = 0 \<rparr>)
       (empty_store\<lparr>meta := [SETTINGS_KEY \<mapsto> []]\<rparr>) = Ok st \<and> settings_check st = Ok ()"
proof -
  obtain st where st: "settings_read (\<lambda>_. Some \<lparr> signin_hours = 1000, renew_below_hours = 0, max_file_mb = 0 \<rparr>)
       (empty_store\<lparr>meta := [SETTINGS_KEY \<mapsto> []]\<rparr>) = Ok st"
    by (auto simp: settings_read_def meta_get_def stmt_def empty_store_def)
  then show ?thesis using settings_read_checked [OF st] by blast
qed

text \<open>
  settings that pass the check and are written are the settings in force, given that the JSON
  library reads back what it wrote; and the file limit they give in bytes never wraps.
\<close>

theorem settings_write_read:
  assumes json_round_trip: "from_json (to_json st) = Some st"
    and "settings_check st = Ok ()" "settings_write to_json s st = Ok (x, t)"
    and "sql_fault s ''meta_get'' = None"
  shows "settings_read from_json t = Ok st \<and>
    (case max_file_bytes st of None \<Rightarrow> max_file_mb st = 0
     | Some n \<Rightarrow> unat n = unat (max_file_mb st) * 1048576 \<and> n > 0)"
proof
  show "settings_read from_json t = Ok st"
    using assms by (auto simp: settings_write_def meta_set_def stmt_Ok settings_read_def meta_get_def
        stmt_def split: option.splits)
  let ?w = "ucast (max_file_mb st) :: 64 word"
  have small: "unat ?w = unat (max_file_mb st)" "unat (max_file_mb st) < 2 ^ 32"
    using unsigned_less [of "max_file_mb st"] by (auto simp: unat_ucast_up)
  have a: "unat (?w * 1024) = unat ?w * 1024"
    using unat_mult_small [of ?w 1024] small by simp
  have b: "unat (?w * 1024 * 1024) = unat ?w * 1048576"
    using unat_mult_small [of "?w * 1024" 1024] small by (simp add: a)
  show "case max_file_bytes st of None \<Rightarrow> max_file_mb st = 0
     | Some n \<Rightarrow> unat n = unat (max_file_mb st) * 1048576 \<and> n > 0"
  proof (cases "max_file_mb st > 0")
    case True
    then have "0 < unat (max_file_mb st)" by (simp add: word_less_nat_alt)
    then have "0 < unat (?w * 1024 * 1024)" unfolding b small by simp
    then have "0 < ?w * 1024 * 1024" by (simp only: word_less_nat_alt unsigned_0)
    with True b small show ?thesis by (simp only: max_file_bytes_def if_True option.case)
  next
    case False
    then show ?thesis by (simp add: max_file_bytes_def word_gt_0)
  qed
qed

theorem settings_write_read_witness:
  "\<exists>t. settings_write (\<lambda>_. [1]) empty_store default_settings = Ok ((), t) \<and>
       settings_read (\<lambda>_. Some default_settings) t = Ok default_settings"
proof -
  obtain t where t: "settings_write (\<lambda>_. [1]) empty_store default_settings = Ok ((), t)"
    by (auto simp: settings_write_def meta_set_def stmt_def empty_store_def)
  have "sql_fault empty_store ''meta_get'' = None" by (simp add: empty_store_def)
  then show ?thesis using t settings_write_read
      [OF _ default_settings_ok t, of "\<lambda>_. Some default_settings"] by simp
qed

end
