(* ===== verification/WA_Auth.thy ===== *)
theory WA_Auth
  imports WA_Prelude
begin

text \<open>
  Cookies, connect tickets and the sign-in throttle, \<open>src/src/auth.rs\<close>. A \<open>HashMap\<close> is a map; the
  monotonic clock and the random token are arguments. SHA-256, of the \<open>ring\<close> library, is the
  argument \<open>sha256\<close> where the code hashes a token.

  A ticket is good for one use; the locale \<open>spend_once\<close> is that contract, interpreted on
  \<open>Tickets\<close>.
\<close>

section \<open>Cookies\<close>

definition TICKET_TTL :: nat where
  "TICKET_TTL = secs 60"

definition COOKIE :: string where
  "COOKIE = ''wa_session''"

definition token_hash :: "(bytes \<Rightarrow> bytes) \<Rightarrow> string \<Rightarrow> bytes" where
  "token_hash sha256 token = sha256 (bytes_of token)"

definition session_cookie :: "string \<Rightarrow> int \<Rightarrow> bool \<Rightarrow> string" where
  "session_cookie token max_age_secs secure =
     COOKIE @ ''='' @ token @ ''; Path=/; Max-Age='' @ show_int max_age_secs @
     ''; HttpOnly; SameSite=Strict'' @ (if secure then ''; Secure'' else [])"

definition clear_cookie :: "bool \<Rightarrow> string" where
  "clear_cookie secure =
     COOKIE @ ''=; Path=/; Max-Age=0; HttpOnly; SameSite=Strict'' @
     (if secure then ''; Secure'' else [])"

definition cookie_value :: "string \<Rightarrow> string \<Rightarrow> string option" where
  "cookie_value header name =
     find_map (\<lambda>p. case split_once CHR ''='' (trim p) of
                     None \<Rightarrow> None
                   | Some (k, v) \<Rightarrow> if k = name \<and> v \<noteq> [] then Some v else None)
       (split_on CHR '';'' header)"

section \<open>Connect tickets\<close>

record ticket =
  t_user_id :: int
  t_server_id :: int

record issued =
  i_ticket :: ticket
  i_minted :: instant

type_synonym tickets = "string \<Rightarrow> issued option"

definition retain :: "('v \<Rightarrow> bool) \<Rightarrow> ('k \<Rightarrow> 'v option) \<Rightarrow> 'k \<Rightarrow> 'v option" where
  "retain P m = (\<lambda>k. case m k of Some v \<Rightarrow> if P v then Some v else None | None \<Rightarrow> None)"

definition issue :: "tickets \<Rightarrow> instant \<Rightarrow> string \<Rightarrow> int \<Rightarrow> int \<Rightarrow> string \<times> tickets" where
  "issue ts now token user_id server_id =
     (token,
      (retain (\<lambda>v. now - i_minted v < TICKET_TTL) ts)
        (token \<mapsto> \<lparr> i_ticket = \<lparr> t_user_id = user_id, t_server_id = server_id \<rparr>, i_minted = now \<rparr>))"

definition redeem_at :: "tickets \<Rightarrow> string \<Rightarrow> instant \<Rightarrow> ticket option \<times> tickets" where
  "redeem_at ts token at =
     (case ts token of
        None \<Rightarrow> (None, ts)
      | Some e \<Rightarrow>
          ((if at - i_minted e < TICKET_TTL then Some (i_ticket e) else None), ts(token := None)))"

definition tickets_clear :: "tickets \<Rightarrow> tickets" where
  "tickets_clear ts = (\<lambda>_. None)"

text \<open>Runs of ticket operations.\<close>

datatype ticket_op =
    Issue instant string int int
  | Redeem instant string
  | ClearTickets

fun ticket_step :: "ticket_op \<Rightarrow> tickets \<Rightarrow> tickets" where
  "ticket_step (Issue now token u v) ts = snd (issue ts now token u v)"
| "ticket_step (Redeem at token) ts = snd (redeem_at ts token at)"
| "ticket_step ClearTickets ts = tickets_clear ts"

definition tickets_after :: "ticket_op list \<Rightarrow> tickets" where
  "tickets_after ops = fold ticket_step ops (\<lambda>_. None)"

section \<open>The throttle\<close>

definition THROTTLE_FAILURES :: nat where
  "THROTTLE_FAILURES = 5"

definition THROTTLE_WINDOW :: nat where
  "THROTTLE_WINDOW = secs (5 * 60)"

record throttle =
  failures :: "string \<Rightarrow> instant list option"
  limit :: nat

definition throttle_new :: "nat \<Rightarrow> throttle" where
  "throttle_new n = \<lparr> failures = (\<lambda>_. None), limit = n \<rparr>"

definition in_window :: "instant \<Rightarrow> instant \<Rightarrow> bool" where
  "in_window at t \<longleftrightarrow> at - t < THROTTLE_WINDOW"

definition blocked_at :: "throttle \<Rightarrow> string \<Rightarrow> instant \<Rightarrow> bool \<times> throttle" where
  "blocked_at th key at =
     (case failures th key of
        None \<Rightarrow> (False, th)
      | Some ts \<Rightarrow>
          (let recent = filter (in_window at) ts
           in (limit th \<noteq> 0 \<and> length recent \<ge> limit th,
               th\<lparr>failures := (failures th)(key \<mapsto> recent)\<rparr>)))"

text \<open>\<open>v.last().is_some_and(...)\<close>\<close>

definition last_in_window :: "instant \<Rightarrow> instant list \<Rightarrow> bool" where
  "last_in_window at v \<longleftrightarrow> v \<noteq> [] \<and> in_window at (last v)"

definition take_at :: "throttle \<Rightarrow> string \<Rightarrow> instant \<Rightarrow> bool \<times> throttle" where
  "take_at th key at =
     (if limit th = 0 then (True, th)
      else
        (let m = retain (last_in_window at) (failures th);
             ts = filter (in_window at) (case m key of Some v \<Rightarrow> v | None \<Rightarrow> [])
         in if length ts \<ge> limit th then (False, th\<lparr>failures := m(key \<mapsto> ts)\<rparr>)
            else (True, th\<lparr>failures := m(key \<mapsto> ts @ [at])\<rparr>)))"

definition refund :: "throttle \<Rightarrow> string \<Rightarrow> throttle" where
  "refund th key =
     (case failures th key of
        None \<Rightarrow> th
      | Some ts \<Rightarrow>
          (let recent = butlast ts
           in th\<lparr>failures := (failures th)(key := (if recent = [] then None else Some recent))\<rparr>))"

definition fail_at :: "throttle \<Rightarrow> string \<Rightarrow> instant \<Rightarrow> throttle" where
  "fail_at th key at =
     (let m = retain (last_in_window at) (failures th)
      in th\<lparr>failures := m(key \<mapsto> (case m key of Some v \<Rightarrow> v | None \<Rightarrow> []) @ [at])\<rparr>)"

definition throttle_clear :: "throttle \<Rightarrow> string \<Rightarrow> throttle" where
  "throttle_clear th key = th\<lparr>failures := (failures th)(key := None)\<rparr>"

text \<open>
  A run of attempts: each is an attempt to take from the budget of a key, a check, or one of the
  operations that end an attempt. The run returns the times at which \<open>key\<close> was let through.
\<close>

datatype throttle_op =
    Take string instant
  | Blocked string instant
  | Refund string
  | Fail string instant
  | Clear string

fun throttle_step :: "throttle_op \<Rightarrow> throttle \<Rightarrow> bool \<times> throttle" where
  "throttle_step (Take k at) th = take_at th k at"
| "throttle_step (Blocked k at) th = blocked_at th k at"
| "throttle_step (Refund k) th = (False, refund th k)"
| "throttle_step (Fail k at) th = (False, fail_at th k at)"
| "throttle_step (Clear k) th = (False, throttle_clear th k)"

fun passes :: "string \<Rightarrow> throttle_op list \<Rightarrow> throttle \<Rightarrow> instant list" where
  "passes key [] th = []"
| "passes key (opn # ops) th =
     (let (b, th') = throttle_step opn th
      in (case opn of Take k at \<Rightarrow> if k = key \<and> b then [at] else [] | _ \<Rightarrow> []) @ passes key ops th')"

text \<open>The time of an operation, and whether it gives \<open>key\<close>'s attempts back.\<close>

fun op_time :: "throttle_op \<Rightarrow> instant option" where
  "op_time (Take k at) = Some at"
| "op_time (Blocked k at) = Some at"
| "op_time (Fail k at) = Some at"
| "op_time _ = None"

fun forgives :: "string \<Rightarrow> throttle_op \<Rightarrow> bool" where
  "forgives key (Refund k) = (k = key)"
| "forgives key (Clear k) = (k = key)"
| "forgives key _ = False"

fun in_time_order :: "instant \<Rightarrow> throttle_op list \<Rightarrow> bool" where
  "in_time_order now [] = True"
| "in_time_order now (opn # ops) =
     (case op_time opn of None \<Rightarrow> in_time_order now ops
                        | Some at \<Rightarrow> now \<le> at \<and> in_time_order at ops)"

text \<open>The header a browser sends for a list of cookies, and cookies it can send.\<close>

fun cookie_header :: "(string \<times> string) list \<Rightarrow> string" where
  "cookie_header [] = []"
| "cookie_header [(k, v)] = k @ ''='' @ v"
| "cookie_header ((k, v) # ps) = k @ ''='' @ v @ ''; '' @ cookie_header ps"

definition cookie_ok :: "string \<times> string \<Rightarrow> bool" where
  "cookie_ok kv \<longleftrightarrow> snd kv \<noteq> [] \<and> CHR ''='' \<notin> set (fst kv) \<and>
     (\<forall>c \<in> set (fst kv) \<union> set (snd kv). c \<noteq> CHR '';'' \<and> \<not> is_ws c)"

text \<open>An operation that issues, spends or clears the ticket with this token.\<close>

fun touches :: "string \<Rightarrow> ticket_op \<Rightarrow> bool" where
  "touches k (Issue _ k' _ _) = (k' = k)"
| "touches k (Redeem _ k') = (k' = k)"
| "touches k ClearTickets = True"

fun issued_by :: "instant \<Rightarrow> ticket_op \<Rightarrow> bool" where
  "issued_by at (Issue now _ _ _) = (now \<le> at)"
| "issued_by at _ = True"

section \<open>Cookies survive the trip\<close>

lemma dropWhile_no_ws: "(\<forall>c \<in> set s. \<not> is_ws c) \<Longrightarrow> dropWhile is_ws s = s"
  by (cases s) auto

lemma trim_no_ws: "(\<forall>c \<in> set s. \<not> is_ws c) \<Longrightarrow> trim s = s"
  by (simp add: trim_def dropWhile_no_ws)

lemma trim_space [simp]: "trim (CHR '' '' # s) = trim s"
  by (simp add: trim_def is_ws_def)

lemma is_ws_eq [simp]: "\<not> is_ws CHR ''=''"
  by (simp add: is_ws_def)

lemma find_map_split_space:
  "find_map (\<lambda>p. f (trim p)) (split_on CHR '';'' (CHR '' '' # r)) =
   find_map (\<lambda>p. f (trim p)) (split_on CHR '';'' r)"
  by (auto split: list.splits)

lemma cookie_value_one:
  assumes "cookie_ok (k, v)"
  shows "(case split_once CHR ''='' (trim (k @ ''='' @ v)) of None \<Rightarrow> None
          | Some (a, b) \<Rightarrow> if a = name \<and> b \<noteq> [] then Some b else None) =
         (if k = name then Some v else None)"
proof -
  have "trim (k @ ''='' @ v) = k @ CHR ''='' # v"
    using assms by (subst trim_no_ws) (auto simp: cookie_ok_def)
  then show ?thesis using assms by (simp add: split_once_append cookie_ok_def)
qed

text \<open>
  from the header a browser sends for a list of cookies, \<open>cookie_value\<close> reads the first one
  with the name asked for, and nothing when there is none.
\<close>

theorem cookie_round_trip:
  assumes "\<forall>p \<in> set ps. cookie_ok p"
  shows "cookie_value (cookie_header ps) name = map_of ps name"
  using assms
proof (induction ps rule: cookie_header.induct)
  case 1
  then show ?case by (simp add: cookie_value_def trim_def)
next
  case (2 k v)
  then have "CHR '';'' \<notin> set (k @ ''='' @ v)" by (auto simp: cookie_ok_def)
  with 2 cookie_value_one [of k v name] show ?case
    by (simp add: cookie_value_def split_on_not_in)
next
  case (3 k v p ps)
  then have "CHR '';'' \<notin> set (k @ ''='' @ v)" by (auto simp: cookie_ok_def)
  then have "split_on CHR '';'' (cookie_header ((k, v) # p # ps)) =
      (k @ ''='' @ v) # split_on CHR '';'' (CHR '' '' # cookie_header (p # ps))"
    using split_on_append [of "CHR '';''" "k @ ''='' @ v"] by simp
  with 3 cookie_value_one [of k v name] find_map_split_space [of "\<lambda>p. case split_once CHR ''='' p of
      None \<Rightarrow> None | Some (k, v) \<Rightarrow> if k = name \<and> v \<noteq> [] then Some v else None"
      "cookie_header (p # ps)"] show ?case
    by (simp add: cookie_value_def del: split_on.simps)
qed

theorem cookie_round_trip_witness:
  "cookie_value (cookie_header [(''theme'', ''dark''), (COOKIE, ''ab12'')]) COOKIE = Some ''ab12''"
proof -
  have "\<forall>p \<in> set [(''theme'', ''dark''), (COOKIE, ''ab12'')]. cookie_ok p" by code_simp
  from cookie_round_trip [OF this, of COOKIE] show ?thesis by (simp add: COOKIE_def)
qed

section \<open>A ticket is good for one use\<close>

locale spend_once =
  fixes held :: "'s \<Rightarrow> 'k \<Rightarrow> 'v option"
    and spend :: "'s \<Rightarrow> 'k \<Rightarrow> 't \<Rightarrow> 'r option \<times> 's"
  assumes spend_gone: "held (snd (spend s k t)) k = None"
    and spend_needs: "held s k = None \<Longrightarrow> fst (spend s k t) = None"
    and spend_frame: "k' \<noteq> k \<Longrightarrow> held (snd (spend s k t)) k' = held s k'"
begin

lemma spend_keeps_gone: "held s k = None \<Longrightarrow> held (snd (spend s k' t)) k = None"
  using spend_gone spend_frame by (cases "k' = k") auto

lemma spends_keep_gone:
  "held s k = None \<Longrightarrow> held (fold (\<lambda>(k', t) s. snd (spend s k' t)) es s) k = None"
  by (induction es arbitrary: s) (auto simp: spend_keeps_gone)

lemma second_spend:
  "fst (spend (fold (\<lambda>(k', t) s. snd (spend s k' t)) es (snd (spend s k t))) k t') = None"
  by (rule spend_needs, rule spends_keep_gone, rule spend_gone)

end

interpretation ticket_use: spend_once "\<lambda>ts. ts" redeem_at
  by unfold_locales (auto simp: redeem_at_def split: option.splits)


lemma tickets_after_snoc: "tickets_after (ops @ [opn]) = ticket_step opn (tickets_after ops)"
  by (simp add: tickets_after_def)

lemma ticket_held_issued:
  "tickets_after ops k = Some e \<Longrightarrow>
   \<exists>pre post. ops = pre @ Issue (i_minted e) k (t_user_id (i_ticket e)) (t_server_id (i_ticket e)) # post \<and>
     (\<forall>opn \<in> set post. \<not> touches k opn)"
proof (induction ops rule: rev_induct)
  case Nil
  then show ?case by (simp add: tickets_after_def)
next
  case (snoc opn ops)
  show ?case
  proof (cases "touches k opn")
    case True
    with snoc.prems show ?thesis
      by (cases opn) (auto simp: tickets_after_snoc issue_def redeem_at_def tickets_clear_def
          split: option.splits, intro exI [of _ ops] exI [of _ "[]"], simp)
  next
    case False
    with snoc.prems have "tickets_after ops k = Some e"
      by (cases opn) (auto simp: tickets_after_snoc issue_def redeem_at_def retain_def
          split: option.splits if_splits)
    from snoc.IH [OF this] obtain pre post where
      "ops = pre @ Issue (i_minted e) k (t_user_id (i_ticket e)) (t_server_id (i_ticket e)) # post"
      "\<forall>opn \<in> set post. \<not> touches k opn" by blast
    with False show ?thesis by (intro exI [of _ pre] exI [of _ "post @ [opn]"]) auto
  qed
qed

lemma ticket_issued_held:
  assumes "\<forall>opn \<in> set post. \<not> touches k opn \<and> issued_by at opn" "at - now < TICKET_TTL"
  shows "tickets_after (pre @ Issue now k u v # post) k =
    Some \<lparr> i_ticket = \<lparr> t_user_id = u, t_server_id = v \<rparr>, i_minted = now \<rparr>"
  using assms(1)
proof (induction post rule: rev_induct)
  case Nil
  then show ?case by (simp add: tickets_after_snoc issue_def)
next
  case (snoc opn post)
  then have IH: "tickets_after (pre @ Issue now k u v # post) k =
    Some \<lparr> i_ticket = \<lparr> t_user_id = u, t_server_id = v \<rparr>, i_minted = now \<rparr>" by simp
  have "tickets_after (pre @ Issue now k u v # post @ [opn]) =
    ticket_step opn (tickets_after (pre @ Issue now k u v # post))"
    using tickets_after_snoc [of "pre @ Issue now k u v # post"] by simp
  with IH snoc.prems assms(2) show ?case
    by (cases opn) (auto simp: issue_def redeem_at_def retain_def split: option.splits)
qed

text \<open>
  a connect ticket is accepted exactly when it was issued for that user and server less than
  sixty seconds before, and since then it has been neither tried nor issued again and the tickets
  have not been cleared.
\<close>

theorem ticket_redeem_iff:
  assumes "\<forall>opn \<in> set ops. issued_by at opn"
  shows "fst (redeem_at (tickets_after ops) k at) = Some tk \<longleftrightarrow>
    (\<exists>pre now post. ops = pre @ Issue now k (t_user_id tk) (t_server_id tk) # post \<and>
       at - now < TICKET_TTL \<and> (\<forall>opn \<in> set post. \<not> touches k opn))"
proof
  assume "fst (redeem_at (tickets_after ops) k at) = Some tk"
  then obtain e where "tickets_after ops k = Some e" "at - i_minted e < TICKET_TTL" "i_ticket e = tk"
    by (auto simp: redeem_at_def split: option.splits if_splits)
  then show "\<exists>pre now post. ops = pre @ Issue now k (t_user_id tk) (t_server_id tk) # post \<and>
       at - now < TICKET_TTL \<and> (\<forall>opn \<in> set post. \<not> touches k opn)"
    using ticket_held_issued by blast
next
  assume "\<exists>pre now post. ops = pre @ Issue now k (t_user_id tk) (t_server_id tk) # post \<and>
       at - now < TICKET_TTL \<and> (\<forall>opn \<in> set post. \<not> touches k opn)"
  then obtain pre now post where o: "ops = pre @ Issue now k (t_user_id tk) (t_server_id tk) # post"
    and ttl: "at - now < TICKET_TTL" and p: "\<forall>opn \<in> set post. \<not> touches k opn" by blast
  have "tickets_after ops k = Some \<lparr> i_ticket = tk, i_minted = now \<rparr>"
    unfolding o using ticket_issued_held [of post k at now] ttl p assms o by simp
  then show "fst (redeem_at (tickets_after ops) k at) = Some tk" using ttl by (simp add: redeem_at_def)
qed

theorem ticket_redeem_iff_witness:
  "fst (redeem_at (tickets_after [Issue 5 ''t'' 1 2, Issue 9 ''u'' 3 4]) ''t'' 10) =
     Some \<lparr> t_user_id = 1, t_server_id = 2 \<rparr>"
proof -
  have "\<forall>opn \<in> set [Issue 5 ''t'' 1 2, Issue 9 ''u'' 3 4]. issued_by 10 opn" by simp
  from ticket_redeem_iff [OF this, of "''t''" "\<lparr> t_user_id = 1, t_server_id = 2 \<rparr>"]
  show ?thesis
    by (rule iffD2) (intro exI [of _ "[]"] exI [of _ 5] exI [of _ "[Issue 9 ''u'' 3 4]"],
        simp add: TICKET_TTL_def secs_def)
qed

section \<open>The throttle lets few attempts through\<close>

text \<open>The times counted against a key.\<close>

definition counted :: "throttle \<Rightarrow> string \<Rightarrow> instant list" where
  "counted th key = (case failures th key of Some v \<Rightarrow> v | None \<Rightarrow> [])"

definition in_span :: "instant \<Rightarrow> instant \<Rightarrow> bool" where
  "in_span x t \<longleftrightarrow> t \<le> x \<and> x - t < THROTTLE_WINDOW"

lemma in_window_mono: "now \<le> at \<Longrightarrow> in_window at t \<Longrightarrow> in_window now t"
  by (auto simp: in_window_def)

lemma filter_window_dropped:
  assumes "sorted v" "\<forall>t \<in> set v. t \<le> at" "\<not> last_in_window at v"
  shows "filter (in_window at) v = []"
proof (cases "v = []")
  case False
  have "t \<le> last v" if "t \<in> set v" for t
    using assms(1) that False by (induction v) (auto split: if_splits)
  then show ?thesis using assms(3) False
    by (auto simp: filter_empty_conv last_in_window_def in_window_def) (meson diff_le_mono2 le_trans not_le)
qed simp

text \<open>
  What the run keeps true of a key: its times are in order and not in the future, every attempt
  let through in the last window is among them, and no window has had more than the limit.
\<close>

definition throttle_inv :: "string \<Rightarrow> throttle \<Rightarrow> instant \<Rightarrow> instant list \<Rightarrow> bool" where
  "throttle_inv key th now g \<longleftrightarrow> 0 < limit th \<and> sorted (counted th key) \<and>
     (\<forall>t \<in> set (counted th key). t \<le> now) \<and>
     mset (filter (in_window now) g) \<subseteq># mset (counted th key) \<and>
     (\<forall>x. length (filter (in_span x) g) \<le> limit th)"

lemma window_subset:
  "throttle_inv key th now g \<Longrightarrow> now \<le> at \<Longrightarrow>
   mset (filter (in_window at) g) \<subseteq># mset (filter (in_window at) (counted th key))"
proof -
  assume i: "throttle_inv key th now g" and le: "now \<le> at"
  have "filter (in_window at) g = filter (in_window at) (filter (in_window now) g)"
    using in_window_mono [OF le] by (auto intro: filter_cong)
  then show ?thesis
    using i by (metis throttle_inv_def mset_filter multiset_filter_mono)
qed

lemma throttle_inv_shrink:
  assumes "throttle_inv key th now g" "now \<le> at" "limit th' = limit th"
    and "counted th' key = counted th key \<or>
         counted th' key = filter (in_window at) (counted th key) \<or>
         counted th' key = [] \<and> \<not> last_in_window at (counted th key)"
  shows "throttle_inv key th' at g"
proof -
  have s: "sorted (counted th key)" "\<forall>t \<in> set (counted th key). t \<le> at"
    using assms(1,2) by (auto simp: throttle_inv_def)
  have w: "mset (filter (in_window at) g) \<subseteq># mset (filter (in_window at) (counted th key))"
    by (rule window_subset [OF assms(1,2)])
  have sub: "mset (filter (in_window at) (counted th key)) \<subseteq># mset (counted th key)"
    by (simp add: mset_filter)
  have "mset (filter (in_window at) g) \<subseteq># mset (counted th' key)"
    using assms(4)
  proof (elim disjE conjE)
    assume "counted th' key = counted th key"
    then show ?thesis using subset_mset.order_trans [OF w sub] by simp
  next
    assume "counted th' key = filter (in_window at) (counted th key)"
    then show ?thesis using w by simp
  next
    assume "counted th' key = []" "\<not> last_in_window at (counted th key)"
    then show ?thesis using w filter_window_dropped [OF s] by (metis)
  qed
  then show ?thesis
    using assms s by (auto simp: throttle_inv_def sorted_filter [where f = "\<lambda>x. x", simplified])
qed

lemma counted_retain:
  "counted (th\<lparr>failures := (retain (last_in_window at) (failures th))(k' \<mapsto> v)\<rparr>) key =
   (if k' = key then v else if last_in_window at (counted th key) then counted th key else [])"
  by (auto simp: counted_def retain_def last_in_window_def split: option.splits)

lemma subset_add_msetI: "A \<subseteq># M \<Longrightarrow> A \<subseteq># add_mset x M"
  by (metis add_mset_add_single mset_subset_eq_add_left subset_mset.order_trans)

lemma throttle_inv_append:
  assumes "throttle_inv key th now g" "now \<le> at" "limit th' = limit th"
    and "counted th' key = v @ [at]" "v = counted th key \<or> v = filter (in_window at) (counted th key) \<or>
         v = [] \<and> \<not> last_in_window at (counted th key)"
  shows "throttle_inv key th' at g"
proof -
  let ?th = "th\<lparr>failures := [key \<mapsto> v]\<rparr>"
  have "throttle_inv key ?th at g"
    using assms by (intro throttle_inv_shrink [OF assms(1,2)]) (auto simp: counted_def)
  then show ?thesis using assms(3,4)
    by (auto simp: throttle_inv_def counted_def sorted_append intro: subset_add_msetI)
qed

lemma throttle_inv_pass:
  assumes "throttle_inv key th now g" "now \<le> at" "limit th' = limit th"
    and "counted th' key = filter (in_window at) (counted th key) @ [at]"
    and "length (filter (in_window at) (counted th key)) < limit th"
  shows "throttle_inv key th' at (g @ [at])"
proof -
  let ?v = "filter (in_window at) (counted th key)"
  have w: "mset (filter (in_window at) g) \<subseteq># mset ?v" by (rule window_subset [OF assms(1,2)])
  have "length (filter (in_span x) (g @ [at])) \<le> limit th" for x
  proof (cases "in_span x at")
    case True
    have "length (filter (in_span x) g) \<le> length (filter (in_window at) g)"
    proof -
      have "in_span x t \<Longrightarrow> in_window at t" for t
        using True by (auto simp: in_span_def in_window_def)
      then have "filter (in_span x) g = filter (in_span x) (filter (in_window at) g)"
        by (auto intro: filter_cong)
      then show ?thesis by (metis length_filter_le)
    qed
    also have "\<dots> \<le> length ?v" using size_mset_mono [OF w] by (simp only: size_mset)
    finally show ?thesis using True assms(5) by simp
  next
    case False
    then show ?thesis using assms(1) by (simp add: throttle_inv_def)
  qed
  moreover have "mset (filter (in_window at) (g @ [at])) \<subseteq># mset (?v @ [at])"
    using w by (simp add: in_window_def THROTTLE_WINDOW_def secs_def)
  moreover have "sorted (?v @ [at])" "\<forall>t \<in> set (?v @ [at]). t \<le> at"
    using assms(1,2) by (auto simp: throttle_inv_def sorted_append
        sorted_filter [where f = "\<lambda>x. x", simplified])
  ultimately show ?thesis using assms(1,3,4) by (simp add: throttle_inv_def)
qed

lemma throttle_inv_step:
  assumes "throttle_inv key th now g" "\<not> forgives key opn"
    and "throttle_step opn th = (b, th')"
    and "at = (case op_time opn of None \<Rightarrow> now | Some t \<Rightarrow> t)" "now \<le> at"
  shows "throttle_inv key th' at
     (g @ (case opn of Take k at \<Rightarrow> if k = key \<and> b then [at] else [] | _ \<Rightarrow> []))"
proof (cases opn)
  case (Take k t)
  have t: "t = at" using assms(4) Take by simp
  have nz: "limit th \<noteq> 0" using assms(1) by (simp add: throttle_inv_def)
  let ?v = "filter (in_window at) (counted th k)"
  have v: "filter (in_window at) (case retain (last_in_window at) (failures th) k of Some v \<Rightarrow> v | None \<Rightarrow> []) =
      (if last_in_window at (counted th k) then ?v else [])"
    by (auto simp: retain_def counted_def last_in_window_def split: option.splits)
  have vk: "k = key \<Longrightarrow> (if last_in_window at (counted th k) then ?v else []) = ?v"
    using filter_window_dropped [of "counted th key" at] assms(1,5)
    by (force simp: throttle_inv_def)
  note d = assms(3) [unfolded Take throttle_step.simps take_at_def t Let_def v, simplified nz]
  show ?thesis
  proof (cases "k = key \<and> b")
    case True
    then show ?thesis using d vk Take t nz
      by (auto simp: counted_retain split: if_splits intro!: throttle_inv_pass [OF assms(1,5)])
  next
    case False
    then show ?thesis using d vk Take t nz
      by (auto simp: counted_retain split: if_splits intro!: throttle_inv_shrink [OF assms(1,5)])
  qed
next
  case (Blocked k t)
  then have b: "blocked_at th k at = (b, th')" using assms(3,4) by simp
  have "throttle_inv key th' at g"
    by (rule throttle_inv_shrink [OF assms(1,5)])
      (use b in \<open>auto simp: blocked_at_def counted_def Let_def split: option.splits if_splits\<close>)
  with Blocked show ?thesis by simp
next
  case (Refund k)
  have "throttle_inv key th' at g"
    by (rule throttle_inv_shrink [OF assms(1,5)])
      (use assms(2,3) Refund in \<open>auto simp: refund_def counted_def Let_def split: option.splits if_splits\<close>)
  with Refund show ?thesis by simp
next
  case (Clear k)
  have "throttle_inv key th' at g"
    by (rule throttle_inv_shrink [OF assms(1,5)])
      (use assms(2,3) Clear in \<open>auto simp: throttle_clear_def counted_def\<close>)
  with Clear show ?thesis by simp
next
  case (Fail k t)
  have t: "t = at" using assms(4) Fail by simp
  have th': "th' = fail_at th k at" using assms(3) Fail t by simp
  have r: "(case retain (last_in_window at) (failures th) k of Some v \<Rightarrow> v | None \<Rightarrow> []) =
      (if last_in_window at (counted th k) then counted th k else [])"
    by (auto simp: retain_def counted_def last_in_window_def split: option.splits)
  have "limit th' = limit th" by (simp add: th' fail_at_def Let_def)
  moreover have "counted th' key = (if k = key then
      (if last_in_window at (counted th k) then counted th k else []) @ [at]
      else if last_in_window at (counted th key) then counted th key else [])"
    by (simp add: th' fail_at_def Let_def counted_retain r)
  ultimately have "throttle_inv key th' at g"
    by (cases "k = key") (auto split: if_splits intro: throttle_inv_append [OF assms(1,5)]
        throttle_inv_shrink [OF assms(1,5)])
  then show ?thesis using Fail by simp
qed

lemma throttle_inv_passes:
  "throttle_inv key th now g \<Longrightarrow> in_time_order now ops \<Longrightarrow> (\<forall>opn \<in> set ops. \<not> forgives key opn) \<Longrightarrow>
   length (filter (in_span x) (g @ passes key ops th)) \<le> limit th"
proof (induction ops arbitrary: th now g)
  case Nil
  then show ?case by (simp add: throttle_inv_def)
next
  case (Cons opn ops)
  obtain b th' where st: "throttle_step opn th = (b, th')" by fastforce
  define at where "at = (case op_time opn of None \<Rightarrow> now | Some t \<Rightarrow> t)"
  have le: "now \<le> at" and ord: "in_time_order at ops"
    using Cons.prems(2) by (auto simp: at_def split: option.splits)
  have inv: "throttle_inv key th' at
      (g @ (case opn of Take k at \<Rightarrow> if k = key \<and> b then [at] else [] | _ \<Rightarrow> []))"
    using throttle_inv_step [OF Cons.prems(1) _ st at_def le] Cons.prems(3) by simp
  have "limit th' = limit th"
    using st by (cases opn) (auto simp: take_at_def blocked_at_def refund_def fail_at_def
        throttle_clear_def Let_def split: if_splits option.splits)
  with Cons.IH [OF inv ord] Cons.prems(3) show ?case by (simp add: st)
qed



end
