(* ===== verification/WA_Live.thy ===== *)
theory WA_Live
  imports WA_Prelude
begin

text \<open>
  The registry of WebSocket connections, \<open>src/src/live.rs\<close>. The \<open>HashMap\<close> is an association list
  with one entry per key; \<open>lv_cancel\<close> says the entry still has the sending end of its cancel
  channel, so a connection has been told to end when its entry has lost it.

  The locale \<open>cancellable\<close> is what the sweeps rely on when they end connections by id.
\<close>

section \<open>Connections\<close>

record live =
  lv_user_id :: int
  lv_token_hash :: bytes
  lv_server_id :: "int option"
  lv_established :: bool
  lv_generation :: "64 word"
  lv_incarnations :: "(int \<times> int) option"
  lv_cancel :: bool

record ended =
  en_user_id :: int
  en_server_id :: "int option"
  en_established :: bool
  en_generation :: "64 word"
  en_incarnations :: "(int \<times> int) option"

record live_sessions =
  inner :: "(64 word \<times> live) list"
  next_live :: "64 word"

definition live_new :: live_sessions where
  "live_new = \<lparr> inner = [], next_live = 0 \<rparr>"

definition live_get :: "live_sessions \<Rightarrow> 64 word \<Rightarrow> live option" where
  "live_get ls i = map_of (inner ls) i"

definition live_update :: "live_sessions \<Rightarrow> 64 word \<Rightarrow> (live \<Rightarrow> live) \<Rightarrow> live_sessions" where
  "live_update ls i f = ls\<lparr>inner := map (\<lambda>(j, l). (j, if j = i then f l else l)) (inner ls)\<rparr>"

definition register ::
  "live_sessions \<Rightarrow> int \<Rightarrow> bytes \<Rightarrow> 64 word \<Rightarrow> 64 word \<times> live_sessions" where
  "register ls user_id token_hash generation =
     (let i = next_live ls;
          l = \<lparr> lv_user_id = user_id, lv_token_hash = token_hash, lv_server_id = None,
                lv_established = False, lv_generation = generation, lv_incarnations = None,
                lv_cancel = True \<rparr>
      in (i, \<lparr> inner = filter (\<lambda>p. fst p \<noteq> i) (inner ls) @ [(i, l)], next_live = i + 1 \<rparr>))"

definition generation_of :: "live_sessions \<Rightarrow> 64 word \<Rightarrow> 64 word option" where
  "generation_of ls i = map_option lv_generation (live_get ls i)"

definition set_server :: "live_sessions \<Rightarrow> 64 word \<Rightarrow> int \<Rightarrow> live_sessions" where
  "set_server ls i server_id = live_update ls i (\<lambda>l. l\<lparr>lv_server_id := Some server_id\<rparr>)"

definition set_incarnations :: "live_sessions \<Rightarrow> 64 word \<Rightarrow> int \<times> int \<Rightarrow> live_sessions" where
  "set_incarnations ls i rows = live_update ls i (\<lambda>l. l\<lparr>lv_incarnations := Some rows\<rparr>)"

definition set_established :: "live_sessions \<Rightarrow> 64 word \<Rightarrow> live_sessions" where
  "set_established ls i = live_update ls i (\<lambda>l. l\<lparr>lv_established := True\<rparr>)"

definition live_remove :: "live_sessions \<Rightarrow> 64 word \<Rightarrow> ended option \<times> live_sessions" where
  "live_remove ls i =
     (map_option (\<lambda>l. \<lparr> en_user_id = lv_user_id l, en_server_id = lv_server_id l,
                        en_established = lv_established l, en_generation = lv_generation l,
                        en_incarnations = lv_incarnations l \<rparr>) (live_get ls i),
      ls\<lparr>inner := filter (\<lambda>p. fst p \<noteq> i) (inner ls)\<rparr>)"

definition end_where :: "live_sessions \<Rightarrow> (live \<Rightarrow> bool) \<Rightarrow> nat \<times> live_sessions" where
  "end_where ls pred =
     (count_where (\<lambda>p. pred (snd p) \<and> lv_cancel (snd p)) (inner ls),
      ls\<lparr>inner := map (\<lambda>(j, l). (j, if pred l then l\<lparr>lv_cancel := False\<rparr> else l)) (inner ls)\<rparr>)"

definition end_user :: "live_sessions \<Rightarrow> int \<Rightarrow> nat \<times> live_sessions" where
  "end_user ls user_id = end_where ls (\<lambda>l. lv_user_id l = user_id)"

definition end_user_server :: "live_sessions \<Rightarrow> int \<Rightarrow> int \<Rightarrow> nat \<times> live_sessions" where
  "end_user_server ls user_id server_id =
     end_where ls (\<lambda>l. lv_user_id l = user_id \<and> lv_server_id l = Some server_id)"

definition end_server :: "live_sessions \<Rightarrow> int \<Rightarrow> nat \<times> live_sessions" where
  "end_server ls server_id = end_where ls (\<lambda>l. lv_server_id l = Some server_id)"

definition end_session :: "live_sessions \<Rightarrow> bytes \<Rightarrow> nat \<times> live_sessions" where
  "end_session ls token_hash = end_where ls (\<lambda>l. lv_token_hash l = token_hash)"

definition end_all :: "live_sessions \<Rightarrow> nat \<times> live_sessions" where
  "end_all ls = end_where ls (\<lambda>_. True)"

definition connections :: "live_sessions \<Rightarrow> (64 word \<times> int \<times> bytes) list" where
  "connections ls = map (\<lambda>(i, l). (i, lv_user_id l, lv_token_hash l)) (inner ls)"

fun end_ids_from :: "nat \<Rightarrow> live_sessions \<Rightarrow> 64 word list \<Rightarrow> nat \<times> live_sessions" where
  "end_ids_from n ls [] = (n, ls)"
| "end_ids_from n ls (i # ids) =
     (case live_get ls i of
        Some l \<Rightarrow>
          if lv_cancel l
          then end_ids_from (n + 1) (live_update ls i (\<lambda>l. l\<lparr>lv_cancel := False\<rparr>)) ids
          else end_ids_from n ls ids
      | None \<Rightarrow> end_ids_from n ls ids)"

definition end_ids :: "live_sessions \<Rightarrow> 64 word list \<Rightarrow> nat \<times> live_sessions" where
  "end_ids ls ids = end_ids_from 0 ls ids"

definition live_user_ids :: "live_sessions \<Rightarrow> int set" where
  "live_user_ids ls = set (map (\<lambda>p. lv_user_id (snd p)) (inner ls))"

definition servers_for :: "live_sessions \<Rightarrow> int \<Rightarrow> int set" where
  "servers_for ls user_id =
     set (List.map_filter (\<lambda>p. lv_server_id (snd p))
       (filter (\<lambda>p. lv_user_id (snd p) = user_id \<and> lv_established (snd p)) (inner ls)))"

definition live_count :: "live_sessions \<Rightarrow> nat" where
  "live_count ls = length (inner ls)"

text \<open>Whether a connection is registered, and whether it has been told to end.\<close>

definition live_present :: "live_sessions \<Rightarrow> 64 word \<Rightarrow> bool" where
  "live_present ls i \<longleftrightarrow> live_get ls i \<noteq> None"

definition live_cancelled :: "live_sessions \<Rightarrow> 64 word \<Rightarrow> bool" where
  "live_cancelled ls i \<longleftrightarrow> (case live_get ls i of None \<Rightarrow> False | Some l \<Rightarrow> \<not> lv_cancel l)"

definition live_wf :: "live_sessions \<Rightarrow> bool" where
  "live_wf ls \<longleftrightarrow> distinct (map fst (inner ls))"

section \<open>Ending connections by id\<close>

locale cancellable =
  fixes present :: "'s \<Rightarrow> 'i \<Rightarrow> bool"
    and cancelled :: "'s \<Rightarrow> 'i \<Rightarrow> bool"
    and cancel :: "'s \<Rightarrow> 'i list \<Rightarrow> nat \<times> 's"
  assumes cancel_present: "present (snd (cancel s is)) i = present s i"
    and cancel_cancelled: "cancelled (snd (cancel s is)) i \<longleftrightarrow> cancelled s i \<or> present s i \<and> i \<in> set is"
    and cancel_count: "fst (cancel s is) = card {i \<in> set is. present s i \<and> \<not> cancelled s i}"
begin

lemma cancel_again: "fst (cancel (snd (cancel s is)) is) = 0"
  by (auto simp: cancel_count cancel_present cancel_cancelled)

lemma cancel_all_listed: "present s i \<Longrightarrow> i \<in> set is \<Longrightarrow> cancelled (snd (cancel s is)) i"
  by (simp add: cancel_cancelled)

lemma cancel_others_kept: "i \<notin> set is \<Longrightarrow> cancelled (snd (cancel s is)) i = cancelled s i"
  by (simp add: cancel_cancelled)

lemma cancel_none: "set is \<inter> {i. present s i} = {} \<Longrightarrow> fst (cancel s is) = 0"
  by (auto simp: cancel_count)

end

lemma map_of_map_key: "map_of (map (\<lambda>(j, l). (j, f j l)) xs) i = map_option (f i) (map_of xs i)"
  by (induction xs) auto

lemma live_get_update [simp]:
  "live_get (live_update ls i f) j = (if j = i then map_option f (live_get ls i) else live_get ls j)"
  using map_of_map_key [of "\<lambda>j l. if j = i then f l else l" "inner ls" j]
  by (auto simp: live_get_def live_update_def option.map_ident)

lemma end_ids_from_present: "live_present (snd (end_ids_from n ls ids)) i = live_present ls i"
  by (induction n ls ids rule: end_ids_from.induct)
    (auto simp: live_present_def split: option.splits if_splits)

lemma end_ids_from_cancelled:
  "live_cancelled (snd (end_ids_from n ls ids)) i \<longleftrightarrow>
     live_cancelled ls i \<or> live_present ls i \<and> i \<in> set ids"
proof (induction n ls ids rule: end_ids_from.induct)
  case (2 n ls j ids)
  then show ?case
    by (cases "live_get ls j") (auto simp: live_present_def live_cancelled_def split: option.splits)
qed simp

lemma end_ids_from_count:
  "fst (end_ids_from n ls ids) = n + card {i \<in> set ids. live_present ls i \<and> \<not> live_cancelled ls i}"
proof (induction n ls ids rule: end_ids_from.induct)
  case (2 n ls j ids)
  let ?open = "\<lambda>ls ids. {i \<in> set ids. live_present ls i \<and> \<not> live_cancelled ls i}"
  show ?case
  proof (cases "live_present ls j \<and> \<not> live_cancelled ls j")
    case True
    then obtain l where l: "live_get ls j = Some l" "lv_cancel l"
      by (auto simp: live_present_def live_cancelled_def)
    let ?ls = "live_update ls j (\<lambda>l. l\<lparr>lv_cancel := False\<rparr>)"
    have "?open ls (j # ids) = insert j (?open ?ls ids)"
      using l by (auto simp: live_present_def live_cancelled_def split: option.splits if_splits)
    moreover have "j \<notin> ?open ?ls ids" using l by (auto simp: live_cancelled_def)
    ultimately have "card (?open ls (j # ids)) = Suc (card (?open ?ls ids))" by simp
    with 2(2) [OF l(1) l(2)] l show ?thesis by simp
  next
    case False
    then have "?open ls (j # ids) = ?open ls ids" by auto
    with False 2 show ?thesis
      by (auto simp: live_present_def live_cancelled_def split: option.splits)
  qed
qed simp

interpretation live_cancel: cancellable live_present live_cancelled end_ids
  by unfold_locales
    (simp_all add: end_ids_def end_ids_from_present end_ids_from_cancelled end_ids_from_count)

text \<open>
  ending connections by id ends every listed connection that is registered, leaves the others
  as they were, removes none, returns how many it newly ended, and has nothing to do a second time.
\<close>

theorem end_ids_exact:
  "(\<forall>i. live_present (snd (end_ids ls ids)) i = live_present ls i \<and>
     (live_cancelled (snd (end_ids ls ids)) i \<longleftrightarrow> live_cancelled ls i \<or> live_present ls i \<and> i \<in> set ids)) \<and>
   fst (end_ids ls ids) = card {i \<in> set ids. live_present ls i \<and> \<not> live_cancelled ls i} \<and>
   fst (end_ids (snd (end_ids ls ids)) ids) = 0"
  using live_cancel.cancel_present live_cancel.cancel_cancelled live_cancel.cancel_count
    live_cancel.cancel_again by blast

section \<open>Ending connections by what they are\<close>

lemma live_get_end_where:
  "live_get (snd (end_where ls P)) i =
   map_option (\<lambda>l. if P l then l\<lparr>lv_cancel := False\<rparr> else l) (live_get ls i)"
  using map_of_map_key [of "\<lambda>_ l. if P l then l\<lparr>lv_cancel := False\<rparr> else l" "inner ls" i]
  by (simp add: live_get_def end_where_def)

lemma cancelled_end_where:
  "live_cancelled (snd (end_where ls P)) i \<longleftrightarrow>
   live_cancelled ls i \<or> (\<exists>l. live_get ls i = Some l \<and> P l)"
  by (auto simp: live_cancelled_def live_get_end_where split: option.splits)

lemma end_where_again:
  "(\<And>l. P (l\<lparr>lv_cancel := False\<rparr>) = P l) \<Longrightarrow> fst (end_where (snd (end_where ls P)) P) = 0"
  by (auto simp: end_where_def split: if_splits)

lemma end_where_count:
  "live_wf ls \<Longrightarrow> fst (end_where ls P) = card {i. \<exists>l. live_get ls i = Some l \<and> P l \<and> lv_cancel l}"
proof -
  assume w: "live_wf ls"
  let ?xs = "filter (\<lambda>p. P (snd p) \<and> lv_cancel (snd p)) (inner ls)"
  have "distinct (map fst ?xs)" using w by (simp add: live_wf_def distinct_map_filter)
  then have "length ?xs = card (fst ` set ?xs)" 
    using distinct_card [of "map fst ?xs"] by (simp only: length_map set_map)
  moreover have "fst ` set ?xs = {i. \<exists>l. live_get ls i = Some l \<and> P l \<and> lv_cancel l}"
    using w by (force simp: live_wf_def live_get_def)
  ultimately show ?thesis by (simp add: end_where_def count_where_def)
qed

text \<open>
  sign-out, revocation, removal of an assignment, deletion of a server and an import each end
  exactly the connections they are about, those still setting up included, and count the ones not
  already ended.
\<close>

theorem end_functions_exact:
  assumes "live_wf ls" "live_get ls i = Some l"
  shows "(live_cancelled (snd (end_user ls u)) i \<longleftrightarrow> live_cancelled ls i \<or> lv_user_id l = u) \<and>
    (live_cancelled (snd (end_user_server ls u v)) i \<longleftrightarrow>
       live_cancelled ls i \<or> lv_user_id l = u \<and> lv_server_id l = Some v) \<and>
    (live_cancelled (snd (end_server ls v)) i \<longleftrightarrow> live_cancelled ls i \<or> lv_server_id l = Some v) \<and>
    (live_cancelled (snd (end_session ls h)) i \<longleftrightarrow> live_cancelled ls i \<or> lv_token_hash l = h) \<and>
    live_cancelled (snd (end_all ls)) i \<and>
    fst (end_user ls u) = card {i. \<exists>l. live_get ls i = Some l \<and> lv_user_id l = u \<and> lv_cancel l} \<and>
    fst (end_user (snd (end_user ls u)) u) = 0 \<and> fst (end_all (snd (end_all ls))) = 0"
  using assms
  by (simp add: end_user_def end_user_server_def end_server_def end_session_def end_all_def
      cancelled_end_where end_where_count end_where_again)

definition sample_live :: live_sessions where
  "sample_live = snd (register (snd (register live_new 1 [7] 0)) 2 [8] 0)"

theorem end_functions_exact_witness:
  "live_wf sample_live \<and> live_get sample_live 0 \<noteq> None \<and>
   live_cancelled (snd (end_user sample_live 1)) 0 \<and> \<not> live_cancelled (snd (end_user sample_live 2)) 0"
proof -
  have w: "live_wf sample_live" and g: "live_get sample_live 0 = Some \<lparr> lv_user_id = 1, lv_token_hash = [7],
      lv_server_id = None, lv_established = False, lv_generation = 0, lv_incarnations = None,
      lv_cancel = True \<rparr>"
    by (simp_all add: sample_live_def register_def live_new_def live_wf_def live_get_def Let_def)
  then show ?thesis
    using end_functions_exact [OF w g, of 1] end_functions_exact [OF w g, of 2]
    by (simp add: live_cancelled_def)
qed

section \<open>Registration\<close>

text \<open>Before the counter comes round, which takes as many registrations as there are \<open>u64\<close> values.\<close>

definition live_fresh :: "live_sessions \<Rightarrow> bool" where
  "live_fresh ls \<longleftrightarrow> live_wf ls \<and> (\<forall>p \<in> set (inner ls). fst p < next_live ls)"

lemma live_fresh_new: "live_fresh live_new"
  by (simp add: live_fresh_def live_wf_def live_new_def)

lemma live_fresh_update: "live_fresh (live_update ls i f) = live_fresh ls"
  by (auto simp: live_fresh_def live_wf_def live_update_def comp_def case_prod_unfold)

lemma live_fresh_remove: "live_fresh ls \<Longrightarrow> live_fresh (snd (live_remove ls i))"
  by (auto simp: live_fresh_def live_wf_def live_remove_def distinct_map_filter)

text \<open>
  registering a connection gives it an id no registered connection has, starts it open and
  not established, and changes no other entry.
\<close>

theorem register_fresh:
  assumes "live_fresh ls" "next_live ls \<noteq> - 1" "register ls u h g = (i, ls')"
  shows "\<not> live_present ls i \<and> live_fresh ls' \<and> live_present ls' i \<and> \<not> live_cancelled ls' i \<and>
    servers_for ls' u = servers_for ls u \<and> (\<forall>j. j \<noteq> i \<longrightarrow> live_get ls' j = live_get ls j)"
proof -
  have i: "i = next_live ls" and inn: "inner ls' = filter (\<lambda>p. fst p \<noteq> i) (inner ls) @
      [(i, \<lparr> lv_user_id = u, lv_token_hash = h, lv_server_id = None, lv_established = False,
             lv_generation = g, lv_incarnations = None, lv_cancel = True \<rparr>)]"
    and n: "next_live ls' = i + 1"
    using assms(3) by (auto simp: register_def Let_def)
  have old: "\<forall>p \<in> set (inner ls). fst p < i" using assms(1) by (simp add: live_fresh_def i)
  then have nochange: "filter (\<lambda>p. fst p \<noteq> i) (inner ls) = inner ls" by (auto simp: filter_id_conv)
  have gone: "map_of (inner ls) i = None" using old by (auto simp: map_of_eq_None_iff)
  have "i < i + 1" using assms(2) by (simp add: i word_less_plus_1)
  then have "\<forall>p \<in> set (inner ls'). fst p < next_live ls'"
    using old by (auto simp: inn n nochange)
  moreover have "live_wf ls'" using assms(1) old by (auto simp: live_fresh_def live_wf_def inn nochange)
  moreover have "live_get ls' j = (if j = i then Some (snd (last (inner ls'))) else live_get ls j)" for j
    using gone by (simp add: live_get_def inn nochange map_add_def split: option.splits)
  ultimately show ?thesis
    using gone by (auto simp: live_fresh_def live_present_def live_cancelled_def live_get_def inn
        servers_for_def nochange List.map_filter_def)
qed

theorem register_fresh_witness:
  "live_fresh live_new \<and> next_live live_new \<noteq> - 1 \<and>
   (\<exists>i ls'. register live_new 1 [7] 0 = (i, ls') \<and> \<not> live_present live_new i \<and> live_present ls' i)"
proof -
  obtain i ls' where r: "register live_new 1 [7] 0 = (i, ls')" by fastforce
  have n: "next_live live_new \<noteq> - 1" by (simp add: live_new_def)
  show ?thesis using live_fresh_new n r register_fresh [OF live_fresh_new n r] by blast
qed

end
