(* ===== verification/WA_Framing.thy ===== *)
theory WA_Framing
  imports WA_Prelude
begin

unbundle bit_operations_syntax

text \<open>
  Cutting one direction of the relayed stream into whole units, \<open>src/src/scan/framing.rs\<close>, with
  the size of an RDP PDU as \<open>find_size\<close> of \<open>src/vendor/ironrdp-pdu\<close> reads it from its first bytes.
  An error value says what was wrong; the text built from it is not modelled.
\<close>

section \<open>The size of a PDU\<close>

datatype action = FastPathAction | X224Action

datatype find_error =
    UnknownAction byte
  | TpktVersion byte
  | TpktTooSmall
  | FastPathTooSmall

definition from_fp_output_header :: "byte \<Rightarrow> find_error + action" where
  "from_fp_output_header b =
     (let bits = b AND 3
      in if bits = 0 then Ok FastPathAction
         else if bits = 3 then Ok X224Action
         else Err (UnknownAction bits))"

definition be16 :: "byte \<Rightarrow> byte \<Rightarrow> nat" where
  "be16 a b = unat a * 256 + unat b"

text \<open>\<open>TpktHeader::read\<close>, on at least four bytes.\<close>

definition tpkt_length :: "bytes \<Rightarrow> find_error + nat" where
  "tpkt_length bs =
     (if bs ! 0 \<noteq> 3 then Err (TpktVersion (bs ! 0))
      else if be16 (bs ! 2) (bs ! 3) < 7 then Err TpktTooSmall
      else Ok (be16 (bs ! 2) (bs ! 3)))"

definition find_size :: "bytes \<Rightarrow> find_error + (action \<times> nat) option" where
  "find_size bs =
     (if length bs < 1 then Ok None
      else case from_fp_output_header (bs ! 0) of
        Err e \<Rightarrow> Err e
      | Ok X224Action \<Rightarrow>
          (if length bs < 4 then Ok None
           else case tpkt_length bs of Err e \<Rightarrow> Err e | Ok n \<Rightarrow> Ok (Some (X224Action, n)))
      | Ok FastPathAction \<Rightarrow>
          (if length bs < 2 then Ok None
           else if bs ! 1 AND 0x80 \<noteq> 0
           then (if length bs < 3 then Ok None
                 else let n = be16 (bs ! 1 AND 0x7F) (bs ! 2)
                      in if n < 3 then Err FastPathTooSmall else Ok (Some (FastPathAction, n)))
           else let n = unat (bs ! 1)
                in if n < 2 then Err FastPathTooSmall else Ok (Some (FastPathAction, n))))"

section \<open>Units\<close>

definition MAX_UNIT :: nat where
  "MAX_UNIT = 2 ^ 20"

datatype rdp_unit = Opaque bytes | Tpkt bytes | FastPath bytes

fun unit_bytes :: "rdp_unit \<Rightarrow> bytes" where
  "unit_bytes (Opaque b) = b"
| "unit_bytes (Tpkt b) = b"
| "unit_bytes (FastPath b) = b"

datatype frame_error =
    BadHeader find_error
  | BeforeSequence byte
  | UnitLength nat
  | DerOctets nat

record framer =
  buf :: bytes
  from_server :: bool
  hybrid_ex :: bool
  mcs :: bool
  euar_seen :: bool

definition framer_new :: "bool \<Rightarrow> bool \<Rightarrow> framer" where
  "framer_new server hybrid = \<lparr> buf = [], from_server = server, hybrid_ex = hybrid, mcs = False,
                               euar_seen = False \<rparr>"

text \<open>The length octets of a DER value: \<open>fold(0, |acc, b| (acc << 8) | b)\<close>.\<close>

definition be_nat :: "bytes \<Rightarrow> nat" where
  "be_nat octets = foldl (\<lambda>acc b. acc * 256 + unat b) 0 octets"

definition der_length :: "bytes \<Rightarrow> frame_error + nat option" where
  "der_length bs =
     (if length bs < 2 then Ok None
      else if bs ! 1 < 0x80 then Ok (Some (2 + unat (bs ! 1)))
      else let n = unat (bs ! 1 AND 0x7F)
           in if n = 0 \<or> n > 4 then Err (DerOctets n)
              else if length bs < 2 + n then Ok None
              else Ok (Some (2 + n + be_nat (take n (drop 2 bs)))))"

text \<open>The length and kind of the unit the buffer starts with, once its header is in.\<close>

definition expects_euar :: "framer \<Rightarrow> bool" where
  "expects_euar f \<longleftrightarrow> \<not> mcs f \<and> from_server f \<and> hybrid_ex f \<and> \<not> euar_seen f"

definition unit_header :: "framer \<Rightarrow> frame_error + (nat \<times> (bytes \<Rightarrow> rdp_unit)) option" where
  "unit_header f =
     (let first = buf f ! 0
      in if \<not> mcs f \<and> first = 0x30
         then (case der_length (buf f) of
                 Err e \<Rightarrow> Err e
               | Ok None \<Rightarrow> Ok None
               | Ok (Some n) \<Rightarrow> Ok (Some (n, Opaque)))
         else if expects_euar f \<and> first \<noteq> 0x03 then Ok (Some (4, Opaque))
         else (case find_size (buf f) of
                 Err e \<Rightarrow> Err (BadHeader e)
               | Ok None \<Rightarrow> Ok None
               | Ok (Some (X224Action, n)) \<Rightarrow> Ok (Some (n, Tpkt))
               | Ok (Some (FastPathAction, n)) \<Rightarrow>
                   if mcs f then Ok (Some (n, FastPath)) else Err (BeforeSequence first)))"

definition next_unit :: "framer \<Rightarrow> frame_error + (rdp_unit \<times> framer) option" where
  "next_unit f =
     (case buf f of
        [] \<Rightarrow> Ok None
      | first # _ \<Rightarrow>
          (case unit_header f of
             Err e \<Rightarrow> Err e
           | Ok None \<Rightarrow> Ok None
           | Ok (Some (len, kind)) \<Rightarrow>
               (if len = 0 \<or> len > MAX_UNIT then Err (UnitLength len)
                else if length (buf f) < len then Ok None
                else
                  (let u = kind (take len (buf f));
                       g = f\<lparr>buf := drop len (buf f)\<rparr>
                   in Ok (Some (u,
                        (case u of
                           Tpkt _ \<Rightarrow> g\<lparr>mcs := True\<rparr>
                         | Opaque _ \<Rightarrow> if expects_euar f \<and> first \<noteq> 0x30
                                       then g\<lparr>euar_seen := True\<rparr> else g
                         | FastPath _ \<Rightarrow> g)))))))"

lemma next_unit_shrinks:
  "next_unit f = Ok (Some (u, g)) \<Longrightarrow> length (buf g) < length (buf f)"
  by (auto simp: next_unit_def Let_def split: list.splits sum.splits option.splits prod.splits
      if_splits rdp_unit.splits)

text \<open>The loop of \<open>push\<close>: units while there are whole ones.\<close>

function drain :: "framer \<Rightarrow> frame_error + (rdp_unit list \<times> framer)" where
  "drain f =
     (case next_unit f of
        Err e \<Rightarrow> Err e
      | Ok None \<Rightarrow> Ok ([], f)
      | Ok (Some (u, g)) \<Rightarrow>
          (case drain g of Err e \<Rightarrow> Err e | Ok (us, h) \<Rightarrow> Ok (u # us, h)))"
  by pat_completeness auto
termination
  by (relation "measure (\<lambda>f. length (buf f))") (auto simp: next_unit_shrinks)

declare drain.simps [simp del]

definition push :: "framer \<Rightarrow> bytes \<Rightarrow> frame_error + (rdp_unit list \<times> framer)" where
  "push f bs = drain (f\<lparr>buf := buf f @ bs\<rparr>)"

text \<open>The stream as it arrives, in pieces.\<close>

fun push_all :: "framer \<Rightarrow> bytes list \<Rightarrow> frame_error + (rdp_unit list \<times> framer)" where
  "push_all f [] = Ok ([], f)"
| "push_all f (p # ps) =
     (case push f p of
        Err e \<Rightarrow> Err e
      | Ok (us, g) \<Rightarrow> (case push_all g ps of Err e \<Rightarrow> Err e | Ok (vs, h) \<Rightarrow> Ok (us @ vs, h)))"

section \<open>Nothing is lost\<close>

lemma unit_header_kind: "unit_header f = Ok (Some (n, k)) \<Longrightarrow> unit_bytes (k x) = x"
  by (auto simp: unit_header_def Let_def split: if_splits sum.splits option.splits prod.splits
      action.splits)

lemma next_unit_Some:
  assumes "next_unit f = Ok (Some (u, g))"
  obtains len k where "unit_header f = Ok (Some (len, k))" "0 < len" "len \<le> MAX_UNIT"
    "len \<le> length (buf f)" "u = k (take len (buf f))" "buf g = drop len (buf f)"
  using assms
  by (auto simp: next_unit_def Let_def not_less split: list.splits sum.splits option.splits prod.splits
      if_splits rdp_unit.splits)

lemma next_unit_bytes:
  "next_unit f = Ok (Some (u, g)) \<Longrightarrow> unit_bytes u @ buf g = buf f \<and> 0 < length (unit_bytes u) \<and>
   length (unit_bytes u) \<le> MAX_UNIT"
  by (erule next_unit_Some) (auto simp: unit_header_kind)

lemma drain_bytes:
  "drain f = Ok (us, g) \<Longrightarrow> concat (map unit_bytes us) @ buf g = buf f \<and>
   (\<forall>u \<in> set us. 0 < length (unit_bytes u) \<and> length (unit_bytes u) \<le> MAX_UNIT) \<and> next_unit g = Ok None"
proof (induction f arbitrary: us rule: drain.induct)
  case (1 f)
  show ?case
  proof (cases "next_unit f")
    case (Inl e)
    with "1.prems" show ?thesis by (simp add: drain.simps)
  next
    case (Inr r)
    show ?thesis
    proof (cases r)
      case None
      with Inr "1.prems" show ?thesis by (auto simp: drain.simps [of f])
    next
      case (Some p)
      obtain u h where p: "p = (u, h)" by fastforce
      from "1.prems" Inr Some p obtain vs where "drain h = Ok (vs, g)" "us = u # vs"
        by (auto simp: drain.simps [of f] split: sum.splits)
      with "1.IH" [OF Inr Some p [symmetric]] next_unit_bytes [of f u h] Inr Some p show ?thesis by auto
    qed
  qed
qed

lemma der_length_small: "der_length bs = Ok None \<Longrightarrow> length bs < MAX_UNIT"
  by (auto simp: der_length_def Let_def MAX_UNIT_def split: if_splits)

lemma find_size_small: "find_size bs = Ok None \<Longrightarrow> length bs < MAX_UNIT"
  by (auto simp: find_size_def Let_def MAX_UNIT_def split: if_splits sum.splits action.splits)

lemma next_unit_None_small: "next_unit f = Ok None \<Longrightarrow> length (buf f) < MAX_UNIT"
  by (auto simp: next_unit_def unit_header_def Let_def MAX_UNIT_def split: list.splits sum.splits
      option.splits prod.splits if_splits action.splits
      dest: der_length_small [unfolded MAX_UNIT_def] find_size_small [unfolded MAX_UNIT_def])

text \<open>
  the framer loses nothing, adds nothing and reorders nothing: the units it returns and what
  it keeps are exactly the bytes it was given. A unit is never empty and never over a megabyte,
  and what is kept is less than one unit of that size.
\<close>

theorem push_lossless:
  assumes "push f bs = Ok (us, g)"
  shows "concat (map unit_bytes us) @ buf g = buf f @ bs \<and>
    (\<forall>u \<in> set us. 0 < length (unit_bytes u) \<and> length (unit_bytes u) \<le> MAX_UNIT) \<and>
    length (buf g) < MAX_UNIT"
  using drain_bytes [OF assms [unfolded push_def]] next_unit_None_small by auto

theorem push_lossless_witness:
  "\<exists>us g. push (framer_new False False) [3, 0, 0, 8, 1, 2, 3, 4, 3, 0] = Ok (us, g) \<and>
     concat (map unit_bytes us) @ buf g = [3, 0, 0, 8, 1, 2, 3, 4, 3, 0]"
proof -
  have "is_ok (push (framer_new False False) [3, 0, 0, 8, 1, 2, 3, 4, 3, 0])" by code_simp
  then obtain us g where p: "push (framer_new False False) [3, 0, 0, 8, 1, 2, 3, 4, 3, 0] = Ok (us, g)"
    by (metis is_ok_iff surj_pair)
  then show ?thesis using push_lossless [OF p] by (auto simp: framer_new_def)
qed

section \<open>How the stream is cut into pieces does not matter\<close>

lemma find_size_append: "find_size bs \<noteq> Ok None \<Longrightarrow> find_size (bs @ cs) = find_size bs"
  by (auto simp: find_size_def tpkt_length_def nth_append Let_def
      split: if_splits sum.splits action.splits)

lemma der_length_append: "der_length bs \<noteq> Ok None \<Longrightarrow> der_length (bs @ cs) = der_length bs"
  by (auto simp: der_length_def nth_append Let_def split: if_splits)

lemma expects_euar_buf [simp]: "expects_euar (f\<lparr>buf := b\<rparr>) = expects_euar f"
  by (simp add: expects_euar_def)

lemma unit_header_append:
  assumes "buf f \<noteq> []" "unit_header f \<noteq> Ok None"
  shows "unit_header (f\<lparr>buf := buf f @ cs\<rparr>) = unit_header f"
proof -
  have n: "(buf f @ cs) ! 0 = buf f ! 0" using assms(1) by (simp add: nth_append)
  show ?thesis
    using assms(2) find_size_append [of "buf f" cs] der_length_append [of "buf f" cs]
    by (auto simp: unit_header_def n Let_def split: if_splits option.splits sum.splits)
qed

text \<open>\<open>next_unit\<close> on a buffer that is not empty, by the length and kind of its first unit.\<close>

definition cut_unit :: "framer \<Rightarrow> nat \<Rightarrow> (bytes \<Rightarrow> rdp_unit) \<Rightarrow> rdp_unit \<times> framer" where
  "cut_unit f len k =
     (let u = k (take len (buf f)); g = f\<lparr>buf := drop len (buf f)\<rparr>
      in (u, (case u of
                Tpkt _ \<Rightarrow> g\<lparr>mcs := True\<rparr>
              | Opaque _ \<Rightarrow> if expects_euar f \<and> buf f ! 0 \<noteq> 0x30 then g\<lparr>euar_seen := True\<rparr> else g
              | FastPath _ \<Rightarrow> g)))"

lemma next_unit_alt:
  "buf f \<noteq> [] \<Longrightarrow> next_unit f =
     (case unit_header f of
        Err e \<Rightarrow> Err e
      | Ok None \<Rightarrow> Ok None
      | Ok (Some (len, k)) \<Rightarrow>
          if len = 0 \<or> len > MAX_UNIT then Err (UnitLength len)
          else if length (buf f) < len then Ok None else Ok (Some (cut_unit f len k)))"
  by (cases "buf f") (auto simp: next_unit_def cut_unit_def Let_def split: sum.split option.split)

lemma cut_append:
  assumes "buf f \<noteq> []" "len \<le> length (buf f)"
  shows "cut_unit (f\<lparr>buf := buf f @ cs\<rparr>) len k = (\<lambda>(u, g). (u, g\<lparr>buf := buf g @ cs\<rparr>)) (cut_unit f len k)"
proof -
  have "take len (buf f @ cs) = take len (buf f)" "drop len (buf f @ cs) = drop len (buf f) @ cs"
    "(buf f @ cs) ! 0 = buf f ! 0"
    using assms by (simp_all add: nth_append)
  then show ?thesis
    by (cases "k (take len (buf f))") (simp_all add: cut_unit_def Let_def del: take_append drop_append)
qed

lemma next_unit_append:
  assumes "next_unit f \<noteq> Ok None"
  shows "next_unit (f\<lparr>buf := buf f @ cs\<rparr>) =
    map_sum id (map_option (\<lambda>(u, g). (u, g\<lparr>buf := buf g @ cs\<rparr>))) (next_unit f)"
proof -
  have b: "buf f \<noteq> []" using assms by (auto simp: next_unit_def)
  have h: "unit_header f \<noteq> Ok None" using assms by (auto simp: next_unit_alt [OF b])
  note uh = unit_header_append [OF b h, of cs]
  have b': "buf (f\<lparr>buf := buf f @ cs\<rparr>) \<noteq> []" using b by simp
  show ?thesis
  proof (cases "unit_header f")
    case (Inl e)
    then show ?thesis by (simp add: next_unit_alt [OF b] next_unit_alt [OF b'] uh)
  next
    case (Inr r)
    then obtain len k where r: "unit_header f = Ok (Some (len, k))" using h by (cases r) auto
    show ?thesis
    proof (cases "len = 0 \<or> len > MAX_UNIT")
      case True
      then show ?thesis by (simp add: next_unit_alt [OF b] next_unit_alt [OF b'] uh r)
    next
      case False
      then have "len \<le> length (buf f)"
        using assms r by (auto simp: next_unit_alt [OF b] not_less split: if_splits)
      then show ?thesis
        using False cut_append [OF b, of len cs k]
        by (simp add: next_unit_alt [OF b] next_unit_alt [OF b'] uh r)
    qed
  qed
qed

lemma drain_append:
  "drain (f\<lparr>buf := buf f @ cs\<rparr>) =
     (case drain f of
        Err e \<Rightarrow> Err e
      | Ok (us, g) \<Rightarrow>
          (case drain (g\<lparr>buf := buf g @ cs\<rparr>) of Err e \<Rightarrow> Err e | Ok (vs, h) \<Rightarrow> Ok (us @ vs, h)))"
proof (induction f rule: drain.induct)
  case (1 f)
  show ?case
  proof (cases "next_unit f")
    case (Inl e)
    with next_unit_append [of f cs] show ?thesis
      by (simp add: drain.simps [of f] drain.simps [of "f\<lparr>buf := buf f @ cs\<rparr>"])
  next
    case (Inr r)
    show ?thesis
    proof (cases r)
      case None
      with Inr show ?thesis by (simp add: drain.simps [of f] split: sum.splits)
    next
      case (Some p)
      obtain u g where p: "p = (u, g)" by fastforce
      note n = Inr [unfolded Some p]
      show ?thesis
        using "1.IH" [OF Inr Some p [symmetric]] next_unit_append [of f cs] n
        by (simp add: drain.simps [of f] drain.simps [of "f\<lparr>buf := buf f @ cs\<rparr>"] split: sum.splits)
    qed
  qed
qed

lemma push_append:
  "push f (a @ b) =
     (case push f a of
        Err e \<Rightarrow> Err e
      | Ok (us, g) \<Rightarrow> (case push g b of Err e \<Rightarrow> Err e | Ok (vs, h) \<Rightarrow> Ok (us @ vs, h)))"
  unfolding push_def using drain_append [of "f\<lparr>buf := buf f @ a\<rparr>" b] by simp

lemma push_all_concat: "ps \<noteq> [] \<Longrightarrow> push_all f ps = push f (concat ps)"
proof (induction ps arbitrary: f)
  case (Cons p ps)
  then show ?case
    by (cases "ps = []") (auto simp: push_append split: sum.splits)
qed simp

text \<open>
  framing does not depend on how the network cut the stream. Reading it in any pieces gives
  the same units, the same error at the same place, and the same state as reading it in one.
\<close>

theorem push_fragmentation:
  "push_all (framer_new server hybrid) ps = push (framer_new server hybrid) (concat ps)"
proof (cases "ps = []")
  case True
  then show ?thesis by (simp add: push_def framer_new_def drain.simps next_unit_def)
qed (rule push_all_concat)

section \<open>Fast-path only after the connection sequence\<close>

fun is_fast :: "rdp_unit \<Rightarrow> bool" where
  "is_fast (FastPath _) = True" | "is_fast _ = False"

fun is_tpkt :: "rdp_unit \<Rightarrow> bool" where
  "is_tpkt (Tpkt _) = True" | "is_tpkt _ = False"

lemma next_unit_mcs:
  "next_unit f = Ok (Some (u, g)) \<Longrightarrow> (is_fast u \<longrightarrow> mcs f) \<and> mcs g = (mcs f \<or> is_tpkt u)"
  by (auto simp: next_unit_def unit_header_def Let_def split: list.splits sum.splits option.splits
      prod.splits if_splits rdp_unit.splits action.splits)

lemma drain_fast:
  "drain f = Ok (us, g) \<Longrightarrow> us = as @ u # bs \<Longrightarrow> is_fast u \<Longrightarrow> mcs f \<or> (\<exists>t \<in> set as. is_tpkt t)"
proof (induction f arbitrary: us as rule: drain.induct)
  case (1 f)
  then obtain v h vs where n: "next_unit f = Ok (Some (v, h))" and d: "drain h = Ok (vs, g)"
    and us: "us = v # vs"
    by (auto simp: drain.simps [of f] split: sum.splits option.splits)
  show ?case
  proof (cases as)
    case Nil
    with us "1.prems" next_unit_mcs [OF n] show ?thesis by simp
  next
    case (Cons a as')
    with us "1.prems" have "a = v" "vs = as' @ u # bs" by auto
    with "1.IH" [OF n refl refl d _ "1.prems"(3)] next_unit_mcs [OF n] Cons show ?thesis by auto
  qed
qed

text \<open>
  no fast-path unit is let through before the slow-path connection sequence has begun: in
  every output, a fast-path unit comes after a TPKT unit.
\<close>

theorem fast_path_after_tpkt:
  assumes "push (framer_new server hybrid) bs = Ok (as @ u # cs, g)" "is_fast u"
  shows "\<exists>t \<in> set as. is_tpkt t"
  using drain_fast [OF assms(1) [unfolded push_def] refl assms(2)] by (simp add: framer_new_def)

theorem fast_path_after_tpkt_witness:
  "\<exists>g. push (framer_new False False) [3, 0, 0, 8, 1, 2, 3, 4, 0, 2] =
       Ok ([Tpkt [3, 0, 0, 8, 1, 2, 3, 4]] @ FastPath [0, 2] # [], g) \<and>
     (\<exists>t \<in> set [Tpkt [3, 0, 0, 8, 1, 2, 3, 4]]. is_tpkt t)"
proof -
  let ?r = "push (framer_new False False) [3, 0, 0, 8, 1, 2, 3, 4, 0, 2]"
  have "is_ok ?r" "fst (projr ?r) = [Tpkt [3, 0, 0, 8, 1, 2, 3, 4]] @ FastPath [0, 2] # []"
    by code_simp+
  then obtain g where p: "?r = Ok ([Tpkt [3, 0, 0, 8, 1, 2, 3, 4]] @ FastPath [0, 2] # [], g)"
    by (auto simp: is_ok_iff)
  show ?thesis using p fast_path_after_tpkt [OF p] by auto
qed

end
