(* ===== verification/WA_Route.thy ===== *)
theory WA_Route
  imports WA_Framing
begin

text \<open>
  Finding the clipboard channel and lifting its PDUs out of the stream, \<open>src/src/scan/route.rs\<close>.
  The decoders of the MCS connection sequence and the encoders of channel data are the IronRDP
  libraries'; the record \<open>mcs_codec\<close> is what this module calls of them, as a parameter. The chunk
  header (\<open>ChannelPduHeader\<close> of \<open>src/vendor/ironrdp-pdu\<close>) is read here byte by byte. Error values
  say what was wrong; their text is not modelled.
\<close>

section \<open>Little-endian words\<close>

definition le32 :: "byte \<Rightarrow> byte \<Rightarrow> byte \<Rightarrow> byte \<Rightarrow> 32 word" where
  "le32 a b c d = ucast a OR push_bit 8 (ucast b) OR push_bit 16 (ucast c) OR push_bit 24 (ucast d)"

definition le32_of :: "bytes \<Rightarrow> 32 word" where
  "le32_of bs = le32 (bs ! 0) (bs ! 1) (bs ! 2) (bs ! 3)"

definition le32_bytes :: "32 word \<Rightarrow> bytes" where
  "le32_bytes w = [ucast w, ucast (drop_bit 8 w), ucast (drop_bit 16 w), ucast (drop_bit 24 w)]"

section \<open>Chunks\<close>

definition CLIPRDR :: string where
  "CLIPRDR = ''cliprdr''"

definition COMPRESS_OPTIONS :: "32 word" where
  "COMPRESS_OPTIONS = 0x00800000 OR 0x00400000"

definition MAX_PDU :: nat where
  "MAX_PDU = 64 * 2 ^ 20"

definition FLAG_FIRST :: "32 word" where "FLAG_FIRST = 0x00000001"
definition FLAG_LAST :: "32 word" where "FLAG_LAST = 0x00000002"
definition PACKET_COMPRESSED :: "32 word" where "PACKET_COMPRESSED = 0x00200000"

datatype route_error =
    Compressed
  | NoHeader
  | PduTooLong nat
  | FirstBeforeLast
  | NoFirstChunk
  | ChunksLong
  | ChunksShort
  | EncodeFailed string
  | NoChannel

record whole =
  w_pdu :: bytes
  w_units :: "bytes list"

record dechunker =
  dc_pdu :: bytes
  dc_length :: nat
  dc_units :: "bytes list"

definition dechunker_new :: dechunker where
  "dechunker_new = \<lparr> dc_pdu = [], dc_length = 0, dc_units = [] \<rparr>"

definition has_flag :: "32 word \<Rightarrow> 32 word \<Rightarrow> bool" where
  "has_flag flags f \<longleftrightarrow> flags AND f = f"

definition dechunk ::
  "dechunker \<Rightarrow> bytes \<Rightarrow> bytes \<Rightarrow> (route_error + whole option) \<times> dechunker" where
  "dechunk d user_data u =
     (if length user_data < 8 then (Err NoHeader, d)
      else
        (let len = unat (le32_of user_data);
             flags = le32_of (drop 4 user_data)
         in if has_flag flags PACKET_COMPRESSED then (Err Compressed, d)
            else if len > MAX_PDU then (Err (PduTooLong len), d)
            else if has_flag flags FLAG_FIRST \<and> dc_units d \<noteq> [] then (Err FirstBeforeLast, d)
            else if \<not> has_flag flags FLAG_FIRST \<and> dc_units d = [] then (Err NoFirstChunk, d)
            else
              (let d1 = (if has_flag flags FLAG_FIRST then d\<lparr>dc_length := len, dc_pdu := []\<rparr> else d);
                   d2 = d1\<lparr>dc_pdu := dc_pdu d1 @ drop 8 user_data, dc_units := dc_units d1 @ [u]\<rparr>
               in if length (dc_pdu d2) > dc_length d2 then (Err ChunksLong, d2)
                  else if \<not> has_flag flags FLAG_LAST then (Ok None, d2)
                  else if length (dc_pdu d2) \<noteq> dc_length d2 then (Err ChunksShort, d2)
                  else (Ok (Some \<lparr> w_pdu = dc_pdu d2, w_units = dc_units d2 \<rparr>),
                        d2\<lparr>dc_pdu := [], dc_units := []\<rparr>))))"

text \<open>A run of chunks, as it goes until one is refused.\<close>

fun dechunk_all ::
  "dechunker \<Rightarrow> (bytes \<times> bytes) list \<Rightarrow> route_error + (whole list \<times> dechunker)" where
  "dechunk_all d [] = Ok ([], d)"
| "dechunk_all d ((data, u) # ins) =
     (case dechunk d data u of
        (Err e, _) \<Rightarrow> Err e
      | (Ok w, d') \<Rightarrow>
          (case dechunk_all d' ins of
             Err e \<Rightarrow> Err e
           | Ok (ws, d'') \<Rightarrow> Ok ((case w of None \<Rightarrow> ws | Some x \<Rightarrow> x # ws), d'')))"

section \<open>The route\<close>

datatype mcs_message =
    SendDataRequest "16 word" "16 word" bytes
  | SendDataIndication "16 word" "16 word" bytes
  | OtherMcs

text \<open>
  What the libraries decode from a unit: the channel names of a Connect Initial (a name that is
  not text is empty), the channel ids of a Connect Response, an MCS message (initiator, channel,
  data); and how they frame a PDU for the server and for the client.
\<close>

record 'p mcs_codec =
  connect_initial :: "bytes \<Rightarrow> string list option"
  connect_response :: "bytes \<Rightarrow> 16 word list option"
  mcs_decode :: "bytes \<Rightarrow> mcs_message option"
  client_encode :: "'p \<Rightarrow> 16 word \<Rightarrow> 16 word \<Rightarrow> string + bytes"
  server_encode :: "'p \<Rightarrow> 16 word \<Rightarrow> 16 word \<Rightarrow> string + bytes"

datatype routed = Pass | Replace bytes | Clip "whole option"

record route =
  names :: "string list option"
  cliprdr :: "16 word option"
  user_channel :: "16 word option"
  server_initiator :: "16 word option"
  from_client_dc :: dechunker
  from_server_dc :: dechunker

definition route_new :: route where
  "route_new = \<lparr> names = None, cliprdr = None, user_channel = None, server_initiator = None,
                 from_client_dc = dechunker_new, from_server_dc = dechunker_new \<rparr>"

text \<open>\<open>windows(n).position(|w| w == name)\<close>.\<close>

fun position_of :: "bytes \<Rightarrow> bytes \<Rightarrow> nat option" where
  "position_of pat [] = None"
| "position_of pat (x # xs) =
     (if length pat \<le> length (x # xs) \<and> take (length pat) (x # xs) = pat then Some 0
      else map_option Suc (position_of pat xs))"

definition CLIPRDR_NAME :: bytes where
  "CLIPRDR_NAME = bytes_of ''cliprdr'' @ [0]"

definition no_compression :: "bytes \<Rightarrow> bytes option" where
  "no_compression u =
     (case position_of CLIPRDR_NAME u of
        None \<Rightarrow> None
      | Some i \<Rightarrow>
          (let at = i + length CLIPRDR_NAME
           in if position_of CLIPRDR_NAME (drop at u) \<noteq> None then None
              else if length u < at + 4 then None
              else let options = le32_of (drop at u)
                   in Some (take at u @ le32_bytes (options AND NOT COMPRESS_OPTIONS) @ drop (at + 4) u)))"

definition position :: "('a \<Rightarrow> bool) \<Rightarrow> 'a list \<Rightarrow> nat option" where
  "position P xs = (let n = length (takeWhile (\<lambda>x. \<not> P x) xs) in if n < length xs then Some n else None)"

definition get_nth :: "'a list \<Rightarrow> nat \<Rightarrow> 'a option" where
  "get_nth xs i = (if i < length xs then Some (xs ! i) else None)"

definition read_client :: "'p mcs_codec \<Rightarrow> route \<Rightarrow> bytes \<Rightarrow> (route_error + routed) \<times> route" where
  "read_client c r u =
     (if names r = None
      then (case connect_initial c u of
              Some ns \<Rightarrow>
                (let replaced = (if CLIPRDR \<in> set ns then no_compression u else None)
                 in (Ok (case replaced of None \<Rightarrow> Pass | Some b \<Rightarrow> Replace b), r\<lparr>names := Some ns\<rparr>))
            | None \<Rightarrow> (Ok Pass, r))
      else
        (case mcs_decode c u of
           Some (SendDataRequest initiator channel data) \<Rightarrow>
             (let r1 = r\<lparr>user_channel := Some initiator\<rparr>
              in if Some channel = cliprdr r
                 then (case dechunk (from_client_dc r1) data u of
                         (Err e, d) \<Rightarrow> (Err e, r1\<lparr>from_client_dc := d\<rparr>)
                       | (Ok w, d) \<Rightarrow> (Ok (Clip w), r1\<lparr>from_client_dc := d\<rparr>))
                 else (Ok Pass, r1))
         | _ \<Rightarrow> (Ok Pass, r)))"

definition read_server_mcs :: "'p mcs_codec \<Rightarrow> route \<Rightarrow> bytes \<Rightarrow> (route_error + routed) \<times> route" where
  "read_server_mcs c r u =
     (case mcs_decode c u of
        Some (SendDataIndication initiator channel data) \<Rightarrow>
          (let r1 = r\<lparr>server_initiator := Some initiator\<rparr>
           in if Some channel = cliprdr r
              then (case dechunk (from_server_dc r1) data u of
                      (Err e, d) \<Rightarrow> (Err e, r1\<lparr>from_server_dc := d\<rparr>)
                    | (Ok w, d) \<Rightarrow> (Ok (Clip w), r1\<lparr>from_server_dc := d\<rparr>))
              else (Ok Pass, r1))
      | _ \<Rightarrow> (Ok Pass, r))"

definition read_server :: "'p mcs_codec \<Rightarrow> route \<Rightarrow> bytes \<Rightarrow> (route_error + routed) \<times> route" where
  "read_server c r u =
     (case (cliprdr r, names r) of
        (None, Some ns) \<Rightarrow>
          (case connect_response c u of
             Some ids \<Rightarrow>
               (Ok Pass, r\<lparr>cliprdr := Option.bind (position (\<lambda>n. n = CLIPRDR) ns) (get_nth ids)\<rparr>)
           | None \<Rightarrow> read_server_mcs c r u)
      | _ \<Rightarrow> read_server_mcs c r u)"

definition to_server :: "'p mcs_codec \<Rightarrow> route \<Rightarrow> 'p \<Rightarrow> route_error + bytes" where
  "to_server c r pdu =
     (case (cliprdr r, user_channel r) of
        (Some channel, Some user) \<Rightarrow>
          (case client_encode c pdu channel user of Err e \<Rightarrow> Err (EncodeFailed e) | Ok b \<Rightarrow> Ok b)
      | _ \<Rightarrow> Err NoChannel)"

definition to_client :: "'p mcs_codec \<Rightarrow> route \<Rightarrow> 'p \<Rightarrow> route_error + bytes" where
  "to_client c r pdu =
     (case (cliprdr r, server_initiator r) of
        (Some channel, Some initiator) \<Rightarrow>
          (case server_encode c pdu channel initiator of Err e \<Rightarrow> Err (EncodeFailed e) | Ok b \<Rightarrow> Ok b)
      | _ \<Rightarrow> Err NoChannel)"

section \<open>Properties\<close>

lemma le32_bytes_length [simp]: "length (le32_bytes w) = 4"
  by (simp add: le32_bytes_def)

lemma le32_round_trip [simp]: "le32_of (le32_bytes w @ rest) = w"
  unfolding le32_of_def le32_bytes_def le32_def
proof (rule bit_word_eqI)
  fix n :: nat
  assume "n < LENGTH(32)"
  consider "n < 8" | "8 \<le> n" "n < 16" | "16 \<le> n" "n < 24" | "24 \<le> n" by linarith
  then show "bit (ucast (([ucast w, ucast (drop_bit 8 w), ucast (drop_bit 16 w), ucast (drop_bit 24 w)] @ rest) ! 0 :: byte) OR
      push_bit 8 (ucast (([ucast w, ucast (drop_bit 8 w), ucast (drop_bit 16 w), ucast (drop_bit 24 w)] @ rest) ! 1)) OR
      push_bit 16 (ucast (([ucast w, ucast (drop_bit 8 w), ucast (drop_bit 16 w), ucast (drop_bit 24 w)] @ rest) ! 2)) OR
      push_bit 24 (ucast (([ucast w, ucast (drop_bit 8 w), ucast (drop_bit 16 w), ucast (drop_bit 24 w)] @ rest) ! 3)) :: 32 word) n
      \<longleftrightarrow> bit w n"
    using \<open>n < LENGTH(32)\<close> by cases (auto simp: bit_simps)
qed

text \<open>What the dechunker holds between chunks.\<close>

definition dechunker_wf :: "dechunker \<Rightarrow> bool" where
  "dechunker_wf d \<longleftrightarrow> (dc_units d = [] \<longrightarrow> dc_pdu d = []) \<and> dc_length d \<le> MAX_PDU \<and>
     length (dc_pdu d) \<le> MAX_PDU"

lemma dechunk_step:
  assumes "dechunk d data u = (Ok w, d')" "dechunker_wf d"
  shows "dechunker_wf d'"
    and "(case w of None \<Rightarrow> [] | Some x \<Rightarrow> w_units x) @ dc_units d' = dc_units d @ [u]"
    and "(case w of None \<Rightarrow> [] | Some x \<Rightarrow> w_pdu x) @ dc_pdu d' = dc_pdu d @ drop 8 data"
    and "w = Some x \<Longrightarrow> length (w_pdu x) \<le> MAX_PDU"
  using assms by (auto simp: dechunk_def dechunker_wf_def Let_def split: if_splits)

lemma dechunk_all_spec:
  "dechunk_all d ins = Ok (ws, d') \<Longrightarrow> dechunker_wf d \<Longrightarrow>
   concat (map w_units ws) @ dc_units d' = dc_units d @ map snd ins \<and>
   concat (map w_pdu ws) @ dc_pdu d' = dc_pdu d @ concat (map (\<lambda>p. drop 8 (fst p)) ins) \<and>
   (\<forall>w \<in> set ws. length (w_pdu w) \<le> MAX_PDU) \<and> length (dc_pdu d') \<le> MAX_PDU"
proof (induction d ins arbitrary: ws rule: dechunk_all.induct)
  case (1 d)
  then show ?case by (simp add: dechunker_wf_def)
next
  case (2 d data u ins)
  obtain w d1 vs where s: "dechunk d data u = (Ok w, d1)" and r: "dechunk_all d1 ins = Ok (vs, d')"
    and ws: "ws = (case w of None \<Rightarrow> vs | Some x \<Rightarrow> x # vs)"
    using "2.prems"(1) by (auto split: prod.splits sum.splits)
  note step = dechunk_step [OF s "2.prems"(2)]
  have IH: "concat (map w_units vs) @ dc_units d' = dc_units d1 @ map snd ins \<and>
   concat (map w_pdu vs) @ dc_pdu d' = dc_pdu d1 @ concat (map (\<lambda>p. drop 8 (fst p)) ins) \<and>
   (\<forall>w \<in> set vs. length (w_pdu w) \<le> MAX_PDU) \<and> length (dc_pdu d') \<le> MAX_PDU"
    using "2.IH" [OF s [symmetric] refl r step(1)] .
  show ?case
  proof (cases w)
    case None
    then show ?thesis using IH step(2,3) by (simp add: ws)
  next
    case (Some x)
    then show ?thesis using IH step(2,3) step(4) [OF Some] by (simp add: ws)
  qed
qed

text \<open>
  reassembly loses nothing. The units of the PDUs completed, followed by the units still
  held, are the units that carried chunks, in order; the PDUs' bytes, followed by the bytes held,
  are the chunks' bytes in order; and nothing over 64 MiB is ever put together.
\<close>

theorem dechunk_lossless:
  assumes "dechunk_all dechunker_new ins = Ok (ws, d)"
  shows "concat (map w_units ws) @ dc_units d = map snd ins \<and>
    concat (map w_pdu ws) @ dc_pdu d = concat (map (\<lambda>p. drop 8 (fst p)) ins) \<and>
    (\<forall>w \<in> set ws. length (w_pdu w) \<le> MAX_PDU)"
  using dechunk_all_spec [OF assms] by (simp add: dechunker_new_def dechunker_wf_def)

text \<open>A PDU cut into chunks: each has the PDU's length, and the first and the last say so.\<close>

fun chunks_from :: "bool \<Rightarrow> nat \<Rightarrow> (bytes \<times> bytes) list \<Rightarrow> (bytes \<times> bytes) list" where
  "chunks_from first n [] = []"
| "chunks_from first n ((piece, u) # ps) =
     (le32_bytes (of_nat n) @
      le32_bytes ((if first then FLAG_FIRST else 0) OR (if ps = [] then FLAG_LAST else 0)) @ piece, u)
     # chunks_from False n ps"

definition chunks :: "(bytes \<times> bytes) list \<Rightarrow> (bytes \<times> bytes) list" where
  "chunks ps = chunks_from True (length (concat (map fst ps))) ps"

lemma flags_simps [simp]:
  "has_flag (FLAG_FIRST OR f) FLAG_FIRST" "\<not> has_flag 0 FLAG_FIRST" "\<not> has_flag FLAG_LAST FLAG_FIRST"
  "has_flag FLAG_LAST FLAG_LAST" "has_flag (FLAG_FIRST OR FLAG_LAST) FLAG_LAST"
  "\<not> has_flag 0 FLAG_LAST" "\<not> has_flag FLAG_FIRST FLAG_LAST" "has_flag FLAG_FIRST FLAG_FIRST"
  "\<not> has_flag 0 PACKET_COMPRESSED" "\<not> has_flag FLAG_LAST PACKET_COMPRESSED"
  "\<not> has_flag FLAG_FIRST PACKET_COMPRESSED" "\<not> has_flag (FLAG_FIRST OR FLAG_LAST) PACKET_COMPRESSED"
proof -
  show "has_flag (FLAG_FIRST OR f) FLAG_FIRST"
    by (auto simp: has_flag_def intro!: bit_word_eqI simp: bit_simps)
qed (simp_all add: has_flag_def FLAG_FIRST_def FLAG_LAST_def PACKET_COMPRESSED_def)

lemma unat_pdu_length: "n \<le> MAX_PDU \<Longrightarrow> unat (of_nat n :: 32 word) = n"
  by (simp add: MAX_PDU_def unat_of_nat)

lemma dechunk_chunk:
  assumes "n \<le> MAX_PDU"
  shows "dechunk d (le32_bytes (of_nat n) @ le32_bytes fl @ piece) u =
     (if has_flag fl PACKET_COMPRESSED then (Err Compressed, d)
      else if has_flag fl FLAG_FIRST \<and> dc_units d \<noteq> [] then (Err FirstBeforeLast, d)
      else if \<not> has_flag fl FLAG_FIRST \<and> dc_units d = [] then (Err NoFirstChunk, d)
      else
        (let d1 = (if has_flag fl FLAG_FIRST then d\<lparr>dc_length := n, dc_pdu := []\<rparr> else d);
             d2 = d1\<lparr>dc_pdu := dc_pdu d1 @ piece, dc_units := dc_units d1 @ [u]\<rparr>
         in if length (dc_pdu d2) > dc_length d2 then (Err ChunksLong, d2)
            else if \<not> has_flag fl FLAG_LAST then (Ok None, d2)
            else if length (dc_pdu d2) \<noteq> dc_length d2 then (Err ChunksShort, d2)
            else (Ok (Some \<lparr> w_pdu = dc_pdu d2, w_units = dc_units d2 \<rparr>),
                  d2\<lparr>dc_pdu := [], dc_units := []\<rparr>)))"
proof -
  let ?x = "le32_bytes (of_nat n) @ le32_bytes fl @ piece"
  have "le32_of ?x = of_nat n" "le32_of (drop 4 ?x) = fl" "drop 8 ?x = piece" "\<not> length ?x < 8"
    by simp_all
  then show ?thesis using unat_pdu_length [OF assms] assms
    unfolding dechunk_def Let_def by (simp del: drop_append)
qed

lemma dechunk_rest:
  assumes "n \<le> MAX_PDU"
  shows "ps \<noteq> [] \<Longrightarrow> dc_units d \<noteq> [] \<Longrightarrow> dc_length d = n \<Longrightarrow>
   length (dc_pdu d) + length (concat (map fst ps)) = n \<Longrightarrow>
   dechunk_all d (chunks_from False n ps) =
     Ok ([\<lparr> w_pdu = dc_pdu d @ concat (map fst ps), w_units = dc_units d @ map snd ps \<rparr>],
         d\<lparr>dc_pdu := [], dc_units := []\<rparr>)"
proof (induction ps arbitrary: d)
  case (Cons p ps)
  obtain piece u where p: "p = (piece, u)" by fastforce
  show ?case
  proof (cases "ps = []")
    case True
    then show ?thesis using Cons.prems p by (simp add: dechunk_chunk [OF assms] Let_def)
  next
    case False
    have "dechunk d (le32_bytes (of_nat n) @ le32_bytes 0 @ piece) u =
        (Ok None, d\<lparr>dc_pdu := dc_pdu d @ piece, dc_units := dc_units d @ [u]\<rparr>)"
      using Cons.prems p by (simp add: dechunk_chunk [OF assms] Let_def)
    with Cons.IH [of "d\<lparr>dc_pdu := dc_pdu d @ piece, dc_units := dc_units d @ [u]\<rparr>"] Cons.prems False p
    show ?thesis by (simp add: dechunk_chunk [OF assms] Let_def)
  qed
qed simp

lemma dechunk_first:
  assumes "ps \<noteq> []" "length (concat (map fst ps)) \<le> MAX_PDU"
  shows "\<exists>d. dechunk_all dechunker_new (chunks ps) =
     Ok ([\<lparr> w_pdu = concat (map fst ps), w_units = map snd ps \<rparr>], d) \<and> dc_pdu d = [] \<and> dc_units d = []"
proof -
  obtain piece u qs where ps: "ps = (piece, u) # qs" using assms(1) by (cases ps) auto
  let ?n = "length (concat (map fst ps))"
  show ?thesis
  proof (cases "qs = []")
    case True
    then show ?thesis using assms(2) ps
      by (simp add: chunks_def dechunk_chunk Let_def dechunker_new_def)
  next
    case False
    let ?d = "\<lparr> dc_pdu = piece, dc_length = ?n, dc_units = [u] \<rparr>"
    have "dechunk dechunker_new (le32_bytes (of_nat ?n) @ le32_bytes FLAG_FIRST @ piece) u = (Ok None, ?d)"
      using ps dechunk_chunk [OF assms(2), of dechunker_new FLAG_FIRST piece u]
      by (simp add: dechunker_new_def Let_def)
    with dechunk_rest [OF assms(2) False, of ?d] ps False show ?thesis
      by (simp add: chunks_def)
  qed
qed

text \<open>
  a PDU of up to 64 MiB sent in any number of chunks comes out whole, with every unit that
  carried it, and nothing is left behind.
\<close>

theorem dechunk_round_trip:
  assumes "ps \<noteq> []" "length (concat (map fst ps)) \<le> MAX_PDU"
  shows "\<exists>d. dechunk_all dechunker_new (chunks ps) =
     Ok ([\<lparr> w_pdu = concat (map fst ps), w_units = map snd ps \<rparr>], d) \<and> dc_pdu d = [] \<and> dc_units d = []"
  by (rule dechunk_first [OF assms])

theorem dechunk_round_trip_witness:
  "\<exists>d. dechunk_all dechunker_new (chunks [([1, 2], [10]), ([3], [11])]) =
     Ok ([\<lparr> w_pdu = [1, 2, 3], w_units = [[10], [11]] \<rparr>], d)"
  using dechunk_round_trip [of "[([1, 2], [10]), ([3], [11])]"] by (auto simp: MAX_PDU_def)

theorem dechunk_lossless_witness:
  "\<exists>ws d. dechunk_all dechunker_new (chunks [([1, 2], [10]), ([3], [11])]) = Ok (ws, d) \<and>
     concat (map w_units ws) @ dc_units d = [[10], [11]]"
proof -
  obtain ws d where r: "dechunk_all dechunker_new (chunks [([1, 2], [10]), ([3], [11])]) = Ok (ws, d)"
    using dechunk_first [of "[([1, 2], [10]), ([3], [11])]"] by (auto simp: MAX_PDU_def)
  show ?thesis using r dechunk_lossless [OF r] by (auto simp: chunks_def)
qed

lemma position_of_Some:
  "position_of pat xs = Some i \<Longrightarrow> i + length pat \<le> length xs \<and> take (length pat) (drop i xs) = pat"
  by (induction xs arbitrary: i) (auto split: if_splits)

text \<open>
  switching off clipboard compression changes four bytes and nothing else. They follow the
  channel's name; the compression options are cleared in them and every other option is kept.
\<close>

theorem no_compression_only_options:
  assumes "no_compression u = Some v"
  shows "\<exists>at \<ge> length CLIPRDR_NAME. at + 4 \<le> length u \<and>
    take (length CLIPRDR_NAME) (drop (at - length CLIPRDR_NAME) u) = CLIPRDR_NAME \<and>
    length v = length u \<and> take at v = take at u \<and> drop (at + 4) v = drop (at + 4) u \<and>
    le32_of (drop at v) = le32_of (drop at u) AND NOT COMPRESS_OPTIONS"
proof -
  obtain i where i: "position_of CLIPRDR_NAME u = Some i"
    and len: "i + length CLIPRDR_NAME + 4 \<le> length u"
    and v: "v = take (i + length CLIPRDR_NAME) u @
      le32_bytes (le32_of (drop (i + length CLIPRDR_NAME) u) AND NOT COMPRESS_OPTIONS) @
      drop (i + length CLIPRDR_NAME + 4) u"
    using assms by (auto simp: no_compression_def Let_def not_less split: option.splits if_splits)
  let ?at = "i + length CLIPRDR_NAME"
  have "drop ?at v = le32_bytes (le32_of (drop ?at u) AND NOT COMPRESS_OPTIONS) @ drop (?at + 4) u"
    using len by (simp add: v)
  then have "le32_of (drop ?at v) = le32_of (drop ?at u) AND NOT COMPRESS_OPTIONS"
    by (simp only: le32_round_trip)
  moreover have "take ?at v = take ?at u" "drop (?at + 4) v = drop (?at + 4) u" "length v = length u"
    using len by (simp_all add: v)
  ultimately show ?thesis using position_of_Some [OF i] len by (intro exI [of _ ?at]) simp
qed

theorem no_compression_only_options_witness:
  "\<exists>v. no_compression (CLIPRDR_NAME @ [1, 2, 0xC0, 4, 9]) = Some v \<and> length v = 13"
proof -
  have "no_compression (CLIPRDR_NAME @ [1, 2, 0xC0, 4, 9]) \<noteq> None"
    by (simp add: no_compression_def CLIPRDR_NAME_def bytes_of_def Let_def)
  then obtain v where v: "no_compression (CLIPRDR_NAME @ [1, 2, 0xC0, 4, 9]) = Some v" by auto
  have "length CLIPRDR_NAME = 8" by (simp add: CLIPRDR_NAME_def bytes_of_def)
  then show ?thesis using v no_compression_only_options [OF v] by auto
qed

text \<open>
  C37: only the clipboard channel is touched. A unit is held only when it is channel data for the
  clipboard channel's id, and replaced only when it is the first Connect Initial and asks for the
  clipboard; every other unit, in both directions, is passed as it arrived.
\<close>

theorem route_touches_clipboard_only:
  "(case fst (read_client c r u) of
      Ok Pass \<Rightarrow> True
    | Ok (Replace b) \<Rightarrow> names r = None \<and> no_compression u = Some b \<and>
        (\<exists>ns. connect_initial c u = Some ns \<and> CLIPRDR \<in> set ns)
    | _ \<Rightarrow> \<exists>i ch data. mcs_decode c u = Some (SendDataRequest i ch data) \<and> cliprdr r = Some ch) \<and>
   (case fst (read_server c r u) of
      Ok Pass \<Rightarrow> True
    | Ok (Replace b) \<Rightarrow> False
    | _ \<Rightarrow> \<exists>i ch data. mcs_decode c u = Some (SendDataIndication i ch data) \<and> cliprdr r = Some ch)"
proof
  show "case fst (read_client c r u) of
      Ok Pass \<Rightarrow> True
    | Ok (Replace b) \<Rightarrow> names r = None \<and> no_compression u = Some b \<and>
        (\<exists>ns. connect_initial c u = Some ns \<and> CLIPRDR \<in> set ns)
    | _ \<Rightarrow> \<exists>i ch data. mcs_decode c u = Some (SendDataRequest i ch data) \<and> cliprdr r = Some ch"
    by (auto simp: read_client_def Let_def split: option.splits mcs_message.splits sum.splits
        routed.splits prod.splits if_splits)
  have "case fst (read_server_mcs c r u) of
      Ok Pass \<Rightarrow> True
    | Ok (Replace b) \<Rightarrow> False
    | _ \<Rightarrow> \<exists>i ch data. mcs_decode c u = Some (SendDataIndication i ch data) \<and> cliprdr r = Some ch"
    by (auto simp: read_server_mcs_def Let_def split: option.splits mcs_message.splits sum.splits
        routed.splits prod.splits if_splits)
  then show "case fst (read_server c r u) of
      Ok Pass \<Rightarrow> True
    | Ok (Replace b) \<Rightarrow> False
    | _ \<Rightarrow> \<exists>i ch data. mcs_decode c u = Some (SendDataIndication i ch data) \<and> cliprdr r = Some ch"
    by (auto simp: read_server_def split: option.splits)
qed

end
