(* ===== verification/WA_Text.thy ===== *)
theory WA_Text
  imports WA_Prelude
begin

text \<open>
  The text operations of the Rust standard library that look at characters rather than bytes. A
  \<^typ>\<open>string\<close> holds UTF-8, so a character is a lead byte with the continuation bytes after it
  (\<open>chars\<close>); white space and control characters are given by their encodings.
\<close>

section \<open>Characters\<close>

definition is_cont :: "char \<Rightarrow> bool" where
  "is_cont c \<longleftrightarrow> (let n = (of_char c :: nat) in 128 \<le> n \<and> n < 192)"

function chars :: "string \<Rightarrow> string list" where
  "chars [] = []"
| "chars (c # cs) = (c # takeWhile is_cont cs) # chars (dropWhile is_cont cs)"
  by pat_completeness auto
termination by (relation "measure length") (auto simp: le_imp_less_Suc length_dropWhile_le)

lemma concat_chars [simp]: "concat (chars s) = s"
  by (induction s rule: chars.induct) simp_all

lemma chars_not_Nil: "ch \<in> set (chars s) \<Longrightarrow> ch \<noteq> []"
  by (induction s rule: chars.induct) auto

lemma chars_ascii: "(\<And>c. c \<in> set s \<Longrightarrow> \<not> is_cont c) \<Longrightarrow> chars s = map (\<lambda>c. [c]) s"
  by (induction s) (auto simp: takeWhile_eq_Nil_iff dropWhile_eq_self_iff neq_Nil_conv)

definition char_count :: "string \<Rightarrow> nat" where
  "char_count s = length (chars s)"

lemma length_concat_ge: "(\<And>ch. ch \<in> set xs \<Longrightarrow> ch \<noteq> []) \<Longrightarrow> length xs \<le> length (concat xs)"
proof (induction xs)
  case (Cons x xs)
  then have "x \<noteq> []" "length xs \<le> length (concat xs)" by simp_all
  then show ?case by (cases x) simp_all
qed simp

lemma char_count_le: "char_count s \<le> length s"
  using length_concat_ge [of "chars s"] chars_not_Nil by (simp add: char_count_def)

text \<open>Unicode's \<open>White_Space\<close>, by encoding.\<close>

definition is_ws_char :: "string \<Rightarrow> bool" where
  "is_ws_char ch \<longleftrightarrow>
     (let b = map of_char ch :: nat list
      in (length b = 1 \<and> (9 \<le> hd b \<and> hd b \<le> 13 \<or> hd b = 32)) \<or>
         b \<in> set [[0xC2, 0x85], [0xC2, 0xA0], [0xE1, 0x9A, 0x80], [0xE2, 0x80, 0xA8], [0xE2, 0x80, 0xA9],
                  [0xE2, 0x80, 0xAF], [0xE2, 0x81, 0x9F], [0xE3, 0x80, 0x80]] \<or>
         (length b = 3 \<and> take 2 b = [0xE2, 0x80] \<and> 0x80 \<le> b ! 2 \<and> b ! 2 \<le> 0x8A))"

text \<open>\<open>char::is_control\<close>: the general category Cc.\<close>

definition is_control_char :: "string \<Rightarrow> bool" where
  "is_control_char ch \<longleftrightarrow>
     (let b = map of_char ch :: nat list
      in (length b = 1 \<and> (hd b < 32 \<or> hd b = 127)) \<or>
         (length b = 2 \<and> hd b = 0xC2 \<and> 0x80 \<le> b ! 1 \<and> b ! 1 \<le> 0x9F))"

text \<open>\<open>str::trim\<close>.\<close>

definition str_trim :: "string \<Rightarrow> string" where
  "str_trim s = concat (rev (dropWhile is_ws_char (rev (dropWhile is_ws_char (chars s)))))"

section \<open>Splitting\<close>

text \<open>\<open>rsplit(c).next()\<close> and \<open>rsplit_once\<close> at an ASCII character.\<close>

definition after_last :: "char \<Rightarrow> string \<Rightarrow> string" where
  "after_last c s = last (split_on c s)"

definition rsplit_once :: "char \<Rightarrow> string \<Rightarrow> (string \<times> string) option" where
  "rsplit_once c s = map_option (\<lambda>(a, b). (rev b, rev a)) (split_once c (rev s))"

lemma rsplit_once_Some: "rsplit_once c s = Some (a, b) \<Longrightarrow> s = a @ c # b \<and> c \<notin> set b"
proof -
  assume "rsplit_once c s = Some (a, b)"
  then obtain x y where xy: "split_once c (rev s) = Some (x, y)" "a = rev y" "b = rev x"
    by (auto simp: rsplit_once_def)
  from split_once_Some [OF xy(1)] have "rev s = x @ c # y" "c \<notin> set x" by simp_all
  then have "s = rev y @ c # rev x" by (simp add: rev_swap)
  with xy(2,3) \<open>c \<notin> set x\<close> show ?thesis by simp
qed

lemma rsplit_once_append: "c \<notin> set b \<Longrightarrow> rsplit_once c (a @ c # b) = Some (a, b)"
  by (simp add: rsplit_once_def split_once_append)

lemma split_on_parts: "p \<in> set (split_on c xs) \<Longrightarrow> c \<notin> set p"
  by (induction xs arbitrary: p) (auto split: if_splits list.splits)

lemma after_last_free: "c \<notin> set (after_last c s)"
  using split_on_parts [of "last (split_on c s)" c s] by (simp add: after_last_def)

lemma hd_split_on_free: "c \<notin> set (hd (split_on c s))"
  using split_on_parts [of "hd (split_on c s)" c s] by simp

lemma hd_split_on_subset: "set (hd (split_on c s)) \<subseteq> set s"
  by (induction s) (auto split: list.splits)

definition strip_prefix :: "'a list \<Rightarrow> 'a list \<Rightarrow> 'a list option" where
  "strip_prefix p s = (if take (length p) s = p then Some (drop (length p) s) else None)"

lemma strip_prefix_Some: "strip_prefix p s = Some r \<longleftrightarrow> s = p @ r"
  by (auto simp: strip_prefix_def) (metis append_take_drop_id)

definition starts_with :: "'a list \<Rightarrow> 'a list \<Rightarrow> bool" where
  "starts_with s p \<longleftrightarrow> take (length p) s = p"

definition ends_with :: "'a list \<Rightarrow> 'a list \<Rightarrow> bool" where
  "ends_with s p \<longleftrightarrow> starts_with (rev s) (rev p)"

text \<open>\<open>join\<close>.\<close>

fun join :: "string \<Rightarrow> string list \<Rightarrow> string" where
  "join sep [] = []"
| "join sep [x] = x"
| "join sep (x # y # xs) = x @ sep @ join sep (y # xs)"

lemma join_split_on [simp]: "join [c] (split_on c xs) = xs"
proof (induction xs)
  case (Cons x xs)
  obtain q qs where q: "split_on c xs = q # qs" by (cases "split_on c xs") simp_all
  then show ?case using Cons by (cases qs) auto
qed simp

text \<open>\<open>{:?}\<close> of a string. Other characters that are not printable are left as they are.\<close>

definition debug_char :: "char \<Rightarrow> string" where
  "debug_char c =
     (if c = CHR 0x22 then [CHR 0x5C, CHR 0x22]
      else if c = CHR 0x5C then [CHR 0x5C, CHR 0x5C]
      else if c = CHR 0x0A then [CHR 0x5C, CHR ''n'']
      else if c = CHR 0x0D then [CHR 0x5C, CHR ''r'']
      else if c = CHR 0x09 then [CHR 0x5C, CHR ''t'']
      else [c])"

definition debug_str :: "string \<Rightarrow> string" where
  "debug_str s = [CHR 0x22] @ concat (map debug_char s) @ [CHR 0x22]"

section \<open>Numbers\<close>

text \<open>\<open>parse\<close> of an unsigned type: an optional plus sign, digits, and a value in range.\<close>

definition parse_unsigned :: "nat \<Rightarrow> string \<Rightarrow> nat option" where
  "parse_unsigned bound s =
     (let ds = (case s of c # cs \<Rightarrow> if c = CHR ''+'' then cs else s | [] \<Rightarrow> [])
      in case parse_digits ds of Some n \<Rightarrow> if n < bound then Some n else None | None \<Rightarrow> None)"

lemma parse_unsigned_show_nat [simp]:
  "parse_unsigned bound (show_nat n) = (if n < bound then Some n else None)"
proof -
  obtain d cs where d: "d < 10" and eq: "show_nat n = digit_char d # cs"
    using show_nat_hd by blast
  have "parse_digits (digit_char d # cs) = Some n"
    using parse_digits_show_nat [of n] by (simp add: eq)
  then show ?thesis using digit_char_not_sign [OF d] by (simp add: parse_unsigned_def eq)
qed

text \<open>Two hexadecimal digits, as \<open>{:02x}\<close> writes a byte.\<close>

definition hex_char :: "nat \<Rightarrow> char" where
  "hex_char n = (if n < 10 then char_of (48 + n) else char_of (87 + n))"

definition hex_val :: "char \<Rightarrow> nat option" where
  "hex_val c =
     (let n = (of_char c :: nat)
      in if 48 \<le> n \<and> n \<le> 57 then Some (n - 48)
         else if 97 \<le> n \<and> n \<le> 102 then Some (n - 87)
         else if 65 \<le> n \<and> n \<le> 70 then Some (n - 55) else None)"

lemma hex_val_hex_char [simp]: "n < 16 \<Longrightarrow> hex_val (hex_char n) = Some n"
  by (simp add: hex_val_def hex_char_def Let_def)

lemma unat_byte: "unat (b :: byte) < 256"
  by (rule order_less_le_trans [OF unsigned_less]) simp

lemma nibbles: "unat (b :: byte) div 16 < 16" "unat b mod 16 < 16"
  using unat_byte [of b] by simp_all

definition hex2 :: "byte \<Rightarrow> string" where
  "hex2 b = [hex_char (unat b div 16), hex_char (unat b mod 16)]"

lemma length_hex2 [simp]: "length (hex2 b) = 2"
  by (simp add: hex2_def)

definition is_digit :: "char \<Rightarrow> bool" where
  "is_digit c \<longleftrightarrow> digit_val c \<noteq> None"

lemma show_nat_digits: "c \<in> set (show_nat n) \<Longrightarrow> is_digit c"
proof (induction n rule: show_nat.induct)
  case (1 n)
  have d: "m < 10 \<Longrightarrow> is_digit (digit_char m)" for m by (simp add: is_digit_def)
  show ?case
  proof (cases "n < 10")
    case True
    then show ?thesis using 1(2) d by (subst (asm) show_nat.simps) simp
  next
    case False
    then show ?thesis using 1 d [of "n mod 10"] by (subst (asm) (2) show_nat.simps) auto
  qed
qed

lemma show_int_no: "\<not> is_digit c \<Longrightarrow> c \<noteq> CHR ''-'' \<Longrightarrow> c \<notin> set (show_int n)"
  using show_nat_digits by (auto simp: show_int_def)

lemma show_nat_inject [simp]: "show_nat a = show_nat b \<longleftrightarrow> a = b"
  by (metis parse_digits_show_nat option.inject)

lemma show_int_inject [simp]: "show_int a = show_int b \<longleftrightarrow> a = b"
proof
  assume eq: "show_int a = show_int b"
  have no: "show_nat n \<noteq> CHR ''-'' # s" for n s
    using show_nat_digits [of "CHR ''-''" n] by (auto simp: is_digit_def digit_val_def)
  show "a = b" using eq no no [symmetric] by (auto simp: show_int_def nat_eq_iff split: if_splits)
qed simp

end
