(* ===== verification/WA_Scanner.thy ===== *)
theory WA_Scanner
  imports WA_Text
begin

text \<open>
  Verdicts and the scanner's standing: \<open>src/src/scan/scanner.rs\<close> and the health of
  \<open>src/src/scan/mod.rs\<close>. A scanner is a function from a name and bytes to a verdict; running a
  program and calling the Windows interface are outside, so the command scanner is modelled from
  the outcome of its run (\<open>run_outcome\<close>) and the AMSI scanner from what the call returned. A 32-bit
  signed value is a \<open>32 word\<close> read with \<open>sint\<close>.
\<close>

section \<open>Verdicts\<close>

datatype verdict = Clean | Detected | Unavailable string

definition hex_digit :: "nat \<Rightarrow> char" where
  "hex_digit d = (if d < 10 then char_of (48 + d) else char_of (87 + d))"

text \<open>\<open>{:#010x}\<close> of a 32-bit value.\<close>

definition show_hex32 :: "32 word \<Rightarrow> string" where
  "show_hex32 w = ''0x'' @ map (\<lambda>i. hex_digit (unat w div 16 ^ i mod 16)) [7, 6, 5, 4, 3, 2, 1, 0]"

definition AMSI_RESULT_CLEAN :: int where "AMSI_RESULT_CLEAN = 0"
definition AMSI_RESULT_NOT_DETECTED :: int where "AMSI_RESULT_NOT_DETECTED = 1"
definition AMSI_RESULT_BLOCKED_BY_ADMIN_START :: int where "AMSI_RESULT_BLOCKED_BY_ADMIN_START = 0x4000"
definition AMSI_RESULT_BLOCKED_BY_ADMIN_END :: int where "AMSI_RESULT_BLOCKED_BY_ADMIN_END = 0x4fff"
definition AMSI_RESULT_DETECTED :: int where "AMSI_RESULT_DETECTED = 0x8000"

lemmas amsi_defs = AMSI_RESULT_CLEAN_def AMSI_RESULT_NOT_DETECTED_def
  AMSI_RESULT_BLOCKED_BY_ADMIN_START_def AMSI_RESULT_BLOCKED_BY_ADMIN_END_def
  AMSI_RESULT_DETECTED_def

definition amsi_verdict :: "32 word \<Rightarrow> 32 word \<Rightarrow> verdict" where
  "amsi_verdict hr result =
     (if hr \<noteq> 0 then Unavailable (''AmsiScanBuffer failed with '' @ show_hex32 hr)
      else
        (let r = sint result
         in if r = AMSI_RESULT_CLEAN \<or> r = AMSI_RESULT_NOT_DETECTED then Clean
            else if r \<ge> AMSI_RESULT_DETECTED then Detected
            else if AMSI_RESULT_BLOCKED_BY_ADMIN_START \<le> r \<and> r \<le> AMSI_RESULT_BLOCKED_BY_ADMIN_END
            then Detected
            else Unavailable (''AMSI answered '' @ show_int r @ '', which is no verdict'')))"

text \<open>How the command scanner's run went, and the verdict \<open>Command::run\<close> takes from it.\<close>

datatype run_outcome =
    StagingFailed string
  | WriteFailed string
  | StartFailed string
  | Exited "int option"
  | TookTooLong
  | WaitFailed string

definition show_exit :: "int option \<Rightarrow> string" where
  "show_exit c = (case c of None \<Rightarrow> ''None'' | Some n \<Rightarrow> ''Some('' @ show_int n @ '')'')"

definition command_verdict :: "string \<Rightarrow> int list \<Rightarrow> int list \<Rightarrow> run_outcome \<Rightarrow> verdict" where
  "command_verdict program clean detected out =
     (case out of
        StagingFailed e \<Rightarrow> Unavailable (''staging folder: '' @ e)
      | WriteFailed e \<Rightarrow> Unavailable (''writing the copy: '' @ e)
      | StartFailed e \<Rightarrow> Unavailable (''starting '' @ program @ '': '' @ e)
      | Exited c \<Rightarrow>
          (case c of
             Some n \<Rightarrow>
               if n \<in> set clean then Clean
               else if n \<in> set detected then Detected
               else Unavailable (''scanner exited with '' @ show_exit c)
           | None \<Rightarrow> Unavailable (''scanner exited with '' @ show_exit c))
      | TookTooLong \<Rightarrow> Unavailable ''the scanner took too long''
      | WaitFailed e \<Rightarrow> Unavailable (''waiting for the scanner: '' @ e))"

section \<open>The check with the test file\<close>

definition EICAR_REVERSED :: string where
  "EICAR_REVERSED = ''*H+H$!ELIF-TSET-SURIVITNA-DRADNATS-RACIE$}7)CC7)^P(45XZP'' @ [CHR 0x5C] @
     ''4[PA@%P!O5X''"

definition eicar :: bytes where
  "eicar = rev (bytes_of EICAR_REVERSED)"

definition harmless :: bytes where
  "harmless = bytes_of (''web-access scanner check, a harmless file'' @ [CHR 0x0A])"

text \<open>\<open>{:?}\<close> of a verdict.\<close>

definition debug_verdict :: "verdict \<Rightarrow> string" where
  "debug_verdict v =
     (case v of
        Clean \<Rightarrow> ''Clean''
      | Detected \<Rightarrow> ''Detected''
      | Unavailable e \<Rightarrow> ''Unavailable('' @ debug_str e @ '')'')"

definition scanner_check :: "(string \<Rightarrow> bytes \<Rightarrow> verdict) \<Rightarrow> string + unit" where
  "scanner_check scan =
     (case scan ''web-access-check.com'' eicar of
        Detected \<Rightarrow>
          (case scan ''web-access-check.txt'' harmless of
             Clean \<Rightarrow> Ok ()
           | v \<Rightarrow> Err (''a harmless file came back '' @ debug_verdict v @ '', not clean''))
      | v \<Rightarrow> Err (''the EICAR test file came back '' @ debug_verdict v @ '', not detected''))"

section \<open>Health\<close>

record health =
  h_scanner :: string
  h_ok :: bool
  h_detail :: string
  h_checked_at :: "unix_time option"

record scan_service =
  sv_check_every :: nat
  sv_health :: health

definition health_new :: "string \<Rightarrow> health" where
  "health_new describe = \<lparr> h_scanner = describe, h_ok = False, h_detail = ''not checked yet'',
                          h_checked_at = None \<rparr>"

text \<open>Two checks and ten minutes, in seconds; \<open>i64::try_from(...).unwrap_or(i64::MAX)\<close>.\<close>

definition fresh_secs :: "scan_service \<Rightarrow> int" where
  "fresh_secs sv = min (int (sv_check_every sv * 2 + 600)) (2 ^ 63 - 1)"

definition healthy :: "scan_service \<Rightarrow> unix_time \<Rightarrow> string + unit" where
  "healthy sv now =
     (let h = sv_health sv
      in case h_checked_at h of
           None \<Rightarrow> Err (h_detail h)
         | Some at \<Rightarrow>
             if \<not> h_ok h then Err (h_detail h)
             else if now - at > fresh_secs sv then Err ''the scanner has not been checked recently''
             else Ok ())"

text \<open>How the check's task ended: it answered, it panicked, or it did not answer in time.\<close>

datatype check_outcome = Answered "string + unit" | Panicked string | NoAnswer

definition check_health :: "scan_service \<Rightarrow> check_outcome \<Rightarrow> unix_time \<Rightarrow> scan_service" where
  "check_health sv out now =
     (let result = (case out of
                      Answered r \<Rightarrow> r
                    | Panicked e \<Rightarrow> Err (''the check failed: '' @ e)
                    | NoAnswer \<Rightarrow> Err ''the scanner did not answer in time'')
      in sv\<lparr>sv_health := (sv_health sv)\<lparr>
             h_ok := is_ok result,
             h_detail := (case result of
                            Ok _ \<Rightarrow> ''detects the EICAR test file and passes a harmless one''
                          | Err e \<Rightarrow> e),
             h_checked_at := Some now\<rparr>\<rparr>)"

definition transition :: "health \<Rightarrow> health \<Rightarrow> (string \<times> string) option" where
  "transition was now =
     (let was_failing = (h_checked_at was \<noteq> None \<and> \<not> h_ok was)
      in case (was_failing, h_ok now) of
           (False, False) \<Rightarrow> Some (''scan.failing'', h_detail now)
         | (True, True) \<Rightarrow> Some (''scan.restored'', h_scanner now)
         | _ \<Rightarrow> None)"

section \<open>Properties\<close>

text \<open>
  only an explicit answer lets a file through. AMSI says clean exactly when the call
  succeeded with one of the two values that mean it; the command scanner exactly when the program
  exited by itself with a code configured as clean; and a failed call, an unknown value, a failed,
  killed or late run is never a verdict.
\<close>

theorem clean_is_explicit:
  "(amsi_verdict hr result = Clean \<longleftrightarrow> hr = 0 \<and> (sint result = 0 \<or> sint result = 1)) \<and>
   (amsi_verdict hr result = Detected \<longleftrightarrow>
      hr = 0 \<and> (sint result \<ge> 0x8000 \<or> 0x4000 \<le> sint result \<and> sint result \<le> 0x4fff)) \<and>
   (command_verdict program clean detected out = Clean \<longleftrightarrow> (\<exists>n \<in> set clean. out = Exited (Some n))) \<and>
   (command_verdict program clean detected out = Detected \<longleftrightarrow>
      (\<exists>n \<in> set detected - set clean. out = Exited (Some n)))"
proof -
  have "amsi_verdict hr result = Clean \<longleftrightarrow> hr = 0 \<and> (sint result = 0 \<or> sint result = 1)"
    "amsi_verdict hr result = Detected \<longleftrightarrow>
      hr = 0 \<and> (sint result \<ge> 0x8000 \<or> 0x4000 \<le> sint result \<and> sint result \<le> 0x4fff)"
    by (auto simp: amsi_verdict_def amsi_defs Let_def)
  moreover have "command_verdict program clean detected out = Clean \<longleftrightarrow> (\<exists>n \<in> set clean. out = Exited (Some n))"
    "command_verdict program clean detected out = Detected \<longleftrightarrow>
      (\<exists>n \<in> set detected - set clean. out = Exited (Some n))"
    by (auto simp: command_verdict_def split: run_outcome.splits option.splits)
  ultimately show ?thesis by blast
qed

lemma scanner_check_Ok:
  "scanner_check scan = Ok () \<longleftrightarrow>
   scan ''web-access-check.com'' eicar = Detected \<and> scan ''web-access-check.txt'' harmless = Clean"
  by (auto simp: scanner_check_def split: verdict.splits)

text \<open>
  files are scanned only under a scanner that has proved itself lately. After a check, an
  offer may be scanned exactly when the check's task answered, the scanner detected the test file
  and passed the harmless one, and no more than two check intervals and ten minutes have gone by.
\<close>

theorem healthy_after_check:
  "healthy (check_health sv out now) later = Ok () \<longleftrightarrow>
     out = Answered (Ok ()) \<and> later - now \<le> fresh_secs sv"
  by (auto simp: healthy_def check_health_def fresh_secs_def Let_def is_ok_iff split: check_outcome.splits)

text \<open>
  a check proves the scanner answers both ways, and a service that was never checked accepts
  nothing.
\<close>

theorem check_proves_both_ways:
  "(healthy (check_health sv (Answered (scanner_check scan)) now) now = Ok () \<longleftrightarrow>
      scan ''web-access-check.com'' eicar = Detected \<and> scan ''web-access-check.txt'' harmless = Clean) \<and>
   (\<forall>t. healthy (sv\<lparr>sv_health := health_new d\<rparr>) t = Err ''not checked yet'')"
proof -
  have "healthy (check_health sv (Answered (scanner_check scan)) now) now = Ok () \<longleftrightarrow>
      scanner_check scan = Ok ()"
    by (auto simp: healthy_def check_health_def fresh_secs_def Let_def is_ok_iff)
  then show ?thesis by (simp add: scanner_check_Ok healthy_def health_new_def)
qed

end
