(* ===== verification/WA_Clip.thy ===== *)
theory WA_Clip
  imports WA_Route WA_Scanner WA_Text
begin

text \<open>
  The clipboard mediator of one session, \<open>src/src/scan/clip.rs\<close>: the whole state machine of
  \<open>Clip\<close>, one definition per method.

  The clipboard PDUs are the values IronRDP decodes; decoding them, reading a format list or a
  file list, and encoding PDUs are the library's, gathered in the record \<open>clip_lib\<close>, a parameter.
  What a method reads from outside its own state (the clock, the shared route, the scanner's
  standing, the file-size limit) is the record \<open>clip_env\<close>. Scans run as tasks of their own: the
  state lists the ones started (\<open>c_jobs\<close>), and each ends by handing its verdict back as an input.
  The staging counter is shared by all sessions; this session's view of it is \<open>c_held\<close>.

  An output is the bytes written, with the PDU they encode when they are the proxy's own, so that
  statements about what was sent can be made about PDUs. The generation counter is a natural
  number: it goes up once per offer and is a \<open>u64\<close> in the code.
\<close>

section \<open>PDUs and library functions\<close>

record file_descriptor =
  fd_attributes :: "32 word option"
  fd_last_write_time :: "64 word option"
  fd_file_size :: "64 word option"
  fd_name :: string
  fd_relative_path :: "string option"

record fc_request =
  rq_stream_id :: "32 word"
  rq_index :: int
  rq_flags :: "32 word"
  rq_position :: "64 word"
  rq_requested_size :: "32 word"
  rq_data_id :: "32 word option"

record fc_response =
  rs_is_error :: bool
  rs_stream_id :: "32 word"
  rs_data :: bytes

datatype clip_pdu =
    MonitorReady
  | FormatList bytes
  | FormatListResponse bool
  | FormatDataRequest "32 word"
  | FormatDataResponse bool bytes
  | TemporaryDirectory bytes
  | Capabilities "32 word" "32 word"
  | FileContentsRequest fc_request
  | FileContentsResponse fc_response
  | LockData "32 word"
  | UnlockData "32 word"

record clip_lib =
  pdu_decode :: "bytes \<Rightarrow> string + clip_pdu"
  get_formats :: "bytes \<Rightarrow> bool \<Rightarrow> string + (32 word \<times> string option) list"
  empty_format_list :: "bool \<Rightarrow> string + bytes"
  to_file_list :: "bytes \<Rightarrow> string + file_descriptor list"
  pdu_framing :: "clip_pdu mcs_codec"

definition FC_SIZE :: "32 word" where "FC_SIZE = 1"
definition FC_RANGE :: "32 word" where "FC_RANGE = 2"
definition ATTR_DIRECTORY :: "32 word" where "ATTR_DIRECTORY = 0x10"
definition USE_LONG_FORMAT_NAMES :: "32 word" where "USE_LONG_FORMAT_NAMES = 2"
definition CAN_LOCK_CLIPDATA :: "32 word" where "CAN_LOCK_CLIPDATA = 0x10"

definition le64_bytes :: "64 word \<Rightarrow> bytes" where
  "le64_bytes w = map (\<lambda>i. ucast (drop_bit (8 * i) w)) [0, 1, 2, 3, 4, 5, 6, 7]"

definition new_size_response :: "32 word \<Rightarrow> 64 word \<Rightarrow> fc_response" where
  "new_size_response stream n =
     \<lparr> rs_is_error = False, rs_stream_id = stream, rs_data = le64_bytes n \<rparr>"

definition new_data_response :: "32 word \<Rightarrow> bytes \<Rightarrow> fc_response" where
  "new_data_response stream data = \<lparr> rs_is_error = False, rs_stream_id = stream, rs_data = data \<rparr>"

definition new_error :: "32 word \<Rightarrow> fc_response" where
  "new_error stream = \<lparr> rs_is_error = True, rs_stream_id = stream, rs_data = [] \<rparr>"

section \<open>State\<close>

definition FILE_LIST :: string where "FILE_LIST = ''FileGroupDescriptorW''"
definition RANGE :: nat where "RANGE = 2 ^ 20"
definition ANSWER :: nat where "ANSWER = secs 30"
definition FIRST_STREAM :: "32 word" where "FIRST_STREAM = 0x57410000"

datatype dir = Upload | Download

type_synonym files = "(string \<times> 64 word) list"

datatype report = Started dir files | Passed dir files | Refused dir files string

datatype owner = Receiver | Proxy

datatype step =
    Descriptor
  | Contents bytes "file_descriptor list" "bytes list" nat "32 word"
  | Scanning bytes "file_descriptor list" "bytes list" "verdict option list"

record fetch =
  f_generation :: nat
  f_list :: "bytes list"
  f_file_list :: "32 word"
  f_step :: step
  f_deadline :: instant
  f_reservation :: "64 word option"

record offer =
  o_file_list :: "32 word"
  o_descriptor :: bytes
  o_data :: "bytes list"
  o_reservation :: "64 word option"

datatype phase = Idle | Fetching fetch | Offered offer

record direction =
  d_phase :: phase
  d_data_owed :: "owner list"
  d_lists_owed :: "owner list"

record scan_job =
  j_dir :: dir
  j_generation :: nat
  j_index :: nat
  j_name :: string
  j_bytes :: bytes

datatype payload = Encoded clip_pdu bytes | RawUnit bytes

datatype outgoing = ToClient payload | ToServer payload

record clip =
  c_up :: direction
  c_down :: direction
  c_long_server :: bool
  c_long_client :: bool
  c_generation :: nat
  c_next_stream :: "32 word"
  c_out :: "outgoing list"
  c_jobs :: "scan_job list"
  c_reports :: "report list"
  c_held :: "64 word"
  c_max :: "64 word"
  c_scan_timeout :: nat

record clip_env =
  env_now :: instant
  env_route :: route
  env_healthy :: "string + unit"
  env_limit :: "64 word option"

text \<open>
  \<open>ClipError::Route\<close> of a \<open>RouteError\<close>: one the clipboard's own decoding raises as
  \<open>RouteError::OutOfStep\<close> with the library's words, or one of the route's.
\<close>

datatype clip_error = ClipOutOfStep string | ClipRoute route_error

type_synonym result = "(clip_error + unit) \<times> clip"

datatype input =
    FromClient whole
  | FromServer whole
  | Scanned dir nat nat verdict

definition direction_new :: direction where
  "direction_new = \<lparr> d_phase = Idle, d_data_owed = [], d_lists_owed = [] \<rparr>"

definition clip_new :: "64 word \<Rightarrow> 64 word \<Rightarrow> nat \<Rightarrow> clip" where
  "clip_new held mx scan_timeout =
     \<lparr> c_up = direction_new, c_down = direction_new, c_long_server = True, c_long_client = True,
       c_generation = 0, c_next_stream = FIRST_STREAM, c_out = [], c_jobs = [], c_reports = [],
       c_held = held, c_max = mx, c_scan_timeout = scan_timeout \<rparr>"

definition file_size_or_0 :: "file_descriptor \<Rightarrow> 64 word" where
  "file_size_or_0 f = (case fd_file_size f of Some n \<Rightarrow> n | None \<Rightarrow> 0)"

definition files_of :: "file_descriptor list \<Rightarrow> files" where
  "files_of fs = map (\<lambda>f. (fd_name f, file_size_or_0 f)) fs"

fun dir_of :: "clip \<Rightarrow> dir \<Rightarrow> direction" where
  "dir_of c Upload = c_up c"
| "dir_of c Download = c_down c"

fun set_dir :: "dir \<Rightarrow> direction \<Rightarrow> clip \<Rightarrow> clip" where
  "set_dir Upload d c = c\<lparr>c_up := d\<rparr>"
| "set_dir Download d c = c\<lparr>c_down := d\<rparr>"

definition set_phase :: "dir \<Rightarrow> phase \<Rightarrow> clip \<Rightarrow> clip" where
  "set_phase d ph c = set_dir d ((dir_of c d)\<lparr>d_phase := ph\<rparr>) c"

definition owe_data :: "dir \<Rightarrow> owner \<Rightarrow> clip \<Rightarrow> clip" where
  "owe_data d w c = set_dir d ((dir_of c d)\<lparr>d_data_owed := d_data_owed (dir_of c d) @ [w]\<rparr>) c"

definition owe_list :: "dir \<Rightarrow> owner \<Rightarrow> clip \<Rightarrow> clip" where
  "owe_list d w c = set_dir d ((dir_of c d)\<lparr>d_lists_owed := d_lists_owed (dir_of c d) @ [w]\<rparr>) c"

definition long_names :: "clip \<Rightarrow> bool" where
  "long_names c \<longleftrightarrow> c_long_server c \<and> c_long_client c"

definition report_to :: "report \<Rightarrow> clip \<Rightarrow> clip" where
  "report_to r c = c\<lparr>c_reports := c_reports c @ [r]\<rparr>"

section \<open>Staging\<close>

text \<open>
  \<open>Staging::reserve\<close>: the checked addition, the limit, and the update, which the compare-exchange
  loop makes one step. Dropping a \<open>Reservation\<close> subtracts what it holds.
\<close>

definition reserve :: "64 word \<Rightarrow> 64 word \<Rightarrow> 64 word \<Rightarrow> 64 word option" where
  "reserve held mx n =
     (if unat held + unat n < 2 ^ 64 \<and> held + n \<le> mx then Some (held + n) else None)"

definition release :: "64 word option \<Rightarrow> clip \<Rightarrow> clip" where
  "release r c = (case r of None \<Rightarrow> c | Some n \<Rightarrow> c\<lparr>c_held := c_held c - n\<rparr>)"

fun phase_reservation :: "phase \<Rightarrow> 64 word option" where
  "phase_reservation Idle = None"
| "phase_reservation (Fetching f) = f_reservation f"
| "phase_reservation (Offered q) = o_reservation q"

text \<open>\<open>self.direction(dir).phase = Phase::Idle\<close>, which drops the reservation the phase held.\<close>

definition drop_phase :: "dir \<Rightarrow> clip \<Rightarrow> clip" where
  "drop_phase d c = release (phase_reservation (d_phase (dir_of c d))) (set_phase d Idle c)"

section \<open>Writing\<close>

definition send :: "clip_lib \<Rightarrow> clip_env \<Rightarrow> bool \<Rightarrow> clip_pdu \<Rightarrow> clip \<Rightarrow> result" where
  "send lib env to_cl pdu c =
     (case (if to_cl then to_client (pdu_framing lib) (env_route env) pdu
            else to_server (pdu_framing lib) (env_route env) pdu) of
        Err e \<Rightarrow> (Err (ClipRoute e), c)
      | Ok b \<Rightarrow>
          (Ok (), c\<lparr>c_out := c_out c @ [(if to_cl then ToClient else ToServer) (Encoded pdu b)]\<rparr>))"

definition send_sender :: "clip_lib \<Rightarrow> clip_env \<Rightarrow> dir \<Rightarrow> clip_pdu \<Rightarrow> clip \<Rightarrow> result" where
  "send_sender lib env d pdu c = send lib env (d = Upload) pdu c"

definition send_receiver :: "clip_lib \<Rightarrow> clip_env \<Rightarrow> dir \<Rightarrow> clip_pdu \<Rightarrow> clip \<Rightarrow> result" where
  "send_receiver lib env d pdu c = send lib env (d = Download) pdu c"

definition pass :: "bool \<Rightarrow> bytes list \<Rightarrow> clip \<Rightarrow> clip" where
  "pass from_cl us c =
     c\<lparr>c_out := c_out c @ map (\<lambda>u. (if from_cl then ToServer else ToClient) (RawUnit u)) us\<rparr>"

text \<open>The \<open>?\<close> operator: go on with the state unless the step failed.\<close>

definition clip_then :: "result \<Rightarrow> (clip \<Rightarrow> result) \<Rightarrow> result" where
  "clip_then r k = (case r of (Err e, c) \<Rightarrow> (Err e, c) | (Ok _, c) \<Rightarrow> k c)"

section \<open>Refusals\<close>

definition clear_receiver :: "clip_lib \<Rightarrow> clip_env \<Rightarrow> dir \<Rightarrow> clip \<Rightarrow> result" where
  "clear_receiver lib env d c =
     (let c1 = owe_list d Proxy (drop_phase d c)
      in case empty_format_list lib (long_names c1) of
           Err e \<Rightarrow> (Err (ClipOutOfStep e), c1)
         | Ok l \<Rightarrow> send_receiver lib env d (FormatList l) c1)"

definition refuse :: "clip_lib \<Rightarrow> clip_env \<Rightarrow> dir \<Rightarrow> string \<Rightarrow> clip \<Rightarrow> result" where
  "refuse lib env d reason c =
     (let fs = (case d_phase (dir_of c d) of
                  Fetching f \<Rightarrow>
                    (case f_step f of
                       Contents _ files _ _ _ \<Rightarrow> files_of files
                     | Scanning _ files _ _ \<Rightarrow> files_of files
                     | Descriptor \<Rightarrow> [])
                | _ \<Rightarrow> [])
      in clear_receiver lib env d (report_to (Refused d fs reason) c))"

definition refuse_files ::
  "clip_lib \<Rightarrow> clip_env \<Rightarrow> dir \<Rightarrow> file_descriptor list \<Rightarrow> string \<Rightarrow> clip \<Rightarrow> result" where
  "refuse_files lib env d files reason c =
     clear_receiver lib env d (report_to (Refused d (files_of files) reason) c)"

definition expire_one :: "clip_lib \<Rightarrow> clip_env \<Rightarrow> dir \<Rightarrow> clip \<Rightarrow> result" where
  "expire_one lib env d c =
     (case d_phase (dir_of c d) of
        Fetching f \<Rightarrow>
          if f_deadline f \<le> env_now env
          then refuse lib env d ''the sender or the scanner took too long'' c
          else (Ok (), c)
      | _ \<Rightarrow> (Ok (), c))"

definition expire_at :: "clip_lib \<Rightarrow> clip_env \<Rightarrow> clip \<Rightarrow> result" where
  "expire_at lib env c = clip_then (expire_one lib env Upload c) (expire_one lib env Download)"

definition clip_deadline :: "clip \<Rightarrow> instant option" where
  "clip_deadline c =
     (case List.map_filter (\<lambda>d. case d_phase d of Fetching f \<Rightarrow> Some (f_deadline f) | _ \<Rightarrow> None)
             [c_up c, c_down c] of
        [] \<Rightarrow> None
      | t # ts \<Rightarrow> Some (fold min ts t))"

section \<open>Reading\<close>

definition file_list_format :: "(32 word \<times> string option) list \<Rightarrow> 32 word option" where
  "file_list_format formats = map_option fst (List.find (\<lambda>f. snd f = Some FILE_LIST) formats)"

definition formats_of :: "clip_lib \<Rightarrow> clip \<Rightarrow> bytes \<Rightarrow> (32 word \<times> string option) list" where
  "formats_of lib c l = (case get_formats lib l (long_names c) of Ok fs \<Rightarrow> fs | Err _ \<Rightarrow> [])"

definition format_list :: "clip_lib \<Rightarrow> clip_env \<Rightarrow> dir \<Rightarrow> bytes \<Rightarrow> whole \<Rightarrow> clip \<Rightarrow> result" where
  "format_list lib env d l w c0 =
     (let c = drop_phase d c0
      in case file_list_format (formats_of lib c l) of
           None \<Rightarrow> (Ok (), pass (d = Upload) (w_units w) (owe_list d Receiver c))
         | Some fl \<Rightarrow>
             clip_then (send_sender lib env d (FormatListResponse True) c) (\<lambda>c.
               case env_healthy env of
                 Err why \<Rightarrow>
                   clear_receiver lib env d
                     (report_to (Refused d [] (''the scanner is not answering: '' @ why)) c)
               | Ok _ \<Rightarrow>
                   (let gen = c_generation c + 1;
                        c1 = set_phase d (Fetching \<lparr> f_generation = gen, f_list = w_units w,
                               f_file_list = fl, f_step = Descriptor,
                               f_deadline = env_now env + ANSWER, f_reservation = None \<rparr>)
                               (c\<lparr>c_generation := gen\<rparr>)
                    in send_sender lib env d (FormatDataRequest fl) (owe_data d Proxy c1))))"

definition data_request :: "clip_lib \<Rightarrow> clip_env \<Rightarrow> dir \<Rightarrow> 32 word \<Rightarrow> bool \<Rightarrow> whole \<Rightarrow> clip \<Rightarrow> result" where
  "data_request lib env d fmt from_cl w c =
     (let answer = (case d_phase (dir_of c d) of
                      Offered q \<Rightarrow> if o_file_list q = fmt then Some (FormatDataResponse False (o_descriptor q))
                                   else None
                    | Fetching _ \<Rightarrow> Some (FormatDataResponse True [])
                    | Idle \<Rightarrow> None)
      in case answer of
           Some a \<Rightarrow> send_receiver lib env d a c
         | None \<Rightarrow> (Ok (), pass from_cl (w_units w) (owe_data d Receiver c)))"

definition contents_answer :: "phase \<Rightarrow> fc_request \<Rightarrow> fc_response option" where
  "contents_answer ph req =
     (case ph of
        Offered q \<Rightarrow>
          (if rq_index req < 0 \<or> nat (rq_index req) \<ge> length (o_data q) then None
           else
             (let file = o_data q ! nat (rq_index req)
              in if rq_flags req AND FC_SIZE = FC_SIZE
                 then Some (new_size_response (rq_stream_id req) (of_nat (length file)))
                 else
                   (let start = min (unat (rq_position req)) (length file);
                        stop = min (start + unat (rq_requested_size req)) (length file)
                    in Some (new_data_response (rq_stream_id req) (take (stop - start) (drop start file))))))
      | _ \<Rightarrow> None)"

definition contents_request :: "clip_lib \<Rightarrow> clip_env \<Rightarrow> dir \<Rightarrow> fc_request \<Rightarrow> clip \<Rightarrow> result" where
  "contents_request lib env d req c =
     send_receiver lib env d
       (FileContentsResponse
          (case contents_answer (d_phase (dir_of c d)) req of
             Some a \<Rightarrow> a | None \<Rightarrow> new_error (rq_stream_id req))) c"

definition next_stream :: "clip \<Rightarrow> 32 word \<times> clip" where
  "next_stream c = (c_next_stream c, c\<lparr>c_next_stream := max (c_next_stream c + 1) FIRST_STREAM\<rparr>)"

text \<open>\<open>file_size - data.len() as u64\<close>, at its width.\<close>

definition missing :: "file_descriptor \<Rightarrow> bytes \<Rightarrow> 64 word" where
  "missing f b = file_size_or_0 f - of_nat (length b)"

text \<open>The \<open>while\<close> of \<open>fetch_next\<close>: past every file whose bytes are all in.\<close>

function skip_full :: "file_descriptor list \<Rightarrow> bytes list \<Rightarrow> nat \<Rightarrow> nat" where
  "skip_full files data i =
     (if i < length files \<and> length (data ! i) \<ge> unat (file_size_or_0 (files ! i))
      then skip_full files data (i + 1) else i)"
  by pat_completeness auto
termination by (relation "measure (\<lambda>(files, data, i). length files - i)") auto

declare skip_full.simps [simp del]

definition range_request :: "file_descriptor list \<Rightarrow> bytes list \<Rightarrow> nat \<Rightarrow> 32 word \<Rightarrow> fc_request" where
  "range_request files data i stream =
     \<lparr> rq_stream_id = stream, rq_index = (if i < 2 ^ 31 then int i else 2 ^ 31 - 1),
       rq_flags = FC_RANGE, rq_position = of_nat (length (data ! i)),
       rq_requested_size = of_nat (min (unat (missing (files ! i) (data ! i))) RANGE),
       rq_data_id = None \<rparr>"

fun jobs_from :: "dir \<Rightarrow> nat \<Rightarrow> nat \<Rightarrow> file_descriptor list \<Rightarrow> bytes list \<Rightarrow> scan_job list" where
  "jobs_from d gen i (f # fs) (b # bs) =
     \<lparr> j_dir = d, j_generation = gen, j_index = i, j_name = fd_name f, j_bytes = b \<rparr>
     # jobs_from d gen (i + 1) fs bs"
| "jobs_from d gen i _ _ = []"

definition fetch_next :: "clip_lib \<Rightarrow> clip_env \<Rightarrow> dir \<Rightarrow> clip \<Rightarrow> result" where
  "fetch_next lib env d c =
     (case d_phase (dir_of c d) of
        Fetching f \<Rightarrow>
          (case f_step f of
             Contents descriptor files data index stream \<Rightarrow>
               (let i = skip_full files data index
                in if i < length files
                   then send_sender lib env d (FileContentsRequest (range_request files data i stream))
                          (set_phase d (Fetching (f\<lparr>f_step := Contents descriptor files data i stream,
                                                     f_deadline := env_now env + ANSWER\<rparr>)) c)
                   else
                     (Ok (),
                      set_phase d (Fetching (f\<lparr>
                          f_step := Scanning descriptor files data (replicate (length files) None),
                          f_deadline := env_now env + c_scan_timeout c + ANSWER\<rparr>))
                        (c\<lparr>c_jobs := c_jobs c @ jobs_from d (f_generation f) 0 files data\<rparr>)))
           | _ \<Rightarrow> (Ok (), c))
      | _ \<Rightarrow> (Ok (), c))"

definition is_folder :: "file_descriptor \<Rightarrow> bool" where
  "is_folder f \<longleftrightarrow> fd_relative_path f \<noteq> None \<or>
     (case fd_attributes f of None \<Rightarrow> False | Some a \<Rightarrow> a AND ATTR_DIRECTORY = ATTR_DIRECTORY)"

text \<open>The sizes as \<open>u64\<close>, and their sum, which wraps in a build without overflow checks.\<close>

definition sizes_of :: "file_descriptor list \<Rightarrow> 64 word list" where
  "sizes_of files = map file_size_or_0 files"

definition total_of :: "file_descriptor list \<Rightarrow> 64 word" where
  "total_of files = sum_list (sizes_of files)"

text \<open>Why an offer is refused before any of it is fetched, if it is.\<close>

definition offer_refusal :: "64 word option \<Rightarrow> file_descriptor list \<Rightarrow> string option" where
  "offer_refusal limit files =
     (if \<exists>f \<in> set files. is_folder f then Some ''folders are not transferred''
      else if \<exists>f \<in> set files. fd_file_size f = None then Some ''a file came without its size''
      else case limit of
             Some n \<Rightarrow> if \<exists>z \<in> set (sizes_of files). z > n then Some ''larger than the file-size limit''
                       else None
           | None \<Rightarrow> None)"

definition start_fetch ::
  "clip_lib \<Rightarrow> clip_env \<Rightarrow> dir \<Rightarrow> fetch \<Rightarrow> bytes \<Rightarrow> file_descriptor list \<Rightarrow> clip \<Rightarrow> result" where
  "start_fetch lib env d f desc files c =
     (case reserve (c_held c) (c_max c) (total_of files) of
        None \<Rightarrow> refuse_files lib env d files ''too much is being scanned at once'' c
      | Some held \<Rightarrow>
          (let c1 = report_to (Started d (files_of files)) (c\<lparr>c_held := held\<rparr>);
               (stream, c2) = next_stream c1
           in fetch_next lib env d
                (set_phase d (Fetching (f\<lparr>f_reservation := Some (total_of files),
                   f_step := Contents desc files (map (\<lambda>_. []) files) 0 stream\<rparr>)) c2)))"

definition descriptor :: "clip_lib \<Rightarrow> clip_env \<Rightarrow> dir \<Rightarrow> bool \<Rightarrow> bytes \<Rightarrow> clip \<Rightarrow> result" where
  "descriptor lib env d is_error data c =
     (case d_phase (dir_of c d) of
        Fetching f \<Rightarrow>
          (if f_step f \<noteq> Descriptor then (Ok (), c)
           else if is_error then refuse lib env d ''the sender did not list its files'' c
           else case to_file_list lib data of
             Err _ \<Rightarrow> refuse lib env d (''the sender'' @ [CHR 0x27] @ ''s file list could not be read'') c
           | Ok files \<Rightarrow>
               (if files = [] then refuse lib env d ''the offer holds no files'' c
                else case offer_refusal (env_limit env) files of
                  Some reason \<Rightarrow> refuse_files lib env d files reason c
                | None \<Rightarrow> start_fetch lib env d f data files c))
      | _ \<Rightarrow> (Ok (), c))"

definition contents :: "clip_lib \<Rightarrow> clip_env \<Rightarrow> dir \<Rightarrow> fc_response \<Rightarrow> clip \<Rightarrow> result" where
  "contents lib env d resp c0 =
     (let (fresh, c) = next_stream c0
      in case d_phase (dir_of c d) of
           Fetching f \<Rightarrow>
             (case f_step f of
                Contents desc files data i stream \<Rightarrow>
                  (if rs_stream_id resp \<noteq> stream then (Ok (), c)
                   else if rs_is_error resp
                   then refuse lib env d ''the sender stopped sending a file'' c
                   else
                     (let got = rs_data resp;
                          room = unat (missing (files ! i) (data ! i))
                      in if got = [] \<or> length got > min room RANGE
                         then refuse lib env d ''the sender sent a file that does not match its size'' c
                         else fetch_next lib env d
                                (set_phase d (Fetching (f\<lparr>f_step :=
                                   Contents desc files (data[i := data ! i @ got]) i fresh\<rparr>)) c)))
              | _ \<Rightarrow> (Ok (), c))
         | _ \<Rightarrow> (Ok (), c))"

section \<open>Verdicts\<close>

definition refusal_of :: "file_descriptor \<Rightarrow> verdict option \<Rightarrow> string option" where
  "refusal_of f v =
     (case v of
        Some Clean \<Rightarrow> None
      | Some Detected \<Rightarrow> Some (fd_name f @ '': malware detected'')
      | Some (Unavailable why) \<Rightarrow> Some (fd_name f @ '': not scanned ('' @ why @ '')'')
      | None \<Rightarrow> Some (fd_name f @ '': not scanned''))"

definition scanned :: "clip_lib \<Rightarrow> clip_env \<Rightarrow> dir \<Rightarrow> nat \<Rightarrow> nat \<Rightarrow> verdict \<Rightarrow> clip \<Rightarrow> result" where
  "scanned lib env d gen index v c =
     (case d_phase (dir_of c d) of
        Fetching f \<Rightarrow>
          (if f_generation f \<noteq> gen then (Ok (), c)
           else case f_step f of
             Scanning desc files data verdicts \<Rightarrow>
               (let vs = (if index < length verdicts then verdicts[index := Some v] else verdicts)
                in if None \<in> set vs
                   then (Ok (), set_phase d (Fetching (f\<lparr>f_step := Scanning desc files data vs\<rparr>)) c)
                   else
                     (let refused = List.map_filter (\<lambda>(file, v). refusal_of file v) (zip files vs)
                      in if refused \<noteq> []
                         then clear_receiver lib env d
                                (report_to (Refused d (files_of files) (join ''; '' refused)) c)
                         else
                           (Ok (),
                            pass (d = Upload) (f_list f)
                              (owe_list d Proxy
                                (set_phase d (Offered \<lparr> o_file_list = f_file_list f, o_descriptor = desc,
                                    o_data = data, o_reservation = f_reservation f \<rparr>)
                                  (report_to (Passed d (files_of files)) c))))))
           | _ \<Rightarrow> (Ok (), c))
      | _ \<Rightarrow> (Ok (), c))"

section \<open>Inputs\<close>

definition take_pdu :: "clip_lib \<Rightarrow> clip_env \<Rightarrow> bool \<Rightarrow> whole \<Rightarrow> clip \<Rightarrow> result" where
  "take_pdu lib env from_cl w c =
     (let sending = (if from_cl then Upload else Download);
          receiving = (if from_cl then Download else Upload)
      in case pdu_decode lib (w_pdu w) of
           Err e \<Rightarrow> (Err (ClipOutOfStep e), c)
         | Ok pdu \<Rightarrow>
             (case pdu of
                Capabilities version flags \<Rightarrow>
                  (let long = (flags AND USE_LONG_FORMAT_NAMES = USE_LONG_FORMAT_NAMES);
                       c1 = (if from_cl then c\<lparr>c_long_client := long\<rparr> else c\<lparr>c_long_server := long\<rparr>)
                   in send lib env (\<not> from_cl) (Capabilities version (flags AND NOT CAN_LOCK_CLIPDATA)) c1)
              | FormatList l \<Rightarrow> format_list lib env sending l w c
              | FormatListResponse _ \<Rightarrow>
                  (let dr = dir_of c receiving
                   in case d_lists_owed dr of
                        Proxy # rest \<Rightarrow> (Ok (), set_dir receiving (dr\<lparr>d_lists_owed := rest\<rparr>) c)
                      | ws \<Rightarrow> (Ok (), pass from_cl (w_units w)
                                (set_dir receiving (dr\<lparr>d_lists_owed := tl ws\<rparr>) c)))
              | FormatDataRequest fmt \<Rightarrow> data_request lib env receiving fmt from_cl w c
              | FormatDataResponse is_error data \<Rightarrow>
                  (let dr = dir_of c sending
                   in case d_data_owed dr of
                        Proxy # rest \<Rightarrow>
                          descriptor lib env sending is_error data
                            (set_dir sending (dr\<lparr>d_data_owed := rest\<rparr>) c)
                      | ws \<Rightarrow> (Ok (), pass from_cl (w_units w)
                                (set_dir sending (dr\<lparr>d_data_owed := tl ws\<rparr>) c)))
              | FileContentsRequest req \<Rightarrow> contents_request lib env receiving req c
              | FileContentsResponse resp \<Rightarrow> contents lib env sending resp c
              | LockData _ \<Rightarrow> (Ok (), c)
              | UnlockData _ \<Rightarrow> (Ok (), c)
              | MonitorReady \<Rightarrow> (Ok (), pass from_cl (w_units w) c)
              | TemporaryDirectory _ \<Rightarrow> (Ok (), pass from_cl (w_units w) c)))"

definition handle :: "clip_lib \<Rightarrow> clip_env \<Rightarrow> input \<Rightarrow> clip \<Rightarrow> result" where
  "handle lib env i c =
     (case i of
        FromClient w \<Rightarrow> take_pdu lib env True w c
      | FromServer w \<Rightarrow> take_pdu lib env False w c
      | Scanned d gen index v \<Rightarrow> scanned lib env d gen index v c)"

end
