(* ===== verification/WA_Clip_Laws.thy ===== *)
theory WA_Clip_Laws
  imports WA_Clip
begin

text \<open>
  The invariant of the clipboard mediator and that every method of it keeps it.

  \<open>says name bytes v\<close> stands for the scanner: whether a scan of those bytes under that name can
  end with that verdict. \<open>seen\<close> is the history of PDUs taken from the two sides, each with the
  side it came from and whether long format names were in use when it was read.
\<close>

type_synonym scans = "string \<Rightarrow> bytes \<Rightarrow> verdict \<Rightarrow> bool"
type_synonym history = "(bool \<times> whole \<times> bool) list"

section \<open>The invariant\<close>

text \<open>
  A descriptor and the bytes of its files: each file is as long as the descriptor says, and the
  scanner called exactly these bytes clean.
\<close>

definition clean_offer :: "clip_lib \<Rightarrow> scans \<Rightarrow> bytes \<Rightarrow> bytes list \<Rightarrow> bool" where
  "clean_offer lib says desc data \<longleftrightarrow>
     (\<exists>files. to_file_list lib desc = Ok files \<and> length data = length files \<and>
        (\<forall>k < length files. length (data ! k) = unat (file_size_or_0 (files ! k)) \<and>
                           says (fd_name (files ! k)) (data ! k) Clean))"

definition served_ok :: "clip_lib \<Rightarrow> scans \<Rightarrow> fc_response \<Rightarrow> bool" where
  "served_ok lib says r \<longleftrightarrow>
     (rs_is_error r \<and> rs_data r = []) \<or>
     (\<exists>desc data k. clean_offer lib says desc data \<and> k < length data \<and>
        (rs_data r = le64_bytes (of_nat (length (data ! k))) \<or>
         (\<exists>a n. rs_data r = take n (drop a (data ! k)))))"

text \<open>What may be passed on as it arrived.\<close>

definition raw_ok :: "clip_lib \<Rightarrow> scans \<Rightarrow> history \<Rightarrow> bool \<Rightarrow> bytes \<Rightarrow> bool" where
  "raw_ok lib says seen from_cl u \<longleftrightarrow>
     (\<exists>w long pdu. (from_cl, w, long) \<in> set seen \<and> u \<in> set (w_units w) \<and> pdu_decode lib (w_pdu w) = Ok pdu \<and>
        (case pdu of
           FormatList l \<Rightarrow>
             (case get_formats lib l long of Ok fs \<Rightarrow> file_list_format fs = None | Err _ \<Rightarrow> True) \<or>
             (\<exists>desc data. clean_offer lib says desc data)
         | FormatListResponse _ \<Rightarrow> True | FormatDataRequest _ \<Rightarrow> True | FormatDataResponse _ _ \<Rightarrow> True
         | MonitorReady \<Rightarrow> True | TemporaryDirectory _ \<Rightarrow> True
         | _ \<Rightarrow> False))"

definition encoded_ok :: "clip_lib \<Rightarrow> scans \<Rightarrow> clip_pdu \<Rightarrow> bool" where
  "encoded_ok lib says pdu =
     (case pdu of
        FileContentsResponse r \<Rightarrow> served_ok lib says r
      | FormatDataResponse is_error desc \<Rightarrow>
          (is_error \<and> desc = []) \<or> (\<exists>data. clean_offer lib says desc data)
      | FormatList l \<Rightarrow> \<exists>long. empty_format_list lib long = Ok l
      | FileContentsRequest q \<Rightarrow>
          rq_flags q = FC_RANGE \<and> rq_requested_size q \<noteq> 0 \<and> unat (rq_requested_size q) \<le> RANGE
      | Capabilities _ flags \<Rightarrow> flags AND CAN_LOCK_CLIPDATA = 0
      | FormatListResponse ok \<Rightarrow> ok
      | FormatDataRequest _ \<Rightarrow> True
      | _ \<Rightarrow> False)"

fun out_ok :: "clip_lib \<Rightarrow> scans \<Rightarrow> history \<Rightarrow> outgoing \<Rightarrow> bool" where
  "out_ok lib says seen (ToClient (Encoded pdu _)) = encoded_ok lib says pdu"
| "out_ok lib says seen (ToServer (Encoded pdu _)) = encoded_ok lib says pdu"
| "out_ok lib says seen (ToServer (RawUnit u)) = raw_ok lib says seen True u"
| "out_ok lib says seen (ToClient (RawUnit u)) = raw_ok lib says seen False u"

text \<open>The jobs an offer has started.\<close>

definition jobs_of :: "dir \<Rightarrow> nat \<Rightarrow> scan_job list \<Rightarrow> scan_job set" where
  "jobs_of d gen js = {j \<in> set js. j_dir j = d \<and> j_generation j = gen}"

text \<open>Every file before \<open>i\<close> is complete and none has more bytes than it should.\<close>

definition fetched :: "file_descriptor list \<Rightarrow> bytes list \<Rightarrow> nat \<Rightarrow> bool" where
  "fetched files data i \<longleftrightarrow>
     length data = length files \<and> i \<le> length files \<and>
     (\<forall>k < i. length (data ! k) = unat (file_size_or_0 (files ! k))) \<and>
     (\<forall>k < length files. length (data ! k) \<le> unat (file_size_or_0 (files ! k)))"

fun step_ok :: "clip_lib \<Rightarrow> scans \<Rightarrow> scan_job set \<Rightarrow> step \<Rightarrow> bool" where
  "step_ok lib says js Descriptor \<longleftrightarrow> js = {}"
| "step_ok lib says js (Contents desc files data i stream) \<longleftrightarrow>
     js = {} \<and> to_file_list lib desc = Ok files \<and> fetched files data i \<and> i < length files \<and>
     length (data ! i) < unat (file_size_or_0 (files ! i))"
| "step_ok lib says js (Scanning desc files data vs) \<longleftrightarrow>
     to_file_list lib desc = Ok files \<and> fetched files data (length files) \<and>
     length vs = length files \<and>
     (\<forall>j \<in> js. j_index j < length files \<and> j_name j = fd_name (files ! j_index j) \<and>
               j_bytes j = data ! j_index j) \<and>
     (\<forall>k < length files. vs ! k = Some Clean \<longrightarrow> says (fd_name (files ! k)) (data ! k) Clean)"

definition list_seen :: "clip_lib \<Rightarrow> history \<Rightarrow> dir \<Rightarrow> bytes list \<Rightarrow> bool" where
  "list_seen lib seen d us \<longleftrightarrow>
     (\<exists>w long l. (d = Upload, w, long) \<in> set seen \<and> us = w_units w \<and> pdu_decode lib (w_pdu w) = Ok (FormatList l))"

fun phase_ok :: "clip_lib \<Rightarrow> scans \<Rightarrow> history \<Rightarrow> scan_job list \<Rightarrow> nat \<Rightarrow> dir \<Rightarrow> phase \<Rightarrow> bool" where
  "phase_ok lib says seen js gen d Idle = True"
| "phase_ok lib says seen js gen d (Fetching f) \<longleftrightarrow>
     f_generation f \<le> gen \<and> list_seen lib seen d (f_list f) \<and>
     step_ok lib says (jobs_of d (f_generation f) js) (f_step f)"
| "phase_ok lib says seen js gen d (Offered q) = clean_offer lib says (o_descriptor q) (o_data q)"

definition clip_inv :: "clip_lib \<Rightarrow> scans \<Rightarrow> history \<Rightarrow> clip \<Rightarrow> bool" where
  "clip_inv lib says seen c \<longleftrightarrow>
     (\<forall>d. phase_ok lib says seen (c_jobs c) (c_generation c) d (d_phase (dir_of c d))) \<and>
     (\<forall>j \<in> set (c_jobs c). j_generation j \<le> c_generation c) \<and>
     (\<forall>x \<in> set (c_out c). out_ok lib says seen x)"

section \<open>Frame facts\<close>

lemma dir_of_set_dir [simp]: "dir_of (set_dir d x c) e = (if d = e then x else dir_of c e)"
  by (cases d; cases e) auto

lemma set_dir_fields [simp]:
  "c_jobs (set_dir d x c) = c_jobs c" "c_generation (set_dir d x c) = c_generation c"
  "c_out (set_dir d x c) = c_out c" "c_held (set_dir d x c) = c_held c"
  "c_max (set_dir d x c) = c_max c" "c_reports (set_dir d x c) = c_reports c"
  "c_next_stream (set_dir d x c) = c_next_stream c"
  "c_scan_timeout (set_dir d x c) = c_scan_timeout c"
  "c_long_server (set_dir d x c) = c_long_server c" "c_long_client (set_dir d x c) = c_long_client c"
  by (cases d; simp)+

lemma dir_of_update [simp]:
  "dir_of (c\<lparr>c_out := a\<rparr>) d = dir_of c d" "dir_of (c\<lparr>c_jobs := b\<rparr>) d = dir_of c d"
  "dir_of (c\<lparr>c_generation := n\<rparr>) d = dir_of c d" "dir_of (c\<lparr>c_held := h\<rparr>) d = dir_of c d"
  "dir_of (c\<lparr>c_reports := r\<rparr>) d = dir_of c d" "dir_of (c\<lparr>c_next_stream := s\<rparr>) d = dir_of c d"
  "dir_of (c\<lparr>c_long_client := l\<rparr>) d = dir_of c d" "dir_of (c\<lparr>c_long_server := l\<rparr>) d = dir_of c d"
  by (cases d; simp)+

lemma release_fields [simp]:
  "dir_of (release r c) d = dir_of c d" "c_jobs (release r c) = c_jobs c"
  "c_generation (release r c) = c_generation c" "c_out (release r c) = c_out c"
  by (auto simp: release_def split: option.splits)

text \<open>What each small update leaves of what the invariant reads.\<close>

definition same_core :: "clip \<Rightarrow> clip \<Rightarrow> bool" where
  "same_core c c' \<longleftrightarrow> c_jobs c' = c_jobs c \<and> c_generation c' = c_generation c \<and> c_out c' = c_out c \<and>
     (\<forall>d. d_phase (dir_of c' d) = d_phase (dir_of c d))"

lemma same_core_inv: "same_core c c' \<Longrightarrow> clip_inv lib says seen c' = clip_inv lib says seen c"
  by (simp add: same_core_def clip_inv_def)

lemma all_dir: "(\<forall>d. P d) \<longleftrightarrow> P Upload \<and> P Download"
  by (metis dir.exhaust)

lemma same_core_intros [intro!, simp]:
  "same_core c (owe_data d w c)" "same_core c (owe_list d w c)" "same_core c (report_to r c)"
  "same_core c (c\<lparr>c_next_stream := s\<rparr>)" "same_core c (c\<lparr>c_held := h\<rparr>)"
  "same_core c (c\<lparr>c_long_client := l\<rparr>)" "same_core c (c\<lparr>c_long_server := l\<rparr>)"
  "same_core c (snd (next_stream c))"
  "same_core c (c\<lparr>c_up := (c_up c)\<lparr>d_lists_owed := ws\<rparr>\<rparr>)"
  "same_core c (c\<lparr>c_up := (c_up c)\<lparr>d_data_owed := ws\<rparr>\<rparr>)"
  "same_core c (c\<lparr>c_down := (c_down c)\<lparr>d_lists_owed := ws\<rparr>\<rparr>)"
  "same_core c (c\<lparr>c_down := (c_down c)\<lparr>d_data_owed := ws\<rparr>\<rparr>)"
  by (auto simp: same_core_def owe_data_def owe_list_def report_to_def next_stream_def all_dir)

lemmas inv_frame [simp] = same_core_intros [THEN same_core_inv]

lemma phase_frame [simp]:
  "d_phase (dir_of (owe_data d w c) e) = d_phase (dir_of c e)"
  "d_phase (dir_of (owe_list d w c) e) = d_phase (dir_of c e)"
  "d_phase (dir_of (report_to r c) e) = d_phase (dir_of c e)"
  by (auto simp: owe_data_def owe_list_def report_to_def)

lemma core_frame [simp]:
  "c_jobs (owe_data d w c) = c_jobs c" "c_jobs (owe_list d w c) = c_jobs c"
  "c_jobs (report_to r c) = c_jobs c" "c_jobs (set_phase d p c) = c_jobs c"
  "c_generation (owe_data d w c) = c_generation c" "c_generation (owe_list d w c) = c_generation c"
  "c_generation (report_to r c) = c_generation c" "c_generation (set_phase d p c) = c_generation c"
  "c_out (owe_data d w c) = c_out c" "c_out (owe_list d w c) = c_out c"
  "c_out (report_to r c) = c_out c" "c_out (set_phase d p c) = c_out c"
  by (auto simp: owe_data_def owe_list_def report_to_def set_phase_def)

lemma d_phase_set_phase [simp]:
  "d_phase (dir_of (set_phase d p c) e) = (if d = e then p else d_phase (dir_of c e))"
  by (auto simp: set_phase_def)

section \<open>Preservation: the building blocks\<close>

lemma inv_phase:
  assumes "clip_inv lib says seen c"
  shows "phase_ok lib says seen (c_jobs c) (c_generation c) d (d_phase (dir_of c d))"
  using assms by (simp add: clip_inv_def)

lemma inv_set_phase:
  assumes "clip_inv lib says seen c"
    and "phase_ok lib says seen (c_jobs c) (c_generation c) d p"
  shows "clip_inv lib says seen (set_phase d p c)"
  using assms by (simp add: clip_inv_def)

lemma inv_drop_phase: "clip_inv lib says seen c \<Longrightarrow> clip_inv lib says seen (drop_phase d c)"
  by (simp add: drop_phase_def clip_inv_def)

lemma inv_send:
  assumes "clip_inv lib says seen c" and "encoded_ok lib says pdu"
  shows "clip_inv lib says seen (snd (send lib env to_cl pdu c))"
  using assms by (auto simp: send_def clip_inv_def split: sum.splits)

lemma inv_send_receiver:
  "clip_inv lib says seen c \<Longrightarrow> encoded_ok lib says pdu \<Longrightarrow>
   clip_inv lib says seen (snd (send_receiver lib env d pdu c))"
  by (simp add: send_receiver_def inv_send)

lemma inv_send_sender:
  "clip_inv lib says seen c \<Longrightarrow> encoded_ok lib says pdu \<Longrightarrow>
   clip_inv lib says seen (snd (send_sender lib env d pdu c))"
  by (simp add: send_sender_def inv_send)

lemma inv_pass:
  assumes "clip_inv lib says seen c" and "\<forall>u \<in> set us. raw_ok lib says seen from_cl u"
  shows "clip_inv lib says seen (pass from_cl us c)"
  using assms by (cases from_cl) (auto simp: pass_def clip_inv_def)

lemma inv_clip_then:
  assumes "clip_inv lib says seen (snd r)"
    and "\<And>c. r = (Ok (), c) \<Longrightarrow> clip_inv lib says seen c \<Longrightarrow> clip_inv lib says seen (snd (k c))"
  shows "clip_inv lib says seen (snd (clip_then r k))"
  using assms by (cases r; cases "fst r") (auto simp: clip_then_def)

lemma inv_clear_receiver:
  "clip_inv lib says seen c \<Longrightarrow> clip_inv lib says seen (snd (clear_receiver lib env d c))"
  by (auto simp: clear_receiver_def Let_def encoded_ok_def intro!: inv_send_receiver inv_drop_phase
           split: sum.splits)

lemma inv_refuse: "clip_inv lib says seen c \<Longrightarrow> clip_inv lib says seen (snd (refuse lib env d r c))"
  by (simp add: refuse_def Let_def inv_clear_receiver)

lemma inv_refuse_files:
  "clip_inv lib says seen c \<Longrightarrow> clip_inv lib says seen (snd (refuse_files lib env d fs r c))"
  by (simp add: refuse_files_def inv_clear_receiver)

lemma inv_expire_one:
  "clip_inv lib says seen c \<Longrightarrow> clip_inv lib says seen (snd (expire_one lib env d c))"
  by (auto simp: expire_one_def intro: inv_refuse split: phase.splits)

lemma inv_expire_at:
  "clip_inv lib says seen c \<Longrightarrow> clip_inv lib says seen (snd (expire_at lib env c))"
  unfolding expire_at_def by (rule inv_clip_then) (simp_all add: inv_expire_one)

section \<open>Fetching\<close>

lemma skip_full_fetched:
  "fetched files data i \<Longrightarrow>
   fetched files data (skip_full files data i) \<and>
   (skip_full files data i < length files \<longrightarrow>
      length (data ! skip_full files data i) < unat (file_size_or_0 (files ! skip_full files data i)))"
proof (induction files data i rule: skip_full.induct)
  case (1 files data i)
  show ?case
  proof (cases "i < length files \<and> length (data ! i) \<ge> unat (file_size_or_0 (files ! i))")
    case True
    then have "fetched files data (i + 1)"
      using 1(2) by (auto simp: fetched_def less_Suc_eq le_antisym)
    then show ?thesis using 1(1) [OF True] True by (simp add: skip_full.simps [of files data i])
  next
    case False
    then show ?thesis using 1(2) by (auto simp: skip_full.simps [of files data i])
  qed
qed

lemma unat_of_nat_small:
  assumes "n < 2 ^ LENGTH('a)"
  shows "unat (of_nat n :: 'a::len word) = n"
  using assms by (simp add: unat_of_nat take_bit_eq_mod)

lemma missing_exact:
  assumes "length b \<le> unat (file_size_or_0 f)"
  shows "unat (missing f b) = unat (file_size_or_0 f) - length b"
proof -
  have l: "unat (of_nat (length b) :: 64 word) = length b"
    by (rule unat_of_nat_small) (rule le_less_trans [OF assms unsigned_less])
  show ?thesis
    unfolding missing_def using assms by (subst unat_sub) (simp_all add: word_le_nat_alt l)
qed

lemma range_request_ok:
  assumes "length (data ! i) < unat (file_size_or_0 (files ! i))"
  shows "encoded_ok lib says (FileContentsRequest (range_request files data i s))"
proof -
  let ?n = "min (unat (missing (files ! i) (data ! i))) RANGE"
  have n: "0 < ?n" "?n \<le> RANGE"
    using assms missing_exact [of "data ! i" "files ! i"] by (simp_all add: RANGE_def)
  have u: "unat (of_nat ?n :: 32 word) = ?n"
    by (rule unat_of_nat_small) (use n(2) in \<open>simp add: RANGE_def\<close>)
  have nz: "(of_nat ?n :: 32 word) \<noteq> 0"
  proof
    assume "(of_nat ?n :: 32 word) = 0"
    then show False using u n(1) by (simp only: unsigned_0)
  qed
  show ?thesis
    unfolding encoded_ok_def range_request_def
    by (simp only: clip_pdu.case fc_request.select_convs u nz n not_False_eq_True simp_thms)
qed

lemma jobs_from_mem:
  assumes "j \<in> set (jobs_from d gen i fs bs)"
  shows "j_dir j = d \<and> j_generation j = gen \<and>
    (\<exists>k < length fs. k < length bs \<and> j_index j = i + k \<and> j_name j = fd_name (fs ! k) \<and> j_bytes j = bs ! k)"
  using assms
proof (induction d gen i fs bs rule: jobs_from.induct)
  case (1 d gen i f fs b bs)
  show ?case
  proof (cases "j \<in> set (jobs_from d gen (i + 1) fs bs)")
    case True
    then obtain k where "k < length fs" "k < length bs" "j_index j = i + 1 + k"
        "j_name j = fd_name (fs ! k)" "j_bytes j = bs ! k" "j_dir j = d" "j_generation j = gen"
      using 1(1) by blast
    then show ?thesis by (auto intro!: exI [of _ "Suc k"])
  next
    case False
    then show ?thesis using 1(2) by auto
  qed
qed auto

lemma jobs_of_append: "jobs_of d gen (js @ ks) = jobs_of d gen js \<union> jobs_of d gen ks"
  by (auto simp: jobs_of_def)

lemma jobs_of_from [simp]:
  "jobs_of d gen (jobs_from e g i fs bs) =
     (if d = e \<and> gen = g then set (jobs_from e g i fs bs) else {})"
  using jobs_from_mem by (auto simp: jobs_of_def)

text \<open>A fetch between two ranges: like \<^term>\<open>step_ok\<close> but the file at hand may be complete.\<close>

lemma inv_fetch_next:
  assumes inv: "clip_inv lib says seen (set_phase d Idle c)"
    and ph: "d_phase (dir_of c d) = Fetching f"
    and st: "f_step f = Contents desc files data i stream"
    and f: "f_generation f \<le> c_generation c" "list_seen lib seen d (f_list f)"
      "jobs_of d (f_generation f) (c_jobs c) = {}" "to_file_list lib desc = Ok files"
      "fetched files data i"
  shows "clip_inv lib says seen (snd (fetch_next lib env d c))"
proof -
  let ?i = "skip_full files data i"
  have sk: "fetched files data ?i"
      "?i < length files \<Longrightarrow> length (data ! ?i) < unat (file_size_or_0 (files ! ?i))"
    using skip_full_fetched [OF f(5)] by blast+
  have idem: "set_phase d p (set_phase d Idle c) = set_phase d p c" for p
    by (cases d) (simp_all add: set_phase_def)
  show ?thesis
  proof (cases "?i < length files")
    case True
    have "clip_inv lib says seen (set_phase d (Fetching (f\<lparr>f_step := Contents desc files data ?i stream,
                                     f_deadline := env_now env + ANSWER\<rparr>)) c)"
      using inv_set_phase [OF inv, of d] True f sk by (simp add: idem)
    then show ?thesis using True
      by (simp add: fetch_next_def ph st Let_def inv_send_sender range_request_ok [OF sk(2) [OF True]])
  next
    case False
    then have all: "fetched files data (length files)"
      using sk(1) by (auto simp: fetched_def dest: le_antisym)
    let ?js = "jobs_from d (f_generation f) 0 files data"
    have "clip_inv lib says seen ((set_phase d Idle c)\<lparr>c_jobs := c_jobs c @ ?js\<rparr>)"
    proof -
      have "phase_ok lib says seen (c_jobs c @ ?js) g e p = phase_ok lib says seen (c_jobs c) g e p"
        if "e \<noteq> d" for e g p
        using that by (cases p) (simp_all add: jobs_of_append)
      moreover have "phase_ok lib says seen (c_jobs c) (c_generation c) e (d_phase (dir_of c e))" if "d \<noteq> e" for e
        using inv_phase [OF inv, of e] that by simp
      ultimately show ?thesis using inv f(1) by (auto simp: clip_inv_def dest!: jobs_from_mem)
    qed
    then have "clip_inv lib says seen (set_phase d (Fetching (f\<lparr>
        f_step := Scanning desc files data (replicate (length files) None),
        f_deadline := env_now env + c_scan_timeout c + ANSWER\<rparr>)) ((set_phase d Idle c)\<lparr>c_jobs := c_jobs c @ ?js\<rparr>))"
      using f all by (intro inv_set_phase) (auto simp: jobs_of_append dest!: jobs_from_mem)
    moreover have "set_phase d p ((set_phase d Idle c)\<lparr>c_jobs := js\<rparr>) = set_phase d p (c\<lparr>c_jobs := js\<rparr>)" for p js
      by (cases d) (simp_all add: set_phase_def)
    ultimately show ?thesis using False by (simp add: fetch_next_def ph st Let_def)
  qed
qed

lemma inv_set_idle: "clip_inv lib says seen c \<Longrightarrow> clip_inv lib says seen (set_phase d Idle c)"
  by (simp add: inv_set_phase)

lemma set_phase_twice [simp]: "set_phase d p (set_phase d q c) = set_phase d p c"
  by (cases d) (simp_all add: set_phase_def)

lemma set_phase_commute [simp]:
  "set_phase d p (c\<lparr>c_next_stream := s\<rparr>) = (set_phase d p c)\<lparr>c_next_stream := s\<rparr>"
  "set_phase d p (c\<lparr>c_held := h\<rparr>) = (set_phase d p c)\<lparr>c_held := h\<rparr>"
  by (cases d; simp add: set_phase_def)+

lemma fetched_start: "fetched files (map (\<lambda>_. []) files) 0"
  by (simp add: fetched_def)

lemma inv_start_fetch:
  assumes inv: "clip_inv lib says seen c"
    and f: "d_phase (dir_of c d) = Fetching f" "f_step f = Descriptor"
    and files: "to_file_list lib desc = Ok files"
  shows "clip_inv lib says seen (snd (start_fetch lib env d f desc files c))"
proof (cases "reserve (c_held c) (c_max c) (total_of files)")
  case None
  then show ?thesis by (simp add: start_fetch_def inv inv_refuse_files)
next
  case (Some held)
  have p: "f_generation f \<le> c_generation c" "list_seen lib seen d (f_list f)"
      "jobs_of d (f_generation f) (c_jobs c) = {}"
    using inv_phase [OF inv, of d] f by simp_all
  define c2 where "c2 = snd (next_stream (report_to (Started d (files_of files)) (c\<lparr>c_held := held\<rparr>)))"
  let ?st = "Contents desc files (map (\<lambda>_. []) files) 0 (c_next_stream c)"
  let ?f = "f\<lparr>f_reservation := Some (total_of files), f_step := ?st\<rparr>"
  have "clip_inv lib says seen c2" using inv by (simp add: c2_def)
  then have idle: "clip_inv lib says seen (set_phase d Idle c2)" by (rule inv_set_idle)
  have core: "c_jobs c2 = c_jobs c" "c_generation c2 = c_generation c"
    by (simp_all add: c2_def next_stream_def)
  have "clip_inv lib says seen (snd (fetch_next lib env d (set_phase d (Fetching ?f) c2)))"
    by (rule inv_fetch_next [where f = ?f, OF _ _ _ _ _ _ files fetched_start])
       (use p in \<open>simp_all add: idle core\<close>)
  then show ?thesis
    by (simp add: start_fetch_def Some c2_def next_stream_def report_to_def)
qed

lemma inv_descriptor:
  assumes inv: "clip_inv lib says seen c"
  shows "clip_inv lib says seen (snd (descriptor lib env d is_error data c))"
proof (cases "d_phase (dir_of c d)")
  case (Fetching f)
  then show ?thesis
    using inv by (auto simp: descriptor_def inv_refuse inv_refuse_files inv_start_fetch
        split: sum.splits option.splits)
qed (use inv in \<open>simp_all add: descriptor_def\<close>)

lemma fetched_extend:
  assumes "fetched files data i" and "i < length files"
    and "length (data ! i) + length got \<le> unat (file_size_or_0 (files ! i))"
  shows "fetched files (data[i := data ! i @ got]) i"
  using assms by (auto simp: fetched_def nth_list_update)

lemma inv_contents:
  assumes inv: "clip_inv lib says seen c0"
  shows "clip_inv lib says seen (snd (contents lib env d resp c0))"
proof -
  define c where "c = snd (next_stream c0)"
  have inv': "clip_inv lib says seen c" using inv by (simp add: c_def)
  have nx: "next_stream c0 = (c_next_stream c0, c)" by (simp add: c_def next_stream_def)
  show ?thesis
  proof (cases "d_phase (dir_of c d)")
    case (Fetching f)
    show ?thesis
    proof (cases "f_step f")
      case (Contents desc files data i stream)
      let ?got = "rs_data resp"
      have p: "f_generation f \<le> c_generation c" "list_seen lib seen d (f_list f)"
          "jobs_of d (f_generation f) (c_jobs c) = {}" "to_file_list lib desc = Ok files"
          "fetched files data i" "i < length files" "length (data ! i) < unat (file_size_or_0 (files ! i))"
        using inv_phase [OF inv', of d] Fetching Contents by simp_all
      have room: "unat (missing (files ! i) (data ! i)) = unat (file_size_or_0 (files ! i)) - length (data ! i)"
        using p(7) by (intro missing_exact) simp
      have "clip_inv lib says seen (snd (fetch_next lib env d (set_phase d (Fetching (f\<lparr>f_step :=
               Contents desc files (data[i := data ! i @ ?got]) i (c_next_stream c0)\<rparr>)) c)))"
        if "length ?got \<le> min (unat (missing (files ! i) (data ! i))) RANGE"
      proof -
        have ext: "fetched files (data[i := data ! i @ ?got]) i"
          by (rule fetched_extend [OF p(5,6)]) (use that room p(7) in linarith)
        show ?thesis
          by (rule inv_fetch_next [where f = "f\<lparr>f_step :=
               Contents desc files (data[i := data ! i @ ?got]) i (c_next_stream c0)\<rparr>", OF _ _ _ _ _ _ p(4) ext])
             (use p inv_set_idle [OF inv', of d] in simp_all)
      qed
      then show ?thesis
        using Fetching Contents inv'
        by (auto simp: contents_def nx Let_def inv_refuse not_less)
    qed (use Fetching inv' in \<open>simp_all add: contents_def nx\<close>)
  qed (use inv' in \<open>simp_all add: contents_def nx\<close>)
qed

section \<open>Offers, requests and verdicts\<close>

lemma inv_next_generation:
  "clip_inv lib says seen c \<Longrightarrow> clip_inv lib says seen (c\<lparr>c_generation := c_generation c + 1\<rparr>)"
proof -
  have "phase_ok lib says seen js (Suc g) d p" if "phase_ok lib says seen js g d p" for js g d p
    using that by (cases p) auto
  then show "clip_inv lib says seen c \<Longrightarrow> ?thesis" by (fastforce simp: clip_inv_def)
qed

lemma jobs_of_fresh:
  "clip_inv lib says seen c \<Longrightarrow> c_generation c < g \<Longrightarrow> jobs_of d g (c_jobs c) = {}"
  by (fastforce simp: clip_inv_def jobs_of_def)

lemma long_names_drop_phase [simp]: "long_names (drop_phase d c) = long_names c"
  by (simp add: long_names_def drop_phase_def release_def set_phase_def split: option.splits)

lemma formats_none_raw:
  assumes "file_list_format (formats_of lib c l) = None"
    and "(from_cl, w, long_names c) \<in> set seen" and "pdu_decode lib (w_pdu w) = Ok (FormatList l)"
    and "u \<in> set (w_units w)"
  shows "raw_ok lib says seen from_cl u"
  unfolding raw_ok_def
  by (rule exI [of _ w], rule exI [of _ "long_names c"], rule exI [of _ "FormatList l"])
     (use assms in \<open>auto simp: formats_of_def split: sum.splits\<close>)

lemma inv_format_list:
  assumes inv: "clip_inv lib says seen c"
    and w: "(d = Upload, w, long_names c) \<in> set seen" "pdu_decode lib (w_pdu w) = Ok (FormatList l)"
  shows "clip_inv lib says seen (snd (format_list lib env d l w c))"
proof -
  let ?c = "drop_phase d c"
  have c: "clip_inv lib says seen ?c" using inv by (rule inv_drop_phase)
  have ls: "list_seen lib seen d (w_units w)" using w by (auto simp: list_seen_def)
  show ?thesis
  proof (cases "file_list_format (formats_of lib ?c l)")
    case None
    then show ?thesis
      using c w formats_none_raw [OF None, of "d = Upload" w seen]
      by (simp add: format_list_def inv_pass)
  next
    case (Some fl)
    have "clip_inv lib says seen (snd (send_sender lib env d (FormatDataRequest fl)
            (owe_data d Proxy (set_phase d (Fetching \<lparr> f_generation = c_generation x + 1,
               f_list = w_units w, f_file_list = fl, f_step = Descriptor,
               f_deadline = env_now env + ANSWER, f_reservation = None \<rparr>)
               (x\<lparr>c_generation := c_generation x + 1\<rparr>)))))"
      if "clip_inv lib says seen x" for x
      using that inv_next_generation [OF that] ls jobs_of_fresh [OF that, of "c_generation x + 1"]
      by (intro inv_send_sender) (simp_all add: encoded_ok_def inv_set_phase)
    moreover have "clip_inv lib says seen (snd (send_sender lib env d (FormatListResponse True) ?c))"
      using c by (simp add: inv_send_sender encoded_ok_def)
    ultimately show ?thesis
      unfolding format_list_def Let_def Some option.case
      by (intro inv_clip_then) (auto simp: inv_clear_receiver split: sum.splits)
  qed
qed

lemma inv_data_request:
  assumes inv: "clip_inv lib says seen c"
    and w: "(from_cl, w, long) \<in> set seen" "pdu_decode lib (w_pdu w) = Ok (FormatDataRequest fmt)"
  shows "clip_inv lib says seen (snd (data_request lib env d fmt from_cl w c))"
proof -
  have raw: "\<forall>u \<in> set (w_units w). raw_ok lib says seen from_cl u"
    unfolding raw_ok_def using w by fastforce
  show ?thesis
  proof (cases "d_phase (dir_of c d)")
    case Idle
    then show ?thesis using inv raw by (simp add: data_request_def inv_pass)
  next
    case (Fetching f)
    then show ?thesis using inv by (simp add: data_request_def inv_send_receiver encoded_ok_def)
  next
    case (Offered q)
    then have "encoded_ok lib says (FormatDataResponse False (o_descriptor q))"
      using inv_phase [OF inv, of d] by (auto simp: encoded_ok_def)
    then show ?thesis using inv raw Offered
      by (simp add: data_request_def inv_pass inv_send_receiver)
  qed
qed

lemma contents_answer_served:
  assumes "phase_ok lib says seen js gen d ph" and "contents_answer ph req = Some a"
  shows "served_ok lib says a"
proof (cases ph)
  case (Offered q)
  let ?k = "nat (rq_index req)"
  let ?file = "o_data q ! ?k"
  have clean: "clean_offer lib says (o_descriptor q) (o_data q)" using assms(1) Offered by simp
  have k: "?k < length (o_data q)"
    using assms(2) Offered by (auto simp: contents_answer_def split: if_splits)
  have "rs_data a = le64_bytes (of_nat (length ?file)) \<or> (\<exists>s n. rs_data a = take n (drop s ?file))"
  proof (cases "rq_flags req AND FC_SIZE = FC_SIZE")
    case True
    then show ?thesis using assms(2) Offered
      by (auto simp: contents_answer_def Let_def new_size_response_def split: if_splits)
  next
    case False
    then obtain s n where "a = new_data_response (rq_stream_id req) (take n (drop s ?file))"
      using assms(2) Offered by (auto simp: contents_answer_def Let_def split: if_splits)
    then have "rs_data a = take n (drop s ?file)" by (simp add: new_data_response_def)
    then show ?thesis by blast
  qed
  then show ?thesis unfolding served_ok_def using clean k by blast
qed (use assms in \<open>simp_all add: contents_answer_def\<close>)

lemma inv_contents_request:
  assumes inv: "clip_inv lib says seen c"
  shows "clip_inv lib says seen (snd (contents_request lib env d req c))"
proof -
  have "served_ok lib says (new_error s)" for s by (simp add: served_ok_def new_error_def)
  then show ?thesis
    using contents_answer_served [OF inv_phase [OF inv, of d]]
    by (auto simp: contents_request_def encoded_ok_def intro!: inv_send_receiver inv split: option.splits)
qed

lemma map_filter_Nil_iff: "List.map_filter f xs = [] \<longleftrightarrow> (\<forall>x \<in> set xs. f x = None)"
  by (induction xs) (auto simp: List.map_filter_simps split: option.splits)

lemma refusal_of_None: "refusal_of f v = None \<longleftrightarrow> v = Some Clean"
  by (auto simp: refusal_of_def split: option.splits verdict.splits)

lemma all_clean_offer:
  assumes "step_ok lib says js (Scanning desc files data vs)"
    and "List.map_filter (\<lambda>(file, v). refusal_of file v) (zip files vs) = []"
  shows "clean_offer lib says desc data"
proof -
  have l: "length vs = length files" using assms(1) by simp
  have "vs ! k = Some Clean" if "k < length files" for k
  proof -
    have "(files ! k, vs ! k) \<in> set (zip files vs)"
      using that l by (auto simp: set_zip)
    then show ?thesis using assms(2) by (auto simp: map_filter_Nil_iff refusal_of_None)
  qed
  then show ?thesis using assms(1) by (auto simp: clean_offer_def fetched_def)
qed

text \<open>The verdict handed back is one the scanner gave on what the phase holds at that place.\<close>

definition verdict_ok :: "scans \<Rightarrow> phase \<Rightarrow> nat \<Rightarrow> nat \<Rightarrow> verdict \<Rightarrow> bool" where
  "verdict_ok says ph gen index v \<longleftrightarrow>
     (\<forall>f desc files data vs.
        ph = Fetching f \<longrightarrow> f_generation f = gen \<longrightarrow> f_step f = Scanning desc files data vs \<longrightarrow>
        v = Clean \<longrightarrow> index < length files \<longrightarrow> says (fd_name (files ! index)) (data ! index) Clean)"

lemma job_verdict_ok:
  assumes inv: "clip_inv lib says seen c" and j: "j \<in> set (c_jobs c)"
    and v: "v = Clean \<longrightarrow> says (j_name j) (j_bytes j) Clean"
  shows "verdict_ok says (d_phase (dir_of c (j_dir j))) (j_generation j) (j_index j) v"
proof -
  have "j \<in> jobs_of (j_dir j) (j_generation j) (c_jobs c)" using j by (simp add: jobs_of_def)
  then show ?thesis using inv_phase [OF inv, of "j_dir j"] v by (auto simp: verdict_ok_def)
qed

lemma inv_scanned:
  assumes inv: "clip_inv lib says seen c"
    and v: "verdict_ok says (d_phase (dir_of c d)) gen index v"
  shows "clip_inv lib says seen (snd (scanned lib env d gen index v c))"
proof (cases "d_phase (dir_of c d)")
  case (Fetching f)
  show ?thesis
  proof (cases "f_step f")
    case (Scanning desc files data verdicts)
    let ?vs = "if index < length verdicts then verdicts[index := Some v] else verdicts"
    let ?js = "jobs_of d (f_generation f) (c_jobs c)"
    have p: "f_generation f \<le> c_generation c" "list_seen lib seen d (f_list f)"
        "step_ok lib says ?js (Scanning desc files data verdicts)"
      using inv_phase [OF inv, of d] Fetching Scanning by simp_all
    have st: "step_ok lib says ?js (Scanning desc files data ?vs)" if "f_generation f = gen"
      using p(3) v that Fetching Scanning by (auto simp: verdict_ok_def nth_list_update)
    have wait: "clip_inv lib says seen (set_phase d (Fetching (f\<lparr>f_step := Scanning desc files data ?vs\<rparr>)) c)"
      if "f_generation f = gen"
      using inv_set_phase [OF inv] p st [OF that] by simp
    have offer: "clip_inv lib says seen (pass (d = Upload) (f_list f) (owe_list d Proxy
          (set_phase d (Offered \<lparr> o_file_list = f_file_list f, o_descriptor = desc,
              o_data = data, o_reservation = f_reservation f \<rparr>) (report_to r c))))"
      if "clean_offer lib says desc data" for r
    proof (rule inv_pass)
      show "\<forall>u \<in> set (f_list f). raw_ok lib says seen (d = Upload) u"
        using p(2) that unfolding list_seen_def raw_ok_def by fastforce
    qed (use inv that in \<open>simp add: inv_set_phase\<close>)
    show ?thesis
      using inv Fetching Scanning wait st [THEN all_clean_offer, THEN offer]
      by (simp add: scanned_def Let_def inv_clear_receiver)
  qed (use inv Fetching in \<open>simp_all add: scanned_def\<close>)
qed (use inv in \<open>simp_all add: scanned_def\<close>)

section \<open>Inputs\<close>

lemma raw_ok_simple:
  assumes "(from_cl, w, long) \<in> set seen" "pdu_decode lib (w_pdu w) = Ok pdu" "u \<in> set (w_units w)"
    and "case pdu of MonitorReady \<Rightarrow> True | TemporaryDirectory _ \<Rightarrow> True | FormatListResponse _ \<Rightarrow> True
           | FormatDataResponse _ _ \<Rightarrow> True | _ \<Rightarrow> False"
  shows "raw_ok lib says seen from_cl u"
  unfolding raw_ok_def
  by (rule exI [of _ w], rule exI [of _ long], rule exI [of _ pdu])
     (use assms in \<open>simp split: clip_pdu.splits\<close>)

lemma word_and_not_and: "(a AND NOT b) AND b = (0 :: 'a::len word)"
  by (simp add: and.assoc and.commute [of "NOT b"])

lemma inv_take_pdu:
  assumes inv: "clip_inv lib says seen c" and w: "(from_cl, w, long_names c) \<in> set seen"
  shows "clip_inv lib says seen (snd (take_pdu lib env from_cl w c))"
proof (cases "pdu_decode lib (w_pdu w)")
  case (Inl e)
  then show ?thesis using inv by (simp add: take_pdu_def Let_def)
next
  case (Inr pdu)
  note raw = raw_ok_simple [OF w Inr]
  show ?thesis
  proof (cases pdu)
    case (Capabilities version flags)
    then show ?thesis using inv Inr
      by (auto simp: take_pdu_def Let_def encoded_ok_def word_and_not_and intro!: inv_send)
  next
    case (FormatList l)
    then show ?thesis using inv w Inr
      by (cases from_cl) (auto simp: take_pdu_def Let_def intro!: inv_format_list)
  next
    case (FormatListResponse ok)
    then show ?thesis using inv Inr raw
      by (auto simp: take_pdu_def Let_def intro!: inv_pass split: list.splits owner.splits)
  next
    case (FormatDataRequest fmt)
    then show ?thesis using inv w Inr by (simp add: take_pdu_def Let_def inv_data_request)
  next
    case (FormatDataResponse is_error data)
    then show ?thesis using inv Inr raw
      by (auto simp: take_pdu_def Let_def intro!: inv_pass inv_descriptor split: list.splits owner.splits)
  qed (use inv Inr raw in
      \<open>auto simp: take_pdu_def Let_def inv_contents inv_contents_request intro!: inv_pass\<close>)
qed

lemma inv_handle:
  assumes "clip_inv lib says seen c"
    and "\<And>w. i = FromClient w \<Longrightarrow> (True, w, long_names c) \<in> set seen"
    and "\<And>w. i = FromServer w \<Longrightarrow> (False, w, long_names c) \<in> set seen"
    and "\<And>d g k v. i = Scanned d g k v \<Longrightarrow> verdict_ok says (d_phase (dir_of c d)) g k v"
  shows "clip_inv lib says seen (snd (handle lib env i c))"
  using assms by (cases i) (simp_all add: handle_def inv_take_pdu inv_scanned)

end
