(* ===== verification/WA_Clip_Props.thy ===== *)
theory WA_Clip_Props
  imports WA_Clip_Laws
begin

text \<open>
  The mediator's task over a whole session: \<open>Clip::run\<close> of \<open>src/src/scan/clip.rs\<close> as a step
  relation, and what holds of every run of it, whatever the two sides send, however the scans end
  and whatever the other sessions do to the staging counter.
\<close>

section \<open>The task\<close>

record mediator =
  m_clip :: clip
  m_written :: "outgoing list"
  m_seen :: history
  m_stopped :: bool

definition mediator_new :: "64 word \<Rightarrow> 64 word \<Rightarrow> nat \<Rightarrow> mediator" where
  "mediator_new held mx scan_timeout =
     \<lparr> m_clip = clip_new held mx scan_timeout, m_written = [], m_seen = [], m_stopped = False \<rparr>"

text \<open>
  After an input or a deadline: an error ends the task with nothing more written; otherwise the
  outputs are written in order until the writer refuses one, here after \<open>n\<close>.
\<close>

definition settle :: "nat \<Rightarrow> result \<Rightarrow> mediator \<Rightarrow> mediator" where
  "settle n r m =
     (case r of
        (Err _, c) \<Rightarrow> m\<lparr>m_clip := c, m_stopped := True\<rparr>
      | (Ok _, c) \<Rightarrow> m\<lparr>m_clip := c\<lparr>c_out := []\<rparr>, m_written := m_written m @ take n (c_out c),
                         m_stopped := n < length (c_out c)\<rparr>)"

definition note_seen :: "bool \<Rightarrow> whole \<Rightarrow> mediator \<Rightarrow> mediator" where
  "note_seen from_cl w m = m\<lparr>m_seen := m_seen m @ [(from_cl, w, long_names (m_clip m))]\<rparr>"

text \<open>A scan task that ended: it is no longer running when its verdict is read.\<close>

definition end_job :: "scan_job \<Rightarrow> clip \<Rightarrow> clip" where
  "end_job j c = c\<lparr>c_jobs := remove1 j (c_jobs c)\<rparr>"

text \<open>
  What the scan task sends for its verdict: the scanner's, or that it failed or took too long.
\<close>

definition job_ends :: "scans \<Rightarrow> scan_job \<Rightarrow> verdict \<Rightarrow> bool" where
  "job_ends says j v \<longleftrightarrow>
     says (j_name j) (j_bytes j) v \<or> v = Unavailable ''the scan took too long'' \<or>
     (case v of Unavailable why \<Rightarrow> take 17 why = ''the scan failed: '' | _ \<Rightarrow> False)"

inductive mediator_step :: "clip_lib \<Rightarrow> scans \<Rightarrow> mediator \<Rightarrow> mediator \<Rightarrow> bool" for lib says where
  from_client: "\<not> m_stopped m \<Longrightarrow>
    mediator_step lib says m
      (settle n (handle lib env (FromClient w) (m_clip m)) (note_seen True w m))"
| from_server: "\<not> m_stopped m \<Longrightarrow>
    mediator_step lib says m
      (settle n (handle lib env (FromServer w) (m_clip m)) (note_seen False w m))"
| scan_ended: "\<not> m_stopped m \<Longrightarrow> j \<in> set (c_jobs (m_clip m)) \<Longrightarrow> job_ends says j v \<Longrightarrow>
    mediator_step lib says m
      (settle n (handle lib env (Scanned (j_dir j) (j_generation j) (j_index j) v)
                  (end_job j (m_clip m))) m)"
| expired: "\<not> m_stopped m \<Longrightarrow>
    mediator_step lib says m (settle n (expire_at lib env (m_clip m)) m)"
| other_sessions: "mediator_step lib says m (m\<lparr>m_clip := (m_clip m)\<lparr>c_held := held\<rparr>\<rparr>)"

section \<open>The invariant holds throughout\<close>

lemma raw_ok_mono: "raw_ok lib says seen b u \<Longrightarrow> raw_ok lib says (seen @ x) b u"
  unfolding raw_ok_def set_append by (blast intro: UnI1)

lemma out_ok_mono: "out_ok lib says seen z \<Longrightarrow> out_ok lib says (seen @ x) z"
  by (induction lib says seen z rule: out_ok.induct) (auto intro: raw_ok_mono)

lemma list_seen_mono: "list_seen lib seen d us \<Longrightarrow> list_seen lib (seen @ x) d us"
  unfolding list_seen_def set_append by (blast intro: UnI1)

lemma phase_ok_mono: "phase_ok lib says seen js g d p \<Longrightarrow> phase_ok lib says (seen @ x) js g d p"
  by (cases p) (auto intro: list_seen_mono)

lemma clip_inv_mono: "clip_inv lib says seen c \<Longrightarrow> clip_inv lib says (seen @ x) c"
  by (auto simp: clip_inv_def intro: phase_ok_mono out_ok_mono)

lemma step_ok_fewer:
  "step_ok lib says js st \<Longrightarrow> ks \<subseteq> js \<Longrightarrow> step_ok lib says ks st"
  by (cases st) auto

lemma inv_end_job:
  assumes "clip_inv lib says seen c"
  shows "clip_inv lib says seen (end_job j c)"
proof -
  have sub: "set (remove1 j (c_jobs c)) \<subseteq> set (c_jobs c)" by (rule set_remove1_subset)
  then have "jobs_of d g (remove1 j (c_jobs c)) \<subseteq> jobs_of d g (c_jobs c)" for d g
    by (auto simp: jobs_of_def)
  then have "phase_ok lib says seen (remove1 j (c_jobs c)) g d p"
    if "phase_ok lib says seen (c_jobs c) g d p" for g d p
    using that by (cases p) (auto intro: step_ok_fewer)
  with assms sub show ?thesis by (auto simp: clip_inv_def end_job_def)
qed

lemma inv_new: "clip_inv lib says [] (clip_new held mx t)"
  by (simp add: clip_inv_def clip_new_def direction_new_def all_dir)

definition mediator_inv :: "clip_lib \<Rightarrow> scans \<Rightarrow> mediator \<Rightarrow> bool" where
  "mediator_inv lib says m \<longleftrightarrow>
     clip_inv lib says (m_seen m) (m_clip m) \<and> list_all (out_ok lib says (m_seen m)) (m_written m)"

lemma inv_settle:
  assumes "clip_inv lib says (m_seen m) (snd r)" and "list_all (out_ok lib says (m_seen m)) (m_written m)"
  shows "mediator_inv lib says (settle n r m)"
proof (cases r)
  case (Pair e c)
  have "clip_inv lib says (m_seen m) (c\<lparr>c_out := []\<rparr>)"
    using assms(1) Pair by (simp add: clip_inv_def)
  moreover have "list_all (out_ok lib says (m_seen m)) (take n (c_out c))"
    using assms(1) Pair by (auto simp: clip_inv_def list_all_iff dest: in_set_takeD)
  ultimately show ?thesis
    using assms Pair by (cases e) (auto simp: settle_def mediator_inv_def)
qed

lemma inv_note_seen:
  assumes "mediator_inv lib says m"
  shows "clip_inv lib says (m_seen (note_seen b w m)) (m_clip m)"
    and "list_all (out_ok lib says (m_seen (note_seen b w m))) (m_written (note_seen b w m))"
    and "(b, w, long_names (m_clip m)) \<in> set (m_seen (note_seen b w m))"
  using assms
  by (auto simp: mediator_inv_def note_seen_def list_all_iff intro: clip_inv_mono out_ok_mono)

lemma mediator_inv_step:
  assumes inv: "mediator_inv lib says m" and step: "mediator_step lib says m m'"
  shows "mediator_inv lib says m'"
  using step
proof (cases rule: mediator_step.cases)
  case (from_client n env w)
  then show ?thesis using inv_note_seen [OF inv] by (auto intro!: inv_settle inv_handle)
next
  case (from_server n env w)
  then show ?thesis using inv_note_seen [OF inv] by (auto intro!: inv_settle inv_handle)
next
  case (scan_ended j v n env)
  have c: "clip_inv lib says (m_seen m) (m_clip m)" using inv by (simp add: mediator_inv_def)
  have "v = Clean \<longrightarrow> says (j_name j) (j_bytes j) Clean" using scan_ended by (auto simp: job_ends_def)
  from job_verdict_ok [OF c scan_ended(3) this]
  have "verdict_ok says (d_phase (dir_of (end_job j (m_clip m)) (j_dir j))) (j_generation j) (j_index j) v"
    by (simp add: end_job_def)
  with scan_ended inv inv_end_job [OF c, of j] show ?thesis
    by (auto simp: mediator_inv_def intro!: inv_settle [unfolded mediator_inv_def] inv_handle)
next
  case (expired n env)
  then show ?thesis using inv by (auto simp: mediator_inv_def inv_expire_at intro!: inv_settle [unfolded mediator_inv_def])
next
  case (other_sessions held)
  then show ?thesis using inv by (simp add: mediator_inv_def)
qed

lemma mediator_inv_reach:
  assumes "reach (\<lambda>m. m = mediator_new held mx t) (mediator_step lib says) m"
  shows "mediator_inv lib says m"
  using assms
proof (rule reach_invariant)
  show "mediator_inv lib says m" if "m = mediator_new held mx t" for m
    using that by (simp add: mediator_inv_def mediator_new_def inv_new)
qed (rule mediator_inv_step)

section \<open>Runs as values\<close>

text \<open>
  A run written down as the list of its events, so that a particular one can be computed. An event
  that cannot happen leaves the state as it is. The writer takes everything.
\<close>

datatype clip_event =
    EvClient clip_env whole
  | EvServer clip_env whole
  | EvScan clip_env nat verdict
  | EvExpire clip_env

fun play1 :: "clip_lib \<Rightarrow> scans \<Rightarrow> clip_event \<Rightarrow> mediator \<Rightarrow> mediator" where
  "play1 lib says (EvClient env w) m =
     (let r = handle lib env (FromClient w) (m_clip m) in settle (length (c_out (snd r))) r (note_seen True w m))"
| "play1 lib says (EvServer env w) m =
     (let r = handle lib env (FromServer w) (m_clip m) in settle (length (c_out (snd r))) r (note_seen False w m))"
| "play1 lib says (EvScan env k v) m =
     (if k < length (c_jobs (m_clip m)) \<and> job_ends says (c_jobs (m_clip m) ! k) v
      then (let j = c_jobs (m_clip m) ! k;
                r = handle lib env (Scanned (j_dir j) (j_generation j) (j_index j) v) (end_job j (m_clip m))
            in settle (length (c_out (snd r))) r m)
      else m)"
| "play1 lib says (EvExpire env) m =
     (let r = expire_at lib env (m_clip m) in settle (length (c_out (snd r))) r m)"

fun play :: "clip_lib \<Rightarrow> scans \<Rightarrow> clip_event list \<Rightarrow> mediator \<Rightarrow> mediator" where
  "play lib says [] m = m"
| "play lib says (e # es) m = (if m_stopped m then m else play lib says es (play1 lib says e m))"

lemma play1_step:
  "\<not> m_stopped m \<Longrightarrow> play1 lib says e m = m \<or> mediator_step lib says m (play1 lib says e m)"
  by (cases e) (auto simp: Let_def intro: mediator_step.intros)

lemma play_reach_from:
  "reach init (mediator_step lib says) m \<Longrightarrow> reach init (mediator_step lib says) (play lib says es m)"
proof (induction es arbitrary: m)
  case (Cons e es)
  have "reach init (mediator_step lib says) (play1 lib says e m)" if "\<not> m_stopped m"
    using play1_step [OF that, of lib says e] Cons.prems
    by (metis reach.reach_step)
  then show ?case using Cons by simp
qed simp

lemma play_reach:
  "reach (\<lambda>m. m = mediator_new held mx t) (mediator_step lib says)
     (play lib says es (mediator_new held mx t))"
  by (rule play_reach_from) (simp add: reach.reach_init)

text \<open>
  A small instance of the library, for concrete runs: a PDU is one tag byte and its content, a
  format list is one byte per format with 9 the file list, a file list is one size per byte.
\<close>

definition sample_decode :: "bytes \<Rightarrow> string + clip_pdu" where
  "sample_decode b =
     (case b of
        [] \<Rightarrow> Err ''short''
      | t # r \<Rightarrow>
          if t = 1 then Ok (FormatList r)
          else if t = 2 then Ok (FormatDataResponse False r)
          else if t = 3 then Ok (FileContentsResponse (new_data_response FIRST_STREAM r))
          else if t = 4 then Ok (FileContentsRequest \<lparr> rq_stream_id = 7, rq_index = 0, rq_flags = FC_RANGE,
                                   rq_position = 0, rq_requested_size = 10, rq_data_id = None \<rparr>)
          else Ok MonitorReady)"

definition sample_lib :: clip_lib where
  "sample_lib =
     \<lparr> pdu_decode = sample_decode,
       get_formats = (\<lambda>l _. Ok (map (\<lambda>b. (ucast b, if b = 9 then Some FILE_LIST else None)) l)),
       empty_format_list = (\<lambda>_. Ok []),
       to_file_list = (\<lambda>b. Ok (map (\<lambda>n. \<lparr> fd_attributes = None, fd_last_write_time = None,
           fd_file_size = Some (ucast n), fd_name = ''a'', fd_relative_path = None \<rparr>) b)),
       pdu_framing = \<lparr> connect_initial = (\<lambda>_. None), connect_response = (\<lambda>_. None), mcs_decode = (\<lambda>_. None),
         client_encode = (\<lambda>_ _ _. Ok []), server_encode = (\<lambda>_ _ _. Ok []) \<rparr> \<rparr>"

definition sample_env :: "instant \<Rightarrow> clip_env" where
  "sample_env now =
     \<lparr> env_now = now, env_route = route_new\<lparr>cliprdr := Some 1004, user_channel := Some 1007,
                                            server_initiator := Some 1002\<rparr>,
       env_healthy = Ok (), env_limit = None \<rparr>"

text \<open>A scanner that finds the byte 0 bad.\<close>

definition sample_scans :: scans where
  "sample_scans name b v \<longleftrightarrow> v = (if 0 \<in> set b then Detected else Clean)"

definition sample_whole :: "bytes \<Rightarrow> whole" where
  "sample_whole b = \<lparr> w_pdu = b, w_units = [b] \<rparr>"

definition sample_upload :: "clip_event list" where
  "sample_upload =
     [EvClient (sample_env 0) (sample_whole [1, 9]), EvClient (sample_env 0) (sample_whole [2, 2]),
      EvClient (sample_env 0) (sample_whole [3, 5, 6]), EvScan (sample_env 0) 0 Clean,
      EvServer (sample_env 0) (sample_whole [4])]"

definition sample_start :: mediator where
  "sample_start = mediator_new 0 100 1"

section \<open>Properties\<close>

text \<open>
  C3: In every run of the mediator, whatever the two clipboard endpoints send and however the
  scans end, everything written to either side is one of: file bytes or sizes out of an offer all
  of whose files the scanner called clean, byte for byte as scanned and each as long as its
  descriptor says; the descriptor of such an offer; a refusal; an empty clipboard; a request of
  the proxy's own for at most one range; capabilities with locking masked out; or a PDU passed on
  as it arrived that carries no file contents, request for them, or unscanned file offer.
\<close>

theorem only_clean_files_pass:
  assumes "reach (\<lambda>m. m = mediator_new held mx t) (mediator_step lib says) m"
  shows "list_all (out_ok lib says (m_seen m)) (m_written m)"
  using mediator_inv_reach [OF assms] by (simp add: mediator_inv_def)

lemma sample_reach:
  "reach (\<lambda>m. m = mediator_new 0 100 1) (mediator_step sample_lib sample_scans)
     (play sample_lib sample_scans es sample_start)"
  unfolding sample_start_def by (rule play_reach)

theorem only_clean_files_pass_witness:
  "list_all (out_ok sample_lib sample_scans (m_seen (play sample_lib sample_scans sample_upload sample_start)))
     (m_written (play sample_lib sample_scans sample_upload sample_start)) \<and>
   drop 3 (m_written (play sample_lib sample_scans sample_upload sample_start)) =
     [ToServer (RawUnit [1, 9]),
      ToServer (Encoded (FileContentsResponse (new_data_response 7 [5, 6])) [])]"
proof
  show "list_all (out_ok sample_lib sample_scans (m_seen (play sample_lib sample_scans sample_upload sample_start)))
     (m_written (play sample_lib sample_scans sample_upload sample_start))"
    by (rule only_clean_files_pass) (rule sample_reach)
  show "drop 3 (m_written (play sample_lib sample_scans sample_upload sample_start)) =
     [ToServer (RawUnit [1, 9]),
      ToServer (Encoded (FileContentsResponse (new_data_response 7 [5, 6])) [])]"
    by code_simp
qed

text \<open>
  C33: While a file is being fetched, its index is one of the files, every file has a buffer, and
  the file is not complete. So the indexing in \<open>contents\<close> and \<open>fetch_next\<close> never panics, and the
  subtraction giving what is still missing never wraps below zero.
\<close>

theorem fetch_in_bounds:
  assumes "reach (\<lambda>m. m = mediator_new held mx t) (mediator_step lib says) m"
    and "d_phase (dir_of (m_clip m) d) = Fetching f" and "f_step f = Contents desc files data i stream"
  shows "length data = length files \<and> i < length files \<and>
    length (data ! i) < unat (file_size_or_0 (files ! i)) \<and>
    unat (missing (files ! i) (data ! i)) = unat (file_size_or_0 (files ! i)) - length (data ! i)"
proof -
  have "clip_inv lib says (m_seen m) (m_clip m)"
    using mediator_inv_reach [OF assms(1)] by (simp add: mediator_inv_def)
  then have "fetched files data i \<and> i < length files \<and>
      length (data ! i) < unat (file_size_or_0 (files ! i))"
    using inv_phase [of lib says "m_seen m" "m_clip m" d] assms(2,3) by simp
  then show ?thesis by (simp add: fetched_def missing_exact)
qed

definition sample_fetch :: fetch where
  "sample_fetch =
     \<lparr> f_generation = 1, f_list = [[1, 9]], f_file_list = 9,
       f_step = Contents [2] [\<lparr> fd_attributes = None, fd_last_write_time = None, fd_file_size = Some 2,
                                fd_name = ''a'', fd_relative_path = None \<rparr>] [[]] 0 FIRST_STREAM,
       f_deadline = ANSWER, f_reservation = Some 2 \<rparr>"

lemma sample_fetching:
  "d_phase (dir_of (m_clip (play sample_lib sample_scans (take 2 sample_upload) sample_start)) Upload)
     = Fetching sample_fetch"
  by code_simp

theorem fetch_in_bounds_witness:
  "0 < length [[] :: bytes] \<and>
   d_phase (dir_of (m_clip (play sample_lib sample_scans (take 2 sample_upload) sample_start)) Upload)
     = Fetching sample_fetch \<and>
   length ([] :: bytes) < unat (2 :: 64 word)"
  using fetch_in_bounds [OF sample_reach sample_fetching, unfolded sample_fetch_def, OF fetch.select_convs(4)]
    sample_fetching by (simp add: file_size_or_0_def)

definition raw_units :: "outgoing list \<Rightarrow> bytes list" where
  "raw_units xs = List.map_filter
     (\<lambda>z. case z of ToClient (RawUnit u) \<Rightarrow> Some u | ToServer (RawUnit u) \<Rightarrow> Some u | _ \<Rightarrow> None) xs"

lemma map_filter_append: "List.map_filter f (xs @ ys) = List.map_filter f xs @ List.map_filter f ys"
  by (simp add: List.map_filter_def)

lemma raw_units_simps [simp]:
  "raw_units [] = []" "raw_units (xs @ ys) = raw_units xs @ raw_units ys"
  "raw_units [ToClient (Encoded p b)] = []" "raw_units [ToServer (Encoded p b)] = []"
  "raw_units (map (\<lambda>u. ToClient (RawUnit u)) us) = us" "raw_units (map (\<lambda>u. ToServer (RawUnit u)) us) = us"
  by (auto simp: raw_units_def map_filter_append List.map_filter_def comp_def)

lemma send_phase [simp]: "d_phase (dir_of (snd (send lib env b pdu c)) e) = d_phase (dir_of c e)"
  by (auto simp: send_def split: sum.splits)

lemma send_reports [simp]: "c_reports (snd (send lib env b pdu c)) = c_reports c"
  by (auto simp: send_def split: sum.splits)

lemma send_raw [simp]: "raw_units (c_out (snd (send lib env b pdu c))) = raw_units (c_out c)"
  by (auto simp: send_def split: sum.splits)

lemma drop_phase_fields [simp]:
  "d_phase (dir_of (drop_phase d c) e) = (if d = e then Idle else d_phase (dir_of c e))"
  "c_out (drop_phase d c) = c_out c" "c_reports (drop_phase d c) = c_reports c"
  by (auto simp: drop_phase_def set_phase_def release_def split: option.splits)

lemma owe_list_reports [simp]: "c_reports (owe_list d w c) = c_reports c"
  by (simp add: owe_list_def)

lemma clear_receiver_fields [simp]:
  "d_phase (dir_of (snd (clear_receiver lib env d c)) e) = (if d = e then Idle else d_phase (dir_of c e))"
  "c_reports (snd (clear_receiver lib env d c)) = c_reports c"
  "raw_units (c_out (snd (clear_receiver lib env d c))) = raw_units (c_out c)"
  by (simp_all add: clear_receiver_def Let_def send_receiver_def split: sum.splits)

lemma pass_fields [simp]:
  "d_phase (dir_of (pass b us c) e) = d_phase (dir_of c e)" "c_reports (pass b us c) = c_reports c"
  "raw_units (c_out (pass b us c)) = raw_units (c_out c) @ us"
  by (simp_all add: pass_def)

lemma no_refusals:
  assumes "length vs = length files"
  shows "List.map_filter (\<lambda>(file, v). refusal_of file v) (zip files vs) = [] \<longleftrightarrow> (\<forall>v \<in> set vs. v = Some Clean)"
proof -
  have "(\<forall>z \<in> set (zip files vs). snd z = Some Clean) \<longleftrightarrow> (\<forall>v \<in> set (map snd (zip files vs)). v = Some Clean)"
    by simp
  then show ?thesis using assms by (simp add: map_filter_Nil_iff refusal_of_None split_beta)
qed

text \<open>
  The last verdict decides the offer. If every file is clean the receiver gets the sender's
  own format list, once, and the proxy serves the very bytes that were scanned; otherwise the
  offer is dropped, the reason is reported, and nothing the sender sent is passed on.
\<close>

theorem scanned_decides:
  assumes "d_phase (dir_of c d) = Fetching f" and "f_step f = Scanning desc files data verdicts"
    and "length verdicts = length files" and "index < length files"
    and "None \<notin> set (verdicts[index := Some v])"
    and "scanned lib env d (f_generation f) index v c = (r, c')"
  shows "if \<forall>x \<in> set (verdicts[index := Some v]). x = Some Clean
    then r = Ok () \<and> d_phase (dir_of c' d) =
           Offered \<lparr> o_file_list = f_file_list f, o_descriptor = desc, o_data = data, o_reservation = f_reservation f \<rparr> \<and>
         raw_units (c_out c') = raw_units (c_out c) @ f_list f \<and>
         c_reports c' = c_reports c @ [Passed d (files_of files)]
    else d_phase (dir_of c' d) = Idle \<and> raw_units (c_out c') = raw_units (c_out c) \<and>
         (\<exists>why. c_reports c' = c_reports c @ [Refused d (files_of files) why])"
proof -
  let ?vs = "verdicts[index := Some v]"
  have none: "List.map_filter (\<lambda>(file, v). refusal_of file v) (zip files ?vs) = [] \<longleftrightarrow>
      (\<forall>x \<in> set ?vs. x = Some Clean)"
    by (rule no_refusals) (simp add: assms(3))
  show ?thesis
  proof (cases "\<forall>x \<in> set ?vs. x = Some Clean")
    case True
    then show ?thesis
      using assms none by (auto simp: scanned_def Let_def set_phase_def report_to_def)
  next
    case False
    then have "(r, c') = clear_receiver lib env d (report_to (Refused d (files_of files)
        (join ''; '' (List.map_filter (\<lambda>(file, v). refusal_of file v) (zip files ?vs)))) c)"
      using assms none by (simp add: scanned_def Let_def)
    then have "c' = snd (clear_receiver lib env d (report_to (Refused d (files_of files)
        (join ''; '' (List.map_filter (\<lambda>(file, v). refusal_of file v) (zip files ?vs)))) c))"
      by (metis snd_conv)
    with False show ?thesis by (auto simp: report_to_def)
  qed
qed

definition sample_scanning :: clip where
  "sample_scanning = m_clip (play sample_lib sample_scans (take 3 sample_upload) sample_start)"

definition sample_scan_fetch :: fetch where
  "sample_scan_fetch =
     \<lparr> f_generation = 1, f_list = [[1, 9]], f_file_list = 9,
       f_step = Scanning [2] [\<lparr> fd_attributes = None, fd_last_write_time = None, fd_file_size = Some 2,
                                fd_name = ''a'', fd_relative_path = None \<rparr>] [[5, 6]] [None],
       f_deadline = ANSWER + 1, f_reservation = Some 2 \<rparr>"

lemma sample_scanning_phase: "d_phase (dir_of sample_scanning Upload) = Fetching sample_scan_fetch"
  by code_simp

theorem scanned_decides_witness:
  "d_phase (dir_of (snd (scanned sample_lib (sample_env 0) Upload 1 0 Detected sample_scanning)) Upload) = Idle \<and>
   raw_units (c_out (snd (scanned sample_lib (sample_env 0) Upload 1 0 Detected sample_scanning)))
     = raw_units (c_out sample_scanning)"
proof -
  have st: "f_step sample_scan_fetch = Scanning [2] [\<lparr> fd_attributes = None, fd_last_write_time = None,
      fd_file_size = Some 2, fd_name = ''a'', fd_relative_path = None \<rparr>] [[5, 6]] [None]"
    and g: "f_generation sample_scan_fetch = 1"
    by (simp_all add: sample_scan_fetch_def)
  show ?thesis
    using scanned_decides [OF sample_scanning_phase st _ _ _ surjective_pairing, of 0 Detected] by (simp add: g)
qed

lemma expire_one_phase [simp]:
  "d_phase (dir_of (snd (expire_one lib env d c)) e) =
     (case d_phase (dir_of c e) of
        Fetching f \<Rightarrow> if d = e \<and> f_deadline f \<le> env_now env then Idle else Fetching f
      | p \<Rightarrow> p)"
  by (cases "d = e"; cases "d_phase (dir_of c d)"; cases "d_phase (dir_of c e)")
     (simp_all add: expire_one_def refuse_def Let_def)

text \<open>
  When the deadline passes, exactly the offers whose sender or scanner is late are dropped:
  the others, and what is already offered, stay as they are.
\<close>

theorem expire_drops_late:
  assumes "expire_at lib env c = (Ok (), c')"
  shows "d_phase (dir_of c' d) =
    (case d_phase (dir_of c d) of
       Fetching f \<Rightarrow> if f_deadline f \<le> env_now env then Idle else Fetching f
     | p \<Rightarrow> p)"
proof -
  obtain c1 where c1: "expire_one lib env Upload c = (Ok (), c1)"
      and c': "expire_one lib env Download c1 = (Ok (), c')"
    using assms by (auto simp: expire_at_def clip_then_def split: prod.splits sum.splits)
  have "d_phase (dir_of c' d) = d_phase (dir_of (snd (expire_one lib env Download (snd (expire_one lib env Upload c)))) d)"
    using c1 c' by simp
  moreover have "Upload = d \<or> Download = d" by (cases d) simp_all
  ultimately show ?thesis unfolding expire_one_phase
    by (cases "d_phase (dir_of c d)") (auto simp del: dir_of.simps split: if_splits)
qed

theorem expire_drops_late_witness:
  "d_phase (dir_of (snd (expire_at sample_lib (sample_env (secs 60)) sample_scanning)) Upload) = Idle"
proof -
  have "expire_at sample_lib (sample_env (secs 60)) sample_scanning =
      (Ok (), snd (expire_at sample_lib (sample_env (secs 60)) sample_scanning))"
    by code_simp
  from expire_drops_late [OF this, of Upload] show ?thesis
    unfolding sample_scanning_phase
    by (simp add: sample_scan_fetch_def sample_env_def ANSWER_def secs_def)
qed

section \<open>Staging\<close>

text \<open>
  The staging counter as every session uses it: reservations made and dropped in any order.
\<close>

datatype staging_op = Reserve "64 word" | Drop nat

fun staging_step :: "64 word \<Rightarrow> staging_op \<Rightarrow> 64 word \<times> 64 word list \<Rightarrow> 64 word \<times> 64 word list" where
  "staging_step mx (Reserve n) (held, rs) =
     (case reserve held mx n of Some h \<Rightarrow> (h, n # rs) | None \<Rightarrow> (held, rs))"
| "staging_step mx (Drop k) (held, rs) =
     (if k < length rs then (held - rs ! k, take k rs @ drop (Suc k) rs) else (held, rs))"

definition staging_run :: "64 word \<Rightarrow> staging_op list \<Rightarrow> 64 word \<times> 64 word list" where
  "staging_run mx ops = fold (staging_step mx) ops (0, [])"

definition staged :: "64 word \<Rightarrow> 64 word \<times> 64 word list \<Rightarrow> bool" where
  "staged mx s \<longleftrightarrow> unat (fst s) = sum_list (map unat (snd s)) \<and> fst s \<le> mx"

lemma reserve_Some:
  assumes "reserve held mx n = Some h"
  shows "unat h = unat held + unat n" and "h \<le> mx"
  using assms by (auto simp: reserve_def unat_word_ariths split: if_splits)

lemma reserve_None: "reserve held mx n = None \<longleftrightarrow> unat held + unat n > unat mx"
proof (cases "unat held + unat n < 2 ^ 64")
  case True
  then have "unat (held + n) = unat held + unat n" by (simp add: unat_word_ariths)
  then show ?thesis using True by (auto simp: reserve_def word_le_nat_alt)
next
  case False
  have "unat mx < 2 ^ 64" using unsigned_less [of mx] by simp
  then show ?thesis using False by (simp add: reserve_def)
qed

lemma sum_without_nth:
  "k < length rs \<Longrightarrow> sum_list (map unat rs) = unat (rs ! k) + sum_list (map unat (take k rs @ drop (Suc k) rs))"
  by (subst id_take_nth_drop [of k rs]) simp_all

lemma staged_step: "staged mx s \<Longrightarrow> staged mx (staging_step mx op s)"
proof (induction mx op s rule: staging_step.induct)
  case (1 mx n held rs)
  then show ?case
    by (auto simp: staged_def reserve_Some split: option.splits)
next
  case (2 mx k held rs)
  show ?case
  proof (cases "k < length rs")
    case True
    note sum = sum_without_nth [OF True]
    have le: "rs ! k \<le> held" using 2 sum by (simp add: staged_def word_le_nat_alt)
    then have u: "unat (held - rs ! k) = unat held - unat (rs ! k)" by (rule unat_sub)
    have "unat held \<le> unat mx" using 2 by (simp add: staged_def word_le_nat_alt)
    then have "held - rs ! k \<le> mx" unfolding word_le_nat_alt u by (rule order.trans [OF diff_le_self])
    then show ?thesis using 2 True sum u by (simp add: staged_def)
  qed (use 2 in simp)
qed

text \<open>
  C32: However the sessions reserve and drop, the staging counter is exactly the sum of the
  reservations still held, never wraps and never passes its limit; and a reservation is refused
  exactly when it would not fit.
\<close>

theorem staging_exact:
  "staged mx (staging_run mx ops) \<and>
   (reserve (fst (staging_run mx ops)) mx n = None \<longleftrightarrow>
      sum_list (map unat (snd (staging_run mx ops))) + unat n > unat mx)"
proof -
  have "staged mx (fold (staging_step mx) ops s)" if "staged mx s" for s
    using that by (induction ops arbitrary: s) (simp_all add: staged_step)
  then have "staged mx (staging_run mx ops)" by (simp add: staging_run_def staged_def)
  then show ?thesis by (simp add: staged_def reserve_None)
qed

lemma unat_sum_list: "unat (sum_list ws) = sum_list (map unat ws) mod 2 ^ 64" for ws :: "64 word list"
  by (induction ws) (simp_all add: unat_word_ariths mod_simps)

text \<open>
  C40: What an offer reserves is the sum of its files' sizes only up to $2^{64}$. Four files of $2^{62}$
  bytes each pass an offer with no file-size limit and reserve nothing, so their fetch starts
  whatever the staging limit.
\<close>

theorem total_of_wraps:
  "unat (total_of files) = sum_list (map unat (sizes_of files)) mod 2 ^ 64 \<and>
   (fd_file_size fd = Some (2 ^ 62) \<and> \<not> is_folder fd \<longrightarrow>
      offer_refusal None [fd, fd, fd, fd] = None \<and>
      reserve held mx (total_of [fd, fd, fd, fd]) = (if held \<le> mx then Some held else None))"
proof -
  have "offer_refusal None [fd, fd, fd, fd] = None \<and>
      reserve held mx (total_of [fd, fd, fd, fd]) = (if held \<le> mx then Some held else None)"
    if "fd_file_size fd = Some (2 ^ 62) \<and> \<not> is_folder fd"
  proof -
    have "total_of [fd, fd, fd, fd] = 0" using that by (simp add: total_of_def sizes_of_def file_size_or_0_def)
    moreover have "unat held < 2 ^ 64" using unsigned_less [of held] by simp
    ultimately show ?thesis using that by (simp add: reserve_def offer_refusal_def)
  qed
  then show ?thesis by (simp add: total_of_def unat_sum_list)
qed

definition huge_file :: file_descriptor where
  "huge_file = \<lparr> fd_attributes = None, fd_last_write_time = None, fd_file_size = Some (2 ^ 62), fd_name = ''a'',
     fd_relative_path = None \<rparr>"

theorem total_of_wraps_witness:
  "offer_refusal None [huge_file, huge_file, huge_file, huge_file] = None \<and>
   reserve 5 10 (total_of [huge_file, huge_file, huge_file, huge_file]) = Some 5"
proof -
  have "fd_file_size huge_file = Some (2 ^ 62) \<and> \<not> is_folder huge_file" by (simp add: huge_file_def is_folder_def)
  then show ?thesis using total_of_wraps [of "[]" huge_file 5 10] by simp
qed

end
