(* ===== verification/WA_Notices.thy ===== *)
theory WA_Notices
  imports WA_Clip
begin

text \<open>
  The messages a user's page shows about file scans, and the activity-log lines written for them:
  \<open>Notices\<close>, \<open>notice_text\<close>, \<open>audit_lines\<close> and \<open>action\<close> of \<open>src/src/scan/mod.rs\<close>. The sequence number
  is a \<open>u64\<close> that goes up by one per message; it is a natural number here.
\<close>

section \<open>State and operations\<close>

record notice =
  n_seq :: nat
  n_text :: string
  n_bad :: bool

record notices =
  ns_last :: nat
  ns_queues :: "int \<Rightarrow> notice list option"

definition NOTICES_KEPT :: nat where "NOTICES_KEPT = 32"

definition notices_new :: notices where
  "notices_new = \<lparr> ns_last = 0, ns_queues = (\<lambda>_. None) \<rparr>"

text \<open>\<open>while q.len() > NOTICES_KEPT { q.pop_front(); }\<close>\<close>

fun pop_to :: "nat \<Rightarrow> 'a list \<Rightarrow> 'a list" where
  "pop_to n q = (if length q > n then pop_to n (tl q) else q)"

declare pop_to.simps [simp del]

definition notices_push :: "int \<Rightarrow> string \<Rightarrow> bool \<Rightarrow> notices \<Rightarrow> notices" where
  "notices_push user_id txt bad ns =
     (let seq = ns_last ns + 1;
          q = (case ns_queues ns user_id of Some q \<Rightarrow> q | None \<Rightarrow> []);
          q' = pop_to NOTICES_KEPT (q @ [\<lparr> n_seq = seq, n_text = txt, n_bad = bad \<rparr>])
      in \<lparr> ns_last = seq, ns_queues = (ns_queues ns)(user_id \<mapsto> q') \<rparr>)"

definition notices_since :: "int \<Rightarrow> nat \<Rightarrow> notices \<Rightarrow> notice list \<times> nat" where
  "notices_since user_id after ns =
     ((case ns_queues ns user_id of Some q \<Rightarrow> filter (\<lambda>n. n_seq n > after) q | None \<Rightarrow> []), ns_last ns)"

definition names_of :: "files \<Rightarrow> string" where
  "names_of fs = (if fs = [] then ''files'' else join '', '' (map fst fs))"

definition notice_text :: "report \<Rightarrow> string \<Rightarrow> string \<times> bool" where
  "notice_text r server =
     (case r of
        Started Upload fs \<Rightarrow> (''scanning '' @ names_of fs @ '' before they reach '' @ server, False)
      | Started Download fs \<Rightarrow> (''scanning '' @ names_of fs @ '' from '' @ server, False)
      | Passed Upload fs \<Rightarrow> (names_of fs @ '' passed the scan; paste on '' @ server, False)
      | Passed Download fs \<Rightarrow> (names_of fs @ '' from '' @ server @ '' passed the scan'', False)
      | Refused Upload fs reason \<Rightarrow> (names_of fs @ '' not sent to '' @ server @ '': '' @ reason, True)
      | Refused Download fs reason \<Rightarrow> (names_of fs @ '' from '' @ server @ '' refused: '' @ reason, True))"

definition action_of :: "dir \<Rightarrow> string" where
  "action_of d = (case d of Upload \<Rightarrow> ''file.upload'' | Download \<Rightarrow> ''file.download'')"

definition file_line :: "string \<Rightarrow> string \<Rightarrow> string \<times> 64 word \<Rightarrow> string" where
  "file_line server outcome f =
     fst f @ '' ('' @ show_nat (unat (snd f)) @ '' bytes), '' @ server @ '': '' @ outcome"

definition audit_lines :: "report \<Rightarrow> string \<Rightarrow> (string \<times> string) list" where
  "audit_lines r server =
     (case r of
        Started _ _ \<Rightarrow> []
      | Passed d fs \<Rightarrow> map (\<lambda>f. (action_of d, file_line server ''passed'' f)) fs
      | Refused d fs reason \<Rightarrow>
          if fs = [] then [(action_of d, server @ '': refused: '' @ reason)]
          else map (\<lambda>f. (action_of d, file_line server (''refused: '' @ reason) f)) fs)"

section \<open>What a page sees\<close>

lemma pop_to_drop: "pop_to n q = drop (length q - n) q"
proof (induction n q rule: pop_to.induct)
  case (1 n q)
  show ?case
  proof (cases "length q > n")
    case True
    then show ?thesis using 1 [OF True]
      by (subst pop_to.simps) (simp add: drop_Suc [symmetric] Suc_diff_Suc del: drop_Suc)
  qed (subst pop_to.simps, simp)
qed

text \<open>A history of messages, and the ones a user got, numbered in order.\<close>

fun push_all_notices :: "(int \<times> string \<times> bool) list \<Rightarrow> notices \<Rightarrow> notices" where
  "push_all_notices [] ns = ns"
| "push_all_notices ((u, t, b) # hs) ns = push_all_notices hs (notices_push u t b ns)"

fun sent_to :: "int \<Rightarrow> nat \<Rightarrow> (int \<times> string \<times> bool) list \<Rightarrow> notice list" where
  "sent_to u k [] = []"
| "sent_to u k ((v, t, b) # hs) =
     (if v = u then [\<lparr> n_seq = k + 1, n_text = t, n_bad = b \<rparr>] else []) @ sent_to u (k + 1) hs"

definition queue_of :: "int \<Rightarrow> notices \<Rightarrow> notice list" where
  "queue_of u ns = (case ns_queues ns u of Some q \<Rightarrow> q | None \<Rightarrow> [])"

lemma queue_push:
  "queue_of u (notices_push v t b ns) =
     (if u = v then drop (length (queue_of u ns) + 1 - NOTICES_KEPT)
        (queue_of u ns @ [\<lparr> n_seq = ns_last ns + 1, n_text = t, n_bad = b \<rparr>]) else queue_of u ns)"
  by (simp add: queue_of_def notices_push_def Let_def pop_to_drop split: option.splits)

lemma last_push [simp]: "ns_last (notices_push v t b ns) = ns_last ns + 1"
  by (simp add: notices_push_def Let_def)

definition keep_last :: "nat \<Rightarrow> 'a list \<Rightarrow> 'a list" where
  "keep_last n xs = drop (length xs - n) xs"

lemma keep_last_keep_last: "keep_last n (keep_last n xs @ ys) = keep_last n (xs @ ys)"
proof (cases "length xs \<le> n")
  case False
  then have l: "length (keep_last n xs) = n" by (simp add: keep_last_def)
  show ?thesis
  proof (cases "length ys \<le> n")
    case True
    have "drop (n + length ys - n) (keep_last n xs @ ys) = drop (length ys) (keep_last n xs) @ ys"
      using True l by simp
    moreover have "drop (length xs + length ys - n) (xs @ ys) = drop (length xs + length ys - n) xs @ ys"
      using True False by simp
    moreover have "drop (length ys) (keep_last n xs) = drop (length xs + length ys - n) xs"
      using False by (simp add: keep_last_def add.commute)
    ultimately show ?thesis by (simp add: keep_last_def [of n "_ @ ys"] l)
  qed (use False in \<open>simp add: keep_last_def\<close>)
qed (simp add: keep_last_def)

lemma queue_push_all:
  "queue_of u (push_all_notices hs ns) = keep_last NOTICES_KEPT (queue_of u ns @ sent_to u (ns_last ns) hs)"
  if "length (queue_of u ns) \<le> NOTICES_KEPT"
  using that
proof (induction hs arbitrary: ns)
  case Nil
  then show ?case by (simp add: keep_last_def)
next
  case (Cons h hs)
  obtain v t b where h: "h = (v, t, b)" by (cases h) auto
  let ?ns = "notices_push v t b ns"
  have len: "length (queue_of u ?ns) \<le> NOTICES_KEPT"
    using Cons.prems by (simp add: queue_push NOTICES_KEPT_def) arith
  show ?case
  proof (cases "u = v")
    case True
    let ?n = "\<lparr> n_seq = ns_last ns + 1, n_text = t, n_bad = b \<rparr>"
    have "queue_of u ?ns = keep_last NOTICES_KEPT (queue_of u ns @ [?n])"
      using True by (simp add: queue_push keep_last_def)
    then show ?thesis
      using Cons.IH [OF len] True by (simp add: h keep_last_keep_last)
  next
    case False
    then show ?thesis using Cons.IH [OF len] by (simp add: h queue_push)
  qed
qed

lemma last_push_all: "ns_last (push_all_notices hs ns) = ns_last ns + length hs"
  by (induction hs arbitrary: ns) auto

text \<open>
  After any sequence of messages to any users, a page asking for what came after number
  \<open>after\<close> gets, in order, exactly the messages to its own user with a later number among that
  user's latest 32, and the number to ask from next.
\<close>

theorem notices_since_exact:
  "notices_since u after (push_all_notices hs notices_new) =
     (filter (\<lambda>n. n_seq n > after) (keep_last NOTICES_KEPT (sent_to u 0 hs)), length hs)"
proof -
  have q: "queue_of u notices_new = []" "ns_last notices_new = 0"
    by (simp_all add: queue_of_def notices_new_def)
  have "queue_of u (push_all_notices hs notices_new) = keep_last NOTICES_KEPT (sent_to u 0 hs)"
    using queue_push_all [of u notices_new hs] by (simp add: q)
  moreover have "fst (notices_since u after ns) = filter (\<lambda>n. n_seq n > after) (queue_of u ns)" for ns
    by (simp add: notices_since_def queue_of_def split: option.splits)
  moreover have "snd (notices_since u after (push_all_notices hs notices_new)) = length hs"
    by (simp add: notices_since_def last_push_all q)
  ultimately show ?thesis by (metis prod.collapse)
qed

text \<open>Every file that passed or was refused has a line of its own, and a start has none.\<close>

lemma audit_lines_count:
  "length (audit_lines r server) =
     (case r of Started _ _ \<Rightarrow> 0 | Passed _ fs \<Rightarrow> length fs | Refused _ fs _ \<Rightarrow> max 1 (length fs))"
  by (cases r) (auto simp: audit_lines_def neq_Nil_conv)

end
