(* ===== verification/WA_Vault.thy ===== *)
theory WA_Vault
  imports WA_Store_Laws WA_Text
begin

text \<open>
  Encryption of saved credentials, \<open>src/src/vault.rs\<close>.

  AES-256-GCM and Argon2id are library code: the record \<open>crypto\<close>, a parameter. \<open>crypto_ok\<close> says what
  the code relies on: what is sealed opens under the same key, nonce and associated data, and a
  derived key has the length asked for. Random bytes are arguments, of the length of the buffer the
  code fills; \<open>None\<close> is the operating system's source failing. A \<open>KeyProtector\<close> is a pair of
  functions; the key file is one of them, built from the code's own \<open>seal_blob\<close> and \<open>open_blob\<close>,
  and DPAPI is left as a parameter.
\<close>

section \<open>Constants, errors and parameters\<close>

definition KEY_LEN :: nat where "KEY_LEN = 32"
definition SALT_LEN :: nat where "SALT_LEN = 16"
definition NONCE_LEN :: nat where "NONCE_LEN = 12"
definition FORMAT :: byte where "FORMAT = 1"
definition MIN_PASSPHRASE :: nat where "MIN_PASSPHRASE = 12"

definition META_LOCAL :: string where "META_LOCAL = ''master_local''"
definition META_RECOVERY :: string where "META_RECOVERY = ''master_recovery''"
definition AAD_LOCAL :: bytes where "AAD_LOCAL = bytes_of ''web-access local wrap v1''"
definition AAD_RECOVERY :: bytes where "AAD_RECOVERY = bytes_of ''web-access recovery wrap v1''"

datatype vault_error =
    Locked
  | WrongPassphrase
  | NoRecovery
  | Weak
  | Crypto
  | Protect string
  | VaultStore store_error
  | VaultIo string

record crypto =
  gcm_seal :: "bytes \<Rightarrow> bytes \<Rightarrow> bytes \<Rightarrow> bytes \<Rightarrow> bytes option"
  gcm_open :: "bytes \<Rightarrow> bytes \<Rightarrow> bytes \<Rightarrow> bytes \<Rightarrow> bytes option"
  argon2id :: "string \<Rightarrow> bytes \<Rightarrow> string + bytes"

definition crypto_ok :: "crypto \<Rightarrow> bool" where
  "crypto_ok cr \<longleftrightarrow>
     (\<forall>k n a p c. length k = KEY_LEN \<longrightarrow> length n = NONCE_LEN \<longrightarrow>
        gcm_seal cr k n a p = Some c \<longrightarrow> gcm_open cr k n a c = Some p) \<and>
     (\<forall>p s k. argon2id cr p s = Ok k \<longrightarrow> length k = KEY_LEN)"

record protector =
  protect :: "bytes \<Rightarrow> vault_error + bytes"
  unprotect :: "bytes \<Rightarrow> vault_error + bytes"

record vault =
  v_master :: "bytes option"
  v_protector :: protector

text \<open>A store operation inside a vault operation: \<open>?\<close> with \<open>VaultError::Store\<close>.\<close>

definition vstore :: "store_error + 'a \<Rightarrow> vault_error + 'a" where
  "vstore r = (case r of Err e \<Rightarrow> Err (VaultStore e) | Ok x \<Rightarrow> Ok x)"

lemma vstore_simps [simp]: "vstore (Err e) = Err (VaultStore e)" "vstore (Ok x) = Ok x"
  by (simp_all add: vstore_def)

section \<open>Blobs\<close>

definition random_bytes :: "bytes option \<Rightarrow> vault_error + bytes" where
  "random_bytes r =
     (case r of Some b \<Rightarrow> Ok b | None \<Rightarrow> Err (Protect ''the OS random source failed''))"

definition random_key :: "bytes option \<Rightarrow> vault_error + bytes" where
  "random_key r = random_bytes r"

definition to_key :: "bytes \<Rightarrow> bytes" where
  "to_key b = take KEY_LEN b"

definition seal_blob :: "crypto \<Rightarrow> bytes option \<Rightarrow> bytes \<Rightarrow> bytes \<Rightarrow> bytes \<Rightarrow> vault_error + bytes" where
  "seal_blob cr rnd key aad plain =
     (case random_bytes rnd of
        Err e \<Rightarrow> Err e
      | Ok nonce \<Rightarrow>
          (case gcm_seal cr key nonce aad plain of
             None \<Rightarrow> Err Crypto
           | Some ct \<Rightarrow> Ok (nonce @ ct)))"

definition open_blob :: "crypto \<Rightarrow> bytes \<Rightarrow> bytes \<Rightarrow> bytes \<Rightarrow> vault_error + bytes" where
  "open_blob cr key aad blob =
     (if length blob < NONCE_LEN then Err Crypto
      else (case gcm_open cr key (take NONCE_LEN blob) aad (drop NONCE_LEN blob) of
              None \<Rightarrow> Err Crypto
            | Some plain \<Rightarrow> Ok plain))"

definition derive :: "crypto \<Rightarrow> string \<Rightarrow> bytes \<Rightarrow> vault_error + bytes" where
  "derive cr pw salt = (case argon2id cr pw salt of Err e \<Rightarrow> Err (Protect e) | Ok k \<Rightarrow> Ok k)"

definition encrypt_with_passphrase ::
  "crypto \<Rightarrow> bytes option \<Rightarrow> bytes option \<Rightarrow> string \<Rightarrow> bytes \<Rightarrow> bytes \<Rightarrow> vault_error + bytes" where
  "encrypt_with_passphrase cr salt_r nonce_r pw aad data =
     (case random_bytes salt_r of
        Err e \<Rightarrow> Err e
      | Ok salt \<Rightarrow>
          (case derive cr pw salt of
             Err e \<Rightarrow> Err e
           | Ok kek \<Rightarrow>
               (case seal_blob cr nonce_r kek aad data of
                  Err e \<Rightarrow> Err e
                | Ok sealed \<Rightarrow> Ok (FORMAT # salt @ sealed))))"

definition decrypt_with_passphrase ::
  "crypto \<Rightarrow> string \<Rightarrow> bytes \<Rightarrow> bytes \<Rightarrow> vault_error + bytes" where
  "decrypt_with_passphrase cr pw aad blob =
     (if length blob < 1 + SALT_LEN + NONCE_LEN \<or> hd blob \<noteq> FORMAT then Err Crypto
      else (case derive cr pw (take SALT_LEN (drop 1 blob)) of
              Err e \<Rightarrow> Err e
            | Ok kek \<Rightarrow>
                (case open_blob cr kek aad (drop (1 + SALT_LEN) blob) of
                   Err _ \<Rightarrow> Err WrongPassphrase
                 | Ok plain \<Rightarrow> Ok plain)))"

definition wrap_recovery ::
  "crypto \<Rightarrow> bytes option \<Rightarrow> bytes option \<Rightarrow> bytes \<Rightarrow> string \<Rightarrow> vault_error + bytes" where
  "wrap_recovery cr salt_r nonce_r key pw = encrypt_with_passphrase cr salt_r nonce_r pw AAD_RECOVERY key"

definition unwrap_recovery :: "crypto \<Rightarrow> bytes \<Rightarrow> string \<Rightarrow> vault_error + bytes" where
  "unwrap_recovery cr blob pw =
     (case decrypt_with_passphrase cr pw AAD_RECOVERY blob of
        Err e \<Rightarrow> Err e
      | Ok key \<Rightarrow> if length key \<noteq> KEY_LEN then Err Crypto else Ok (to_key key))"

text \<open>The key file's protector.\<close>

definition keyfile_protector :: "crypto \<Rightarrow> bytes option \<Rightarrow> bytes \<Rightarrow> protector" where
  "keyfile_protector cr nonce_r key =
     \<lparr> protect = seal_blob cr nonce_r key AAD_LOCAL, unprotect = open_blob cr key AAD_LOCAL \<rparr>"

text \<open>Reading the file: its bytes, that there is none, or another failure of the file system.\<close>

datatype key_file = FileBytes bytes | FileMissing | FileFails string

text \<open>The key, and the bytes to be written to a new file.\<close>

definition load_or_create ::
  "string \<Rightarrow> key_file \<Rightarrow> bytes option \<Rightarrow> (bytes \<Rightarrow> string option) \<Rightarrow> vault_error + (bytes \<times> bytes option)" where
  "load_or_create path file rnd write_private =
     (case file of
        FileBytes b \<Rightarrow>
          if length b = KEY_LEN then Ok (b, None)
          else Err (Protect (path @ '' is not a '' @ show_nat KEY_LEN @ ''-byte key''))
      | FileMissing \<Rightarrow>
          (case random_key rnd of
             Err e \<Rightarrow> Err e
           | Ok key \<Rightarrow>
               (case write_private key of
                  Some e \<Rightarrow> Err (VaultIo e)
                | None \<Rightarrow> Ok (key, Some key)))
      | FileFails e \<Rightarrow> Err (VaultIo e))"

section \<open>The vault\<close>

definition vault_install :: "bytes \<Rightarrow> vault \<Rightarrow> vault" where
  "vault_install key v = v\<lparr>v_master := Some key\<rparr>"

definition vault_key :: "vault \<Rightarrow> vault_error + bytes" where
  "vault_key v = (case v_master v of None \<Rightarrow> Err Locked | Some k \<Rightarrow> Ok k)"

definition is_unlocked :: "vault \<Rightarrow> bool" where
  "is_unlocked v = is_ok (vault_key v)"

definition recovery_set :: "store \<Rightarrow> vault_error + bool" where
  "recovery_set st = (case vstore (meta_get st META_RECOVERY) of Err e \<Rightarrow> Err e | Ok b \<Rightarrow> Ok (b \<noteq> None))"

definition vault_load :: "store \<Rightarrow> protector \<Rightarrow> bytes option \<Rightarrow> vault_error + (vault \<times> store)" where
  "vault_load st prot rnd =
     (let v = \<lparr> v_master = None, v_protector = prot \<rparr>
      in case vstore (meta_get st META_LOCAL) of
           Err e \<Rightarrow> Err e
         | Ok (Some blob) \<Rightarrow>
             (case unprotect prot blob of
                Ok key \<Rightarrow> if length key = KEY_LEN then Ok (vault_install (to_key key) v, st) else Ok (v, st)
              | Err _ \<Rightarrow> Ok (v, st))
         | Ok None \<Rightarrow>
             (case vstore (meta_get st META_RECOVERY) of
                Err e \<Rightarrow> Err e
              | Ok (Some _) \<Rightarrow> Ok (v, st)
              | Ok None \<Rightarrow>
                  (case random_key rnd of
                     Err e \<Rightarrow> Err e
                   | Ok key \<Rightarrow>
                       (case protect prot key of
                          Err e \<Rightarrow> Err e
                        | Ok blob \<Rightarrow>
                            (case vstore (meta_set st META_LOCAL blob) of
                               Err e \<Rightarrow> Err e
                             | Ok (_, st') \<Rightarrow> Ok (vault_install key v, st'))))))"

definition vault_seal_value ::
  "crypto \<Rightarrow> bytes option \<Rightarrow> vault \<Rightarrow> bytes \<Rightarrow> bytes \<Rightarrow> vault_error + bytes" where
  "vault_seal_value cr rnd v aad plain =
     (case vault_key v of Err e \<Rightarrow> Err e | Ok k \<Rightarrow> seal_blob cr rnd k aad plain)"

definition vault_open_value :: "crypto \<Rightarrow> vault \<Rightarrow> bytes \<Rightarrow> bytes \<Rightarrow> vault_error + bytes" where
  "vault_open_value cr v aad blob =
     (case vault_key v of Err e \<Rightarrow> Err e | Ok k \<Rightarrow> open_blob cr k aad blob)"

definition vault_seal ::
  "crypto \<Rightarrow> bytes option \<Rightarrow> vault \<Rightarrow> bytes \<Rightarrow> bytes \<Rightarrow> vault_error + (bytes \<times> bytes)" where
  "vault_seal cr rnd v aad plain =
     (case vault_key v of
        Err e \<Rightarrow> Err e
      | Ok k \<Rightarrow>
          (case seal_blob cr rnd k aad plain of
             Err e \<Rightarrow> Err e
           | Ok blob \<Rightarrow> Ok (take NONCE_LEN blob, drop NONCE_LEN blob)))"

definition vault_open :: "crypto \<Rightarrow> vault \<Rightarrow> bytes \<Rightarrow> bytes \<Rightarrow> bytes \<Rightarrow> vault_error + bytes" where
  "vault_open cr v aad nonce ct =
     (case vault_key v of Err e \<Rightarrow> Err e | Ok k \<Rightarrow> open_blob cr k aad (nonce @ ct))"

definition check_strength :: "string \<Rightarrow> vault_error + unit" where
  "check_strength pw = (if char_count pw < MIN_PASSPHRASE then Err Weak else Ok ())"

definition set_wrap ::
  "crypto \<Rightarrow> bytes option \<Rightarrow> bytes option \<Rightarrow> bytes \<Rightarrow> string \<Rightarrow> store \<Rightarrow> vault_error + (unit \<times> store)" where
  "set_wrap cr salt_r nonce_r key pw st =
     (case wrap_recovery cr salt_r nonce_r key pw of
        Err e \<Rightarrow> Err e
      | Ok w \<Rightarrow> vstore (meta_set st META_RECOVERY w))"

definition set_recovery ::
  "crypto \<Rightarrow> bytes option \<Rightarrow> bytes option \<Rightarrow> vault \<Rightarrow> string option \<Rightarrow> string \<Rightarrow> store \<Rightarrow> vault_error + (unit \<times> store)"
where
  "set_recovery cr salt_r nonce_r v current new st =
     (case vault_key v of
        Err e \<Rightarrow> Err e
      | Ok key \<Rightarrow>
          (case check_strength new of
             Err e \<Rightarrow> Err e
           | Ok _ \<Rightarrow>
               (case vstore (meta_get st META_RECOVERY) of
                  Err e \<Rightarrow> Err e
                | Ok None \<Rightarrow> set_wrap cr salt_r nonce_r key new st
                | Ok (Some blob) \<Rightarrow>
                    (case current of
                       None \<Rightarrow> Err WrongPassphrase
                     | Some cur \<Rightarrow>
                         (case unwrap_recovery cr blob cur of
                            Err e \<Rightarrow> Err e
                          | Ok k \<Rightarrow>
                              if k \<noteq> key then Err WrongPassphrase
                              else set_wrap cr salt_r nonce_r key new st)))))"

definition replace_recovery ::
  "crypto \<Rightarrow> bytes option \<Rightarrow> bytes option \<Rightarrow> vault \<Rightarrow> string \<Rightarrow> store \<Rightarrow> vault_error + (unit \<times> store)" where
  "replace_recovery cr salt_r nonce_r v new st =
     (case vault_key v of
        Err e \<Rightarrow> Err e
      | Ok key \<Rightarrow>
          (case check_strength new of
             Err e \<Rightarrow> Err e
           | Ok _ \<Rightarrow> set_wrap cr salt_r nonce_r key new st))"

definition vault_reset ::
  "bytes option \<Rightarrow> vault \<Rightarrow> string list \<Rightarrow> store \<Rightarrow> vault_error + (nat \<times> vault \<times> store)" where
  "vault_reset rnd v also_forget st =
     (case random_key rnd of
        Err e \<Rightarrow> Err e
      | Ok key \<Rightarrow>
          (case protect (v_protector v) key of
             Err e \<Rightarrow> Err e
           | Ok wrapped \<Rightarrow>
               (case vstore (replace_secrets st (META_RECOVERY # also_forget) (META_LOCAL, wrapped)) of
                  Err e \<Rightarrow> Err e
                | Ok (removed, st') \<Rightarrow> Ok (removed, vault_install key v, st'))))"

definition verify_recovery :: "crypto \<Rightarrow> store \<Rightarrow> string \<Rightarrow> vault_error + bytes" where
  "verify_recovery cr st pw =
     (case vstore (meta_get st META_RECOVERY) of
        Err e \<Rightarrow> Err e
      | Ok None \<Rightarrow> Err NoRecovery
      | Ok (Some blob) \<Rightarrow> unwrap_recovery cr blob pw)"

definition vault_adopt :: "crypto \<Rightarrow> vault \<Rightarrow> store \<Rightarrow> string \<Rightarrow> vault_error + (bytes \<times> store)" where
  "vault_adopt cr v st pw =
     (case verify_recovery cr st pw of
        Err e \<Rightarrow> Err e
      | Ok key \<Rightarrow>
          (case protect (v_protector v) key of
             Err e \<Rightarrow> Err e
           | Ok blob \<Rightarrow>
               (case vstore (meta_set st META_LOCAL blob) of
                  Err e \<Rightarrow> Err e
                | Ok (_, st') \<Rightarrow> Ok (key, st'))))"

section \<open>Local passwords\<close>

definition hex :: "bytes \<Rightarrow> string" where
  "hex b = concat (map hex2 b)"

text \<open>
  \<open>u8::from_str_radix(two, 16)\<close>: two digits, or a plus sign and one digit.
\<close>

definition radix16 :: "char \<Rightarrow> char \<Rightarrow> byte option" where
  "radix16 a b =
     (if a = CHR ''+'' then map_option of_nat (hex_val b)
      else (case (hex_val a, hex_val b) of
              (Some x, Some y) \<Rightarrow> Some (of_nat (16 * x + y))
            | _ \<Rightarrow> None))"

fun unhex_pairs :: "string \<Rightarrow> bytes option" where
  "unhex_pairs (a # b # rest) =
     (case radix16 a b of
        None \<Rightarrow> None
      | Some x \<Rightarrow> map_option (\<lambda>xs. x # xs) (unhex_pairs rest))"
| "unhex_pairs _ = Some []"

definition unhex :: "string \<Rightarrow> bytes option" where
  "unhex s = (if odd (length s) then None else unhex_pairs s)"

definition hash_password :: "crypto \<Rightarrow> bytes option \<Rightarrow> string \<Rightarrow> vault_error + string" where
  "hash_password cr salt_r pw =
     (case random_bytes salt_r of
        Err e \<Rightarrow> Err e
      | Ok salt \<Rightarrow>
          (case derive cr pw salt of
             Err e \<Rightarrow> Err e
           | Ok h \<Rightarrow> Ok (''argon2id$'' @ hex salt @ ''$'' @ hex h)))"

text \<open>The comparison that looks at every byte whatever it finds.\<close>

definition ct_eq :: "bytes \<Rightarrow> bytes \<Rightarrow> bool" where
  "ct_eq got want \<longleftrightarrow>
     length got = length want \<and> foldl (\<lambda>acc (a, b). or acc (xor a b)) 0 (zip got want) = 0"

definition verify_password :: "crypto \<Rightarrow> string \<Rightarrow> string \<Rightarrow> bool" where
  "verify_password cr pw stored =
     (case split_on CHR ''$'' stored of
        [tag, salt, want] \<Rightarrow>
          if tag \<noteq> ''argon2id'' then False
          else (case (unhex salt, unhex want) of
                  (Some s, Some w) \<Rightarrow> (case derive cr pw s of Ok got \<Rightarrow> ct_eq got w | Err _ \<Rightarrow> False)
                | _ \<Rightarrow> False)
      | _ \<Rightarrow> False)"

definition credential_aad :: "string \<Rightarrow> int \<Rightarrow> bytes" where
  "credential_aad sid server_id =
     bytes_of (''credential'' @ [CHR 0x00] @ sid @ [CHR 0x00] @ show_int server_id)"

section \<open>Sealing and opening\<close>

lemma seal_blob_Ok:
  assumes "seal_blob cr rnd k aad p = Ok b"
  obtains n c where "rnd = Some n" "gcm_seal cr k n aad p = Some c" "b = n @ c"
  using assms by (auto simp: seal_blob_def random_bytes_def split: option.splits sum.splits)

lemma open_seal_blob:
  assumes "crypto_ok cr" "length k = KEY_LEN" "\<And>n. rnd = Some n \<Longrightarrow> length n = NONCE_LEN"
    and "seal_blob cr rnd k aad p = Ok b"
  shows "open_blob cr k aad b = Ok p"
proof -
  obtain n c where nc: "rnd = Some n" "gcm_seal cr k n aad p = Some c" "b = n @ c"
    using seal_blob_Ok [OF assms(4)] .
  then have "gcm_open cr k n aad c = Some p" "length n = NONCE_LEN"
    using assms(1,2) assms(3) [OF nc(1)] by (auto simp: crypto_ok_def)
  then show ?thesis by (simp add: open_blob_def nc(3))
qed

lemma decrypt_encrypt:
  assumes "crypto_ok cr" "\<And>x. salt_r = Some x \<Longrightarrow> length x = SALT_LEN"
    "\<And>n. nonce_r = Some n \<Longrightarrow> length n = NONCE_LEN"
    and "encrypt_with_passphrase cr salt_r nonce_r pw aad data = Ok b"
  shows "decrypt_with_passphrase cr pw aad b = Ok data"
proof -
  obtain salt kek sealed where *: "salt_r = Some salt" "derive cr pw salt = Ok kek"
      "seal_blob cr nonce_r kek aad data = Ok sealed" "b = FORMAT # salt @ sealed"
    using assms(4) by (auto simp: encrypt_with_passphrase_def random_bytes_def split: option.splits sum.splits)
  have kek: "length kek = KEY_LEN"
    using *(2) assms(1) by (auto simp: derive_def crypto_ok_def split: sum.splits)
  obtain n c where nc: "nonce_r = Some n" "sealed = n @ c"
    using seal_blob_Ok [OF *(3)] by blast
  have op: "open_blob cr kek aad sealed = Ok data"
    by (rule open_seal_blob [OF assms(1) kek assms(3) *(3)])
  show ?thesis
    using * op assms(2) [OF *(1)] assms(3) [OF nc(1)] nc(2)
    by (simp add: decrypt_with_passphrase_def)
qed

lemma unwrap_wrap:
  assumes "crypto_ok cr" "\<And>x. salt_r = Some x \<Longrightarrow> length x = SALT_LEN"
    "\<And>n. nonce_r = Some n \<Longrightarrow> length n = NONCE_LEN"
    and "wrap_recovery cr salt_r nonce_r key pw = Ok b" and "length key = KEY_LEN"
  shows "unwrap_recovery cr b pw = Ok key"
  using decrypt_encrypt [OF assms(1-3) assms(4) [unfolded wrap_recovery_def]] assms(5)
  by (simp add: unwrap_recovery_def to_key_def)

text \<open>What each random source gives is as long as the buffer it fills.\<close>

definition rnd_ok :: "nat \<Rightarrow> bytes option \<Rightarrow> bool" where
  "rnd_ok n r \<longleftrightarrow> (case r of Some b \<Rightarrow> length b = n | None \<Rightarrow> True)"

lemma rnd_okD: "rnd_ok n (Some b) \<Longrightarrow> length b = n"
  by (simp add: rnd_ok_def)

lemma meta_get_Ok: "meta_get st k = Ok v \<Longrightarrow> v = meta st k"
  by (auto simp: meta_get_def stmt_def split: option.splits)

lemma meta_set_Ok: "meta_set st k v = Ok ((), st') \<Longrightarrow> st' = st\<lparr>meta := (meta st)(k \<mapsto> v)\<rparr>"
  by (auto simp: meta_set_def stmt_def split: option.splits)

lemma set_wrap_verify:
  assumes "crypto_ok cr" "rnd_ok SALT_LEN salt_r" "rnd_ok NONCE_LEN nonce_r" "length key = KEY_LEN"
    and "set_wrap cr salt_r nonce_r key pw st = Ok ((), st')"
    and "meta_get st' META_RECOVERY = Ok b"
  shows "verify_recovery cr st' pw = Ok key"
proof -
  obtain w where w: "wrap_recovery cr salt_r nonce_r key pw = Ok w" "meta_set st META_RECOVERY w = Ok ((), st')"
    using assms(5) by (auto simp: set_wrap_def vstore_def split: sum.splits)
  have b: "b = Some w" using meta_get_Ok [OF assms(6)] meta_set_Ok [OF w(2)] by simp
  have "unwrap_recovery cr w pw = Ok key"
    by (rule unwrap_wrap [OF assms(1) _ _ w(1) assms(4)]) (use assms(2,3) in \<open>auto simp: rnd_ok_def\<close>)
  then show ?thesis using assms(6) b by (simp add: verify_recovery_def)
qed

lemma set_recovery_set_wrap:
  "set_recovery cr salt_r nonce_r v cur pw st = Ok ((), st') \<Longrightarrow>
   \<exists>key. v_master v = Some key \<and> set_wrap cr salt_r nonce_r key pw st = Ok ((), st')"
  by (auto simp: set_recovery_def vault_key_def split: sum.splits option.splits if_splits)

lemma adopt_Ok:
  assumes "vault_adopt cr v st pw = Ok (key, st')"
  shows "verify_recovery cr st pw = Ok key \<and>
    (\<exists>blob. protect (v_protector v) key = Ok blob \<and> st' = st\<lparr>meta := (meta st)(META_LOCAL \<mapsto> blob)\<rparr>)"
proof -
  obtain k blob where k: "verify_recovery cr st pw = Ok k" "protect (v_protector v) k = Ok blob"
    using assms by (auto simp: vault_adopt_def split: sum.splits)
  then have "meta_set st META_LOCAL blob = Ok ((), st') \<and> k = key"
    using assms by (simp add: vault_adopt_def vstore_def split: sum.splits prod.splits)
  with k meta_set_Ok show ?thesis by blast
qed

lemma load_local:
  assumes "meta_get st META_LOCAL = Ok (Some blob)" "unprotect prot blob = Ok key" "length key = KEY_LEN"
  shows "vault_load st prot rnd = Ok (\<lparr> v_master = Some key, v_protector = prot \<rparr>, st)"
  using assms by (simp add: vault_load_def vault_install_def to_key_def)

section \<open>Properties\<close>

text \<open>
  C28: The recovery passphrase carries the credential store to another host. Once it is set on one
  host, adopting the database on another with that passphrase takes over the very same master key,
  the next start there opens unlocked with it, and everything sealed before opens there.
\<close>

theorem key_travels:
  assumes cr: "crypto_ok cr" "rnd_ok SALT_LEN salt_r" "rnd_ok NONCE_LEN nonce_r" "rnd_ok NONCE_LEN seal_r"
    and key: "v_master v = Some key" "length key = KEY_LEN"
    and set: "set_recovery cr salt_r nonce_r v cur pw st = Ok ((), st1)"
    and there: "vault_adopt cr v2 st1 pw = Ok (key2, st2)"
    and prot: "\<And>k b. length k = KEY_LEN \<Longrightarrow> protect (v_protector v2) k = Ok b \<Longrightarrow> unprotect (v_protector v2) b = Ok k"
    and sealed: "vault_seal cr seal_r v aad plain = Ok (nonce, ct)"
    and up: "meta_get st2 META_LOCAL = Ok m"
  shows "key2 = key \<and> (\<exists>v3. vault_load st2 (v_protector v2) rnd = Ok (v3, st2) \<and>
    v_master v3 = Some key \<and> vault_open cr v3 aad nonce ct = Ok plain)"
proof -
  have sw: "set_wrap cr salt_r nonce_r key pw st = Ok ((), st1)"
    using set_recovery_set_wrap [OF set] key(1) by auto
  obtain blob where ad: "verify_recovery cr st1 pw = Ok key2" "protect (v_protector v2) key2 = Ok blob"
      "st2 = st1\<lparr>meta := (meta st1)(META_LOCAL \<mapsto> blob)\<rparr>"
    using adopt_Ok [OF there] by blast
  obtain b where b: "meta_get st1 META_RECOVERY = Ok b"
    using ad(1) by (auto simp: verify_recovery_def vstore_def split: sum.splits)
  have k2: "key2 = key"
    using set_wrap_verify [OF cr(1-3) key(2) sw b] ad(1) by simp
  have m: "meta_get st2 META_LOCAL = Ok (Some blob)"
    using up meta_get_Ok [OF up] ad(3) by simp
  have load: "vault_load st2 (v_protector v2) rnd = Ok (\<lparr> v_master = Some key, v_protector = v_protector v2 \<rparr>, st2)"
    using load_local [OF m prot] ad(2) k2 key(2) by simp
  obtain blob2 where s: "seal_blob cr seal_r key aad plain = Ok blob2"
      "nonce = take NONCE_LEN blob2" "ct = drop NONCE_LEN blob2"
    using sealed key(1) by (auto simp: vault_seal_def vault_key_def split: sum.splits)
  have "open_blob cr key aad blob2 = Ok plain"
    by (rule open_seal_blob [OF cr(1) key(2) _ s(1)]) (use cr(4) in \<open>auto simp: rnd_ok_def\<close>)
  then show ?thesis using k2 load s(2,3) by (simp add: vault_open_def vault_key_def)
qed

text \<open>A small cipher and key derivation, for concrete instances.\<close>

definition sample_crypto :: crypto where
  "sample_crypto =
     \<lparr> gcm_seal = (\<lambda>k n a p. Some (a @ p)),
       gcm_open = (\<lambda>k n a c. if take (length a) c = a then Some (drop (length a) c) else None),
       argon2id = (\<lambda>p s. Ok (replicate KEY_LEN (of_nat (length p + length s)))) \<rparr>"

lemma sample_crypto_ok: "crypto_ok sample_crypto"
  by (simp add: crypto_ok_def sample_crypto_def)

definition sample_key :: bytes where "sample_key = replicate KEY_LEN 7"

definition sample_vault :: vault where
  "sample_vault = \<lparr> v_master = Some sample_key,
     v_protector = \<lparr> protect = (\<lambda>k. Ok (1 # k)), unprotect = (\<lambda>b. if b = [] then Err Crypto else Ok (tl b)) \<rparr> \<rparr>"

definition sample_pw :: string where "sample_pw = ''correct horse battery''"

definition sample_recovered :: store where
  "sample_recovered =
     empty_store\<lparr>meta := [META_RECOVERY \<mapsto> FORMAT # replicate SALT_LEN 3 @ replicate NONCE_LEN 4 @ AAD_RECOVERY @ sample_key]\<rparr>"

lemma sample_set_recovery:
  "set_recovery sample_crypto (Some (replicate SALT_LEN 3)) (Some (replicate NONCE_LEN 4)) sample_vault None sample_pw
     empty_store = Ok ((), sample_recovered)"
proof -
  have "check_strength sample_pw = Ok ()" by code_simp
  then show ?thesis
    by (simp add: set_recovery_def vault_key_def sample_vault_def meta_get_def meta_set_def stmt_def empty_store_def
        set_wrap_def wrap_recovery_def encrypt_with_passphrase_def random_bytes_def derive_def seal_blob_def
        sample_crypto_def sample_recovered_def)
qed

lemma sample_adopt:
  "vault_adopt sample_crypto sample_vault sample_recovered sample_pw =
     Ok (sample_key, sample_recovered\<lparr>meta := (meta sample_recovered)(META_LOCAL \<mapsto> 1 # sample_key)\<rparr>)"
proof -
  have "verify_recovery sample_crypto sample_recovered sample_pw = Ok sample_key"
    by (rule set_wrap_verify [OF sample_crypto_ok, of "Some (replicate SALT_LEN 3)" "Some (replicate NONCE_LEN 4)" _ _ empty_store])
       (use set_recovery_set_wrap [OF sample_set_recovery] in
         \<open>auto simp: rnd_ok_def sample_vault_def sample_key_def sample_recovered_def meta_get_def stmt_def empty_store_def\<close>)
  then show ?thesis
    by (simp add: vault_adopt_def sample_vault_def meta_set_def stmt_def sample_recovered_def empty_store_def)
qed

theorem key_travels_witness:
  "\<exists>v3. vault_load (sample_recovered\<lparr>meta := (meta sample_recovered)(META_LOCAL \<mapsto> 1 # sample_key)\<rparr>)
          (v_protector sample_vault) None =
        Ok (v3, sample_recovered\<lparr>meta := (meta sample_recovered)(META_LOCAL \<mapsto> 1 # sample_key)\<rparr>) \<and>
     vault_open sample_crypto v3 [1] (replicate NONCE_LEN 4) [1, 42] = Ok [42]"
proof -
  have sealed: "vault_seal sample_crypto (Some (replicate NONCE_LEN 4)) sample_vault [1] [42] =
      Ok (replicate NONCE_LEN 4, [1, 42])"
    by (simp add: vault_seal_def vault_key_def sample_vault_def seal_blob_def random_bytes_def sample_crypto_def)
  have m: "v_master sample_vault = Some sample_key" by (simp add: sample_vault_def)
  have l: "length sample_key = KEY_LEN" by (simp add: sample_key_def)
  have up: "meta_get (sample_recovered\<lparr>meta := (meta sample_recovered)(META_LOCAL \<mapsto> 1 # sample_key)\<rparr>) META_LOCAL
      = Ok (Some (1 # sample_key))"
    by (simp add: meta_get_def stmt_def sample_recovered_def empty_store_def)
  have pr: "unprotect (v_protector sample_vault) b = Ok k" if "protect (v_protector sample_vault) k = Ok b" for k b
    using that by (auto simp: sample_vault_def)
  show ?thesis
    using key_travels [OF sample_crypto_ok _ _ _ m l sample_set_recovery sample_adopt pr sealed up, of None]
    by (simp add: rnd_ok_def) blast
qed

section \<open>Passwords\<close>

lemma radix16_hex2: "hex2 b = [x, y] \<Longrightarrow> radix16 x y = Some b"
proof -
  assume "hex2 b = [x, y]"
  then have xy: "x = hex_char (unat b div 16)" "y = hex_char (unat b mod 16)" by (simp_all add: hex2_def)
  note lt = nibbles(1) [of b]
  have "x \<noteq> CHR ''+''"
    using hex_val_hex_char [OF lt] by (auto simp: xy(1) hex_val_def)
  then show ?thesis using nibbles by (simp add: radix16_def xy)
qed

lemma unhex_pairs_hex: "unhex_pairs (hex b @ rest) = map_option ((@) b) (unhex_pairs rest)"
proof (induction b)
  case Nil
  show ?case by (cases "unhex_pairs rest") (simp_all add: hex_def)
next
  case (Cons x b)
  obtain u v where uv: "hex2 x = [u, v]" by (simp add: hex2_def)
  then show ?case using Cons radix16_hex2 [OF uv]
    by (cases "unhex_pairs rest") (simp_all add: hex_def)
qed

lemma even_hex [simp]: "even (length (hex b))"
  by (induction b) (simp_all add: hex_def)

lemma unhex_hex [simp]: "unhex (hex b) = Some b"
  using unhex_pairs_hex [of b "[]"] by (simp add: unhex_def)

lemma hex_no_dollar: "CHR ''$'' \<notin> set (hex b)"
proof -
  have "hex_char n \<noteq> CHR ''$''" if "n < 16" for n
    using hex_val_hex_char [OF that] by (auto simp: hex_val_def)
  then have "CHR ''$'' \<notin> set (hex2 x)" for x
    using nibbles [of x] by (auto simp: hex2_def dest: sym)
  then show ?thesis by (auto simp: hex_def)
qed

lemma or_eq_0_iff: "or a b = 0 \<longleftrightarrow> a = 0 \<and> b = (0 :: 'a::len word)"
  by (auto simp: bit_eq_iff bit_or_iff)

lemma xor_eq_0_iff: "xor a b = 0 \<longleftrightarrow> a = (b :: 'a::len word)"
  by (auto simp: bit_eq_iff bit_xor_iff)

lemma fold_or_xor:
  "foldl (\<lambda>acc (a, b). or acc (xor a b)) z (zip xs ys) = 0 \<longleftrightarrow>
     z = (0 :: 'a::len word) \<and> (\<forall>(a, b) \<in> set (zip xs ys). a = b)"
  by (induction xs ys arbitrary: z rule: list_induct2') (auto simp: or_eq_0_iff xor_eq_0_iff)

text \<open>The constant-time comparison is equality.\<close>

lemma ct_eq_iff: "ct_eq xs ys \<longleftrightarrow> xs = ys"
proof
  assume "ct_eq xs ys"
  then have l: "length xs = length ys" and z: "\<forall>(a, b) \<in> set (zip xs ys). a = b"
    by (simp_all add: ct_eq_def fold_or_xor)
  show "xs = ys" using l z by (induction xs ys rule: list_induct2) auto
next
  assume "xs = ys"
  then show "ct_eq xs ys" by (auto simp: ct_eq_def fold_or_xor in_set_zip)
qed

text \<open>
  A stored local password verifies exactly the passwords whose Argon2id key under its salt is
  the stored one: the password it was made from, and no other unless the derivation collides. A
  stored value of any other shape verifies nothing.
\<close>

theorem verify_password_exact:
  assumes "hash_password cr (Some salt) pw = Ok stored"
  shows "verify_password cr pw' stored \<longleftrightarrow> argon2id cr pw' salt = argon2id cr pw salt"
proof -
  obtain h where h: "argon2id cr pw salt = Ok h" "stored = ''argon2id$'' @ hex salt @ ''$'' @ hex h"
    using assms by (auto simp: hash_password_def random_bytes_def derive_def split: sum.splits)
  have "split_on CHR ''$'' (''argon2id'' @ CHR ''$'' # (hex salt @ CHR ''$'' # hex h)) = [''argon2id'', hex salt, hex h]"
    by (subst split_on_append, simp, subst split_on_append, simp add: hex_no_dollar)
       (simp add: split_on_not_in hex_no_dollar)
  then have "split_on CHR ''$'' stored = [''argon2id'', hex salt, hex h]" by (simp add: h(2))
  then show ?thesis
    by (auto simp: verify_password_def derive_def ct_eq_iff h(1) split: sum.splits)
qed

theorem verify_password_exact_witness:
  "\<not> verify_password sample_crypto ''wrong'' (''argon2id$07$'' @ hex (replicate KEY_LEN 9)) \<and>
   verify_password sample_crypto ''password'' (''argon2id$07$'' @ hex (replicate KEY_LEN 9))"
proof -
  have "hash_password sample_crypto (Some [7]) ''password'' = Ok (''argon2id$07$'' @ hex (replicate KEY_LEN 9))"
    by code_simp
  from verify_password_exact [OF this] show ?thesis by (simp add: sample_crypto_def KEY_LEN_def)
qed

lemma verify_password_shape:
  "verify_password cr pw stored \<Longrightarrow> \<exists>salt want. stored = ''argon2id$'' @ salt @ ''$'' @ want"
proof -
  assume v: "verify_password cr pw stored"
  obtain t salt want where p: "split_on CHR ''$'' stored = [t, salt, want]" "t = ''argon2id''"
    using v by (auto simp: verify_password_def split: list.splits if_splits)
  then show ?thesis using join_split_on [of "CHR ''$''" stored] by auto
qed

section \<open>Binding and changing\<close>

text \<open>
  The associated data of a saved credential names one user and one server: no two pairs share it.
\<close>

lemma bytes_of_inject [simp]: "bytes_of a = bytes_of b \<longleftrightarrow> a = b"
proof
  assume eq: "bytes_of a = bytes_of b"
  have u: "unat (of_char c :: 8 word) = of_char c" for c
    using unat_of_nat [where 'a = 8, of "of_char c"] by (simp add: of_nat_of_char)
  have "inj (of_char :: char \<Rightarrow> 8 word)"
  proof (rule injI)
    fix x y :: char
    assume "(of_char x :: 8 word) = of_char y"
    then have "unat (of_char x :: 8 word) = unat (of_char y :: 8 word)" by simp
    then show "x = y" unfolding u by (rule of_char_eqI)
  qed
  with eq show "a = b" by (simp add: bytes_of_def inj_map_eq_map)
qed simp

lemma credential_aad_inject: "credential_aad a i = credential_aad b j \<longleftrightarrow> a = b \<and> i = j"
proof
  assume "credential_aad a i = credential_aad b j"
  then have eq: "a @ CHR 0x00 # show_int i = b @ CHR 0x00 # show_int j"
    by (simp add: credential_aad_def)
  have no: "CHR 0x00 \<notin> set (show_int n)" for n
    by (rule show_int_no) (simp_all add: is_digit_def digit_val_def)
  from eq have "rsplit_once CHR 0x00 (a @ CHR 0x00 # show_int i) = rsplit_once CHR 0x00 (b @ CHR 0x00 # show_int j)"
    by simp
  then show "a = b \<and> i = j" by (simp add: rsplit_once_append no)
qed simp

text \<open>
  Changing a recovery passphrase takes the current one; a locked vault seals, opens and changes
  nothing.
\<close>

lemma set_recovery_needs_current:
  assumes "set_recovery cr salt_r nonce_r v cur new st = Ok r" and "meta st META_RECOVERY = Some blob"
  shows "\<exists>c key. cur = Some c \<and> v_master v = Some key \<and> unwrap_recovery cr blob c = Ok key"
  using assms
  by (auto simp: set_recovery_def vault_key_def vstore_def dest!: meta_get_Ok
           split: sum.splits option.splits if_splits)

lemma locked_does_nothing:
  assumes "v_master v = None"
  shows "vault_seal cr r v aad p = Err Locked" "vault_open cr v aad n c = Err Locked"
    "set_recovery cr s r v cur new st = Err Locked" "replace_recovery cr s r v new st = Err Locked"
    "\<not> is_unlocked v"
  using assms
  by (simp_all add: vault_seal_def vault_open_def set_recovery_def replace_recovery_def vault_key_def is_unlocked_def)

text \<open>Starting over leaves no saved credential and no secret under the old key.\<close>

lemma vault_reset_clears:
  assumes "vault_reset rnd v also st = Ok (n, v', st')"
  shows "n = length (credentials st) \<and> credentials st' = [] \<and> meta st' META_RECOVERY = None \<and>
    (\<forall>k \<in> set also. k \<noteq> META_LOCAL \<longrightarrow> meta st' k = None) \<and>
    (\<exists>key. v_master v' = Some key \<and> rnd = Some key)"
proof -
  have none: "fold (\<lambda>k m. m(k := None)) ks m x = (if x \<in> set ks then None else m x)" for ks m and x :: string
    by (induction ks arbitrary: m) auto
  show ?thesis
    using assms
    by (auto simp: vault_reset_def random_key_def random_bytes_def vstore_def replace_secrets_def stmt_def
          vault_install_def Let_def none META_LOCAL_def META_RECOVERY_def split: sum.splits option.splits)
qed

end
