(* ===== verification/WA_Directory.thy ===== *)
theory WA_Directory
  imports WA_Text
begin

text \<open>
  Signing users in against the directory and reading account state, \<open>src/src/directory.rs\<close>.

  The LDAP library and the controllers behind it are the record \<open>ldap\<close>, a parameter: whether a
  controller can be reached, what a bind, a WhoAmI and a search answer. Unicode's lower-casing
  table is the parameter \<open>lower\<close>, \<open>str::to_lowercase\<close>. Loading CA certificates and building the
  TLS client is left out, as is the log.
\<close>

section \<open>Errors and accounts\<close>

definition RC_INVALID_CREDENTIALS :: nat where "RC_INVALID_CREDENTIALS = 49"
definition UAC_ACCOUNT_DISABLE :: int where "UAC_ACCOUNT_DISABLE = 2"

datatype refusal = PasswordMustChange | AccountLocked | Restricted | Disabled | Expired

datatype dir_error =
    InvalidCredentials
  | DirRefused refusal
  | OtherDomain string
  | Unreachable string
  | Protocol string
  | DirConfig string

definition refusal_text :: "refusal \<Rightarrow> string" where
  "refusal_text r =
     (case r of
        PasswordMustChange \<Rightarrow>
          ''the password has expired or must be changed; change it at a Windows sign-in, then sign in here''
      | AccountLocked \<Rightarrow> ''the account is locked; try again later or ask the helpdesk to unlock it''
      | Restricted \<Rightarrow> ''the account may not sign in at this time or from here''
      | Disabled \<Rightarrow> ''the account is disabled''
      | Expired \<Rightarrow> ''the account has expired'')"

definition refusal_code :: "refusal \<Rightarrow> string" where
  "refusal_code r =
     (case r of
        PasswordMustChange \<Rightarrow> ''532/773''
      | AccountLocked \<Rightarrow> ''775''
      | Restricted \<Rightarrow> ''530/531''
      | Disabled \<Rightarrow> ''533''
      | Expired \<Rightarrow> ''701'')"

definition proves_password :: "refusal \<Rightarrow> bool" where
  "proves_password r \<longleftrightarrow> r \<noteq> AccountLocked"

definition dir_error_text :: "dir_error \<Rightarrow> string" where
  "dir_error_text e =
     (case e of
        InvalidCredentials \<Rightarrow> ''the username or password is not correct''
      | DirRefused r \<Rightarrow> refusal_text r
      | OtherDomain who \<Rightarrow> ''the account '' @ who @ '' is not in the configured domain''
      | Unreachable m \<Rightarrow> ''no domain controller could be reached: '' @ m
      | Protocol m \<Rightarrow> ''directory: '' @ m
      | DirConfig m \<Rightarrow> ''directory configuration: '' @ m)"

text \<open>\<open>str::split\<close> at a string.\<close>

function split_str :: "string \<Rightarrow> string \<Rightarrow> string list" where
  "split_str p [] = [[]]"
| "split_str p (c # cs) =
     (if p \<noteq> [] \<and> starts_with (c # cs) p then [] # split_str p (drop (length p) (c # cs))
      else (case split_str p cs of [] \<Rightarrow> [[c]] | q # qs \<Rightarrow> (c # q) # qs))"
  by pat_completeness auto
termination by (relation "measure (\<lambda>(p, s). length s)") auto

definition refusal_in :: "string \<Rightarrow> refusal option" where
  "refusal_in txt =
     (case split_str ''data '' txt of
        _ # part # _ \<Rightarrow>
          (let code = to_ascii_lowercase (takeWhile (\<lambda>c. c \<noteq> CHR '','' \<and> c \<noteq> CHR '' '') part)
           in if code = ''532'' \<or> code = ''773'' then Some PasswordMustChange
              else if code = ''775'' then Some AccountLocked
              else if code = ''530'' \<or> code = ''531'' then Some Restricted
              else if code = ''533'' then Some Disabled
              else if code = ''701'' then Some Expired else None)
      | _ \<Rightarrow> None)"

record account =
  a_username :: string
  a_display_name :: "string option"
  a_sid :: string
  a_disabled :: bool
  a_expired :: bool

definition usable :: "account \<Rightarrow> bool" where
  "usable a \<longleftrightarrow> \<not> a_disabled a \<and> \<not> a_expired a"

section \<open>Names\<close>

definition FORBIDDEN :: string where
  "FORBIDDEN = [CHR 0x22, CHR ''/'', CHR 0x5C, CHR ''['', CHR '']'', CHR '':'', CHR '';'', CHR ''|'', CHR ''='',
     CHR '','', CHR ''+'', CHR ''*'', CHR ''?'', CHR ''<'', CHR ''>'', CHR ''@'', CHR ''('', CHR '')'', CHR 0x00]"

definition normalize_username :: "(string \<Rightarrow> string) \<Rightarrow> string \<Rightarrow> string option" where
  "normalize_username lower inp =
     (let s = hd (split_on CHR ''@'' (after_last CHR 0x5C (str_trim inp)))
      in if s = [] \<or> char_count s > 64 then None
         else if \<exists>ch \<in> set (chars s). is_control_char ch \<or> ch \<in> (\<lambda>c. [c]) ` set FORBIDDEN then None
         else Some (lower s))"

definition parse_authzid :: "(string \<Rightarrow> string) \<Rightarrow> string \<Rightarrow> (string option \<times> string) option" where
  "parse_authzid lower authzid =
     (case strip_prefix ''u:'' authzid of
        None \<Rightarrow> None
      | Some i \<Rightarrow>
          (let (domain, name) = (case rsplit_once CHR 0x5C i of
                                   Some (d, n) \<Rightarrow> (if d = [] then None else Some d, n)
                                 | None \<Rightarrow> (None, i))
           in map_option (Pair domain) (normalize_username lower name)))"

definition escape_char :: "char \<Rightarrow> string" where
  "escape_char c =
     (if c = CHR ''*'' then [CHR 0x5C, CHR ''2'', CHR ''a'']
      else if c = CHR ''('' then [CHR 0x5C, CHR ''2'', CHR ''8'']
      else if c = CHR '')'' then [CHR 0x5C, CHR ''2'', CHR ''9'']
      else if c = CHR 0x5C then [CHR 0x5C, CHR ''5'', CHR ''c'']
      else if c = CHR 0x00 then [CHR 0x5C, CHR ''0'', CHR ''0'']
      else [c])"

definition escape_filter :: "string \<Rightarrow> string" where
  "escape_filter v = concat (map escape_char v)"

definition base_dn_for :: "string \<Rightarrow> string" where
  "base_dn_for domain = join '','' (map (\<lambda>p. ''DC='' @ p) (filter (\<lambda>p. p \<noteq> []) (split_on CHR ''.'' domain)))"

section \<open>Security identifiers\<close>

fun be_value :: "nat \<Rightarrow> bytes \<Rightarrow> nat" where
  "be_value acc [] = acc"
| "be_value acc (b # bs) = be_value (256 * acc + unat b) bs"

fun le_value :: "bytes \<Rightarrow> nat" where
  "le_value [] = 0"
| "le_value (b # bs) = unat b + 256 * le_value bs"

fun le_bytes :: "nat \<Rightarrow> nat \<Rightarrow> bytes" where
  "le_bytes 0 v = []"
| "le_bytes (Suc n) v = of_nat (v mod 256) # le_bytes n (v div 256)"

definition be_bytes :: "nat \<Rightarrow> nat \<Rightarrow> bytes" where
  "be_bytes n v = rev (le_bytes n v)"

definition sid_to_string :: "bytes \<Rightarrow> string option" where
  "sid_to_string b =
     (if length b < 8 then None
      else
        (let count = unat (b ! 1)
         in if length b \<noteq> 8 + 4 * count then None
            else Some (''S-'' @ show_nat (unat (b ! 0)) @ ''-'' @ show_nat (be_value 0 (take 6 (drop 2 b))) @
                   concat (map (\<lambda>i. ''-'' @ show_nat (le_value (take 4 (drop (8 + 4 * i) b)))) [0..<count]))))"

definition sid_bytes :: "string \<Rightarrow> bytes option" where
  "sid_bytes sid =
     (case strip_prefix ''S-'' sid of
        None \<Rightarrow> None
      | Some rest \<Rightarrow>
          (case split_on CHR ''-'' rest of
             r # a # ss \<Rightarrow>
               (case (parse_unsigned 256 r, parse_unsigned (2 ^ 64) a) of
                  (Some revision, Some authority) \<Rightarrow>
                    if authority \<ge> 2 ^ 48 then None
                    else (case those (map (parse_unsigned (2 ^ 32)) ss) of
                            None \<Rightarrow> None
                          | Some subs \<Rightarrow>
                              if subs = [] \<or> length subs > 15 then None
                              else Some (of_nat revision # of_nat (length subs) # be_bytes 6 authority @
                                         concat (map (le_bytes 4) subs)))
                | _ \<Rightarrow> None)
           | _ \<Rightarrow> None))"

definition sid_filter :: "string \<Rightarrow> string option" where
  "sid_filter sid = map_option (\<lambda>bs. concat (map (\<lambda>b. CHR 0x5C # hex2 b) bs)) (sid_bytes sid)"

definition canonical_sid :: "string \<Rightarrow> string option" where
  "canonical_sid sid = Option.bind (sid_bytes (str_trim sid)) sid_to_string"

text \<open>\<open>accountExpires\<close> in 100 ns ticks since 1601; the division truncates towards zero.\<close>

definition i64_max :: int where "i64_max = 2 ^ 63 - 1"

definition expired_at :: "int option \<Rightarrow> unix_time \<Rightarrow> bool" where
  "expired_at account_expires now =
     (case account_expires of
        None \<Rightarrow> False
      | Some ticks \<Rightarrow>
          if ticks = 0 \<or> ticks = i64_max then False
          else (if ticks \<ge> 0 then ticks div 10000000 else - (- ticks div 10000000)) - 11644473600 \<le> now)"

section \<open>The directory\<close>

record directory_config =
  dc_urls :: "string list"
  dc_domain :: string
  dc_netbios :: "string option"
  dc_base_dn :: "string option"
  dc_service_account :: "string option"
  dc_ca_bundle :: "string option"
  dc_timeout_secs :: nat
  dc_check_interval_secs :: nat
  dc_failed_signins_per_address :: nat

record directory =
  d_cfg :: directory_config
  d_base_dn :: string
  d_preferred :: nat

definition directory_new :: "directory_config \<Rightarrow> directory" where
  "directory_new cfg =
     \<lparr> d_cfg = cfg,
       d_base_dn = (case dc_base_dn cfg of Some b \<Rightarrow> b | None \<Rightarrow> base_dn_for (dc_domain cfg)),
       d_preferred = 0 \<rparr>"

record ldap_entry =
  attrs :: "string \<Rightarrow> string list option"
  bin_attrs :: "string \<Rightarrow> bytes list option"

text \<open>
  The controllers: reaching one, binding (its result code and text), what WhoAmI answers once bound
  (its value, when it is UTF-8), and searching.
\<close>

record ldap =
  ld_connect :: "string \<Rightarrow> string + unit"
  ld_bind :: "string \<Rightarrow> string \<Rightarrow> string + (nat \<times> string)"
  ld_whoami :: "string \<Rightarrow> string + string option"
  ld_search :: "string \<Rightarrow> string \<Rightarrow> string + ldap_entry list"

definition has_service_account :: "directory \<Rightarrow> bool" where
  "has_service_account d \<longleftrightarrow> dc_service_account (d_cfg d) \<noteq> None"

definition bind_name :: "directory \<Rightarrow> string \<Rightarrow> string" where
  "bind_name d username =
     (case dc_netbios (d_cfg d) of
        Some nb \<Rightarrow> nb @ [CHR 0x5C] @ username
      | None \<Rightarrow> username @ ''@'' @ dc_domain (d_cfg d))"

definition sign_in_name :: "(string \<Rightarrow> string) \<Rightarrow> directory \<Rightarrow> string \<Rightarrow> string option" where
  "sign_in_name lower d inp =
     (let typed = str_trim inp
      in case normalize_username lower typed of
           None \<Rightarrow> None
         | Some short \<Rightarrow>
             if length typed > 256 \<or> (\<exists>ch \<in> set (chars typed). is_control_char ch) then None
             else if (CHR ''@'' \<in> set typed \<or> CHR 0x5C \<in> set typed) \<and> dc_netbios (d_cfg d) \<noteq> None
             then Some typed else Some (bind_name d short))"

definition try_order :: "nat \<Rightarrow> nat \<Rightarrow> nat list" where
  "try_order n preferred =
     (let first = (if preferred < n then preferred else 0)
      in take n (first # filter (\<lambda>i. i \<noteq> first) [0..<n]))"

fun connect_in :: "ldap \<Rightarrow> directory \<Rightarrow> string \<Rightarrow> nat list \<Rightarrow> (dir_error + unit) \<times> directory" where
  "connect_in ld d lst [] = (Err (Unreachable lst), d)"
| "connect_in ld d lst (i # is) =
     (let url = dc_urls (d_cfg d) ! i
      in case ld_connect ld url of
           Ok _ \<Rightarrow> (Ok (), d\<lparr>d_preferred := i\<rparr>)
         | Err e \<Rightarrow> connect_in ld d (url @ '': '' @ e) is)"

definition ldap_connect :: "ldap \<Rightarrow> directory \<Rightarrow> (dir_error + unit) \<times> directory" where
  "ldap_connect ld d =
     connect_in ld d ''no domain controller configured'' (try_order (length (dc_urls (d_cfg d))) (d_preferred d))"

definition ldap_bind :: "ldap \<Rightarrow> string \<Rightarrow> string \<Rightarrow> dir_error + unit" where
  "ldap_bind ld name pw =
     (if pw = [] then Err InvalidCredentials
      else (case ld_bind ld name pw of
              Err e \<Rightarrow> Err (Protocol e)
            | Ok (rc, txt) \<Rightarrow>
                if rc = 0 then Ok ()
                else if rc = RC_INVALID_CREDENTIALS
                then Err (case refusal_in txt of Some r \<Rightarrow> DirRefused r | None \<Rightarrow> InvalidCredentials)
                else Err (Protocol (''bind returned '' @ show_nat rc @ '': '' @ txt))))"

definition whoami :: "(string \<Rightarrow> string) \<Rightarrow> ldap \<Rightarrow> string \<Rightarrow> dir_error + (string option \<times> string)" where
  "whoami lower ld bound =
     (case ld_whoami ld bound of
        Err e \<Rightarrow> Err (Protocol e)
      | Ok v \<Rightarrow>
          (let authzid = (case v of Some s \<Rightarrow> s | None \<Rightarrow> [])
           in case parse_authzid lower authzid of
                None \<Rightarrow> Err (Protocol (''who-am-i named no account: '' @ debug_str authzid))
              | Some r \<Rightarrow> Ok r))"

definition first_attr :: "ldap_entry \<Rightarrow> string \<Rightarrow> string option" where
  "first_attr e name = (case attrs e name of Some (x # _) \<Rightarrow> Some x | _ \<Rightarrow> None)"

definition first_bin_attr :: "ldap_entry \<Rightarrow> string \<Rightarrow> bytes option" where
  "first_bin_attr e name = (case bin_attrs e name of Some (x # _) \<Rightarrow> Some x | _ \<Rightarrow> None)"

definition account_of ::
  "(string \<Rightarrow> string) \<Rightarrow> unix_time \<Rightarrow> string \<Rightarrow> ldap_entry \<Rightarrow> dir_error + account" where
  "account_of lower now username e =
     (case Option.bind (first_bin_attr e ''objectSid'') sid_to_string of
        None \<Rightarrow> Err (Protocol ''the account has no readable objectSid'')
      | Some sid \<Rightarrow>
          (let uac = (case Option.bind (first_attr e ''userAccountControl'') parse_i64 of Some n \<Rightarrow> n | None \<Rightarrow> 0)
           in Ok \<lparr> a_username = (case first_attr e ''sAMAccountName'' of Some s \<Rightarrow> lower s | None \<Rightarrow> username),
                   a_display_name = first_attr e ''displayName'',
                   a_sid = sid,
                   a_disabled = (and uac UAC_ACCOUNT_DISABLE \<noteq> 0),
                   a_expired = expired_at (Option.bind (first_attr e ''accountExpires'') parse_i64) now \<rparr>))"

definition find_by ::
  "(string \<Rightarrow> string) \<Rightarrow> ldap \<Rightarrow> unix_time \<Rightarrow> directory \<Rightarrow> string \<Rightarrow> string \<Rightarrow> dir_error + account option" where
  "find_by lower ld now d flt username =
     (case ld_search ld (d_base_dn d) flt of
        Err e \<Rightarrow> Err (Protocol e)
      | Ok [] \<Rightarrow> Ok None
      | Ok [e] \<Rightarrow> (case account_of lower now username e of Err x \<Rightarrow> Err x | Ok a \<Rightarrow> Ok (Some a))
      | Ok es \<Rightarrow>
          Err (Protocol (''the directory returned '' @ show_nat (length es) @ '' accounts for one name'')))"

definition name_filter :: "string \<Rightarrow> string" where
  "name_filter username =
     ''(&(objectCategory=person)(objectClass=user)(sAMAccountName='' @ escape_filter username @ ''))''"

definition ldap_find ::
  "(string \<Rightarrow> string) \<Rightarrow> ldap \<Rightarrow> unix_time \<Rightarrow> directory \<Rightarrow> string \<Rightarrow> dir_error + account option" where
  "ldap_find lower ld now d username = find_by lower ld now d (name_filter username) username"

definition find_sid ::
  "(string \<Rightarrow> string) \<Rightarrow> ldap \<Rightarrow> unix_time \<Rightarrow> directory \<Rightarrow> string \<Rightarrow> string \<Rightarrow> dir_error + account option" where
  "find_sid lower ld now d sid username =
     (case sid_filter sid of
        None \<Rightarrow> Err (Protocol (sid @ '' is not a SID''))
      | Some v \<Rightarrow>
          find_by lower ld now d (''(&(objectCategory=person)(objectClass=user)(objectSid='' @ v @ ''))'') username)"

definition own_account ::
  "(string \<Rightarrow> string) \<Rightarrow> ldap \<Rightarrow> unix_time \<Rightarrow> directory \<Rightarrow> string \<Rightarrow> dir_error + account" where
  "own_account lower ld now d short =
     (case ldap_find lower ld now d short of
        Err e \<Rightarrow> Err e
      | Ok None \<Rightarrow> Err (Protocol (''bound, but the account'' @ [CHR 0x27] @ ''s entry was not found''))
      | Ok (Some a) \<Rightarrow> if usable a then Ok a else Err InvalidCredentials)"

definition other_domain :: "directory \<Rightarrow> string option \<Rightarrow> bool" where
  "other_domain d domain \<longleftrightarrow>
     (case (dc_netbios (d_cfg d), domain) of
        (Some nb, Some dm) \<Rightarrow> \<not> eq_ignore_ascii_case nb dm
      | _ \<Rightarrow> False)"

definition authenticate ::
  "(string \<Rightarrow> string) \<Rightarrow> ldap \<Rightarrow> unix_time \<Rightarrow> directory \<Rightarrow> string \<Rightarrow> string \<Rightarrow> (dir_error + account) \<times> directory" where
  "authenticate lower ld now d typed pw =
     (case sign_in_name lower d typed of
        None \<Rightarrow> (Err InvalidCredentials, d)
      | Some name \<Rightarrow>
          (case ldap_connect ld d of
             (Err e, d') \<Rightarrow> (Err e, d')
           | (Ok _, d') \<Rightarrow>
               ((case ldap_bind ld name pw of
                   Err e \<Rightarrow> Err e
                 | Ok _ \<Rightarrow>
                     (case whoami lower ld name of
                        Err e \<Rightarrow> Err e
                      | Ok (domain, short) \<Rightarrow>
                          if other_domain d domain
                          then Err (OtherDomain ((case domain of Some dm \<Rightarrow> dm | None \<Rightarrow> []) @ [CHR 0x5C] @ short))
                          else own_account lower ld now d short)),
                d')))"

definition service_bind_error :: "dir_error \<Rightarrow> dir_error" where
  "service_bind_error e =
     (case e of
        InvalidCredentials \<Rightarrow> DirConfig (''the service account'' @ [CHR 0x27] @ ''s password was refused'')
      | DirRefused r \<Rightarrow>
          DirConfig (''the service account was refused: '' @ refusal_text r @ '' (data '' @ refusal_code r @ '')'')
      | _ \<Rightarrow> e)"

definition lookup_each ::
  "(string \<Rightarrow> string) \<Rightarrow> ldap \<Rightarrow> unix_time \<Rightarrow> directory \<Rightarrow> string \<Rightarrow> (string \<times> string option) list \<Rightarrow>
   (dir_error + (string \<times> (dir_error + account option)) list) \<times> directory" where
  "lookup_each lower ld now d service_password accounts =
     (case Option.bind (dc_service_account (d_cfg d)) (normalize_username lower) of
        None \<Rightarrow> (Err (DirConfig ''no service_account configured''), d)
      | Some service \<Rightarrow>
          (case ldap_connect ld d of
             (Err e, d') \<Rightarrow> (Err e, d')
           | (Ok _, d') \<Rightarrow>
               ((case ldap_bind ld (bind_name d service) service_password of
                   Err e \<Rightarrow> Err (service_bind_error e)
                 | Ok _ \<Rightarrow>
                     Ok (map (\<lambda>(name, sid).
                            (name, case sid of
                                     Some s \<Rightarrow> find_sid lower ld now d s name
                                   | None \<Rightarrow> ldap_find lower ld now d name)) accounts)),
                d')))"

fun collect_found :: "(string \<times> (dir_error + account option)) list \<Rightarrow> dir_error + (string \<times> account option) list" where
  "collect_found [] = Ok []"
| "collect_found ((name, Err e) # _) = Err e"
| "collect_found ((name, Ok a) # rest) =
     (case collect_found rest of Err e \<Rightarrow> Err e | Ok xs \<Rightarrow> Ok ((name, a) # xs))"

definition lookup_many ::
  "(string \<Rightarrow> string) \<Rightarrow> ldap \<Rightarrow> unix_time \<Rightarrow> directory \<Rightarrow> string \<Rightarrow> string list \<Rightarrow>
   (dir_error + (string \<times> account option) list) \<times> directory" where
  "lookup_many lower ld now d service_password usernames =
     (case lookup_each lower ld now d service_password (map (\<lambda>n. (n, None)) usernames) of
        (Err e, d') \<Rightarrow> (Err e, d')
      | (Ok xs, d') \<Rightarrow> (collect_found xs, d'))"

definition lookup_by_sid ::
  "(string \<Rightarrow> string) \<Rightarrow> ldap \<Rightarrow> unix_time \<Rightarrow> directory \<Rightarrow> string \<Rightarrow> string \<Rightarrow>
   (dir_error + account option) \<times> directory" where
  "lookup_by_sid lower ld now d service_password sid =
     (case canonical_sid sid of
        None \<Rightarrow> (Err (Protocol (sid @ '' is not a SID'')), d)
      | Some wanted \<Rightarrow>
          (case lookup_each lower ld now d service_password [(wanted, Some wanted)] of
             (Err e, d') \<Rightarrow> (Err e, d')
           | (Ok xs, d') \<Rightarrow>
               ((case (if xs = [] then Ok None else snd (last xs)) of
                   Err e \<Rightarrow> Err e
                 | Ok (Some a) \<Rightarrow>
                     if a_sid a \<noteq> wanted
                     then Err (Protocol (''asked for '' @ wanted @ '', the directory answered '' @ a_sid a))
                     else Ok (Some a)
                 | Ok None \<Rightarrow> Ok None),
                d')))"

section \<open>Bytes and text of identifiers\<close>

lemma length_le_bytes [simp]: "length (le_bytes n v) = n"
  by (induction n v rule: le_bytes.induct) simp_all

lemma le_value_le_bytes: "v < 256 ^ n \<Longrightarrow> le_value (le_bytes n v) = v"
proof (induction n v rule: le_bytes.induct)
  case (2 n v)
  then have "v div 256 < 256 ^ n" by (simp add: less_mult_imp_div_less mult.commute)
  then show ?case using 2(1) by (simp add: unat_of_nat)
qed simp

lemma le_bytes_le_value: "le_bytes (length bs) (le_value bs) = bs"
proof (induction bs)
  case (Cons b bs)
  have "(unat b + 256 * le_value bs) mod 256 = unat b" "(unat b + 256 * le_value bs) div 256 = le_value bs"
    using unat_byte [of b] by simp_all
  then show ?case using Cons by simp
qed simp

lemma le_value_bound: "le_value bs < 256 ^ length bs"
proof (induction bs)
  case (Cons b bs)
  then have "256 * le_value bs + 256 \<le> 256 * 256 ^ length bs"
    by (metis Suc_leI mult_Suc_right add.commute mult_le_mono2)
  then show ?case using unat_byte [of b] by simp
qed simp

lemma le_value_append: "le_value (xs @ ys) = le_value xs + 256 ^ length xs * le_value ys"
  by (induction xs) (simp_all add: algebra_simps)

lemma be_value_rev: "be_value acc bs = 256 ^ length bs * acc + le_value (rev bs)"
  by (induction acc bs rule: be_value.induct) (simp_all add: le_value_append algebra_simps)

lemma be_value_be_bytes: "v < 256 ^ n \<Longrightarrow> be_value 0 (be_bytes n v) = v"
  by (simp add: be_bytes_def be_value_rev le_value_le_bytes)

lemma be_bytes_be_value: "be_bytes (length bs) (be_value 0 bs) = bs"
  using le_bytes_le_value [of "rev bs"] by (simp add: be_bytes_def be_value_rev)

lemma be_value_bound: "be_value 0 bs < 256 ^ length bs"
  using le_value_bound [of "rev bs"] by (simp add: be_value_rev)

lemma concat_chunks:
  "length xs = 4 * n \<Longrightarrow> concat (map (\<lambda>i. take 4 (drop (4 * i) xs)) [0..<n]) = xs"
proof (induction n arbitrary: xs)
  case (Suc n)
  have "concat (map (\<lambda>i. take 4 (drop (4 * i) xs)) [0..<Suc n]) =
      take 4 xs @ concat (map (\<lambda>i. take 4 (drop (4 * i) (drop 4 xs))) [0..<n])"
    by (simp add: upt_conv_Cons map_Suc_upt [symmetric] comp_def add.commute del: upt_Suc)
  then show ?case using Suc.IH [of "drop 4 xs"] Suc.prems by simp
qed simp

lemma join_concat: "join [c] (x # ys) = x @ concat (map (\<lambda>y. c # y) ys)"
  by (induction ys arbitrary: x) simp_all

lemma split_on_join:
  "ps \<noteq> [] \<Longrightarrow> (\<And>p. p \<in> set ps \<Longrightarrow> c \<notin> set p) \<Longrightarrow> split_on c (join [c] ps) = ps"
proof (induction ps)
  case (Cons p ps)
  then show ?case by (cases ps) (simp_all add: split_on_not_in split_on_append)
qed simp

lemma show_nat_no_dash: "CHR ''-'' \<notin> set (show_nat n)"
  using show_nat_digits [of "CHR ''-''" n] by (auto simp: is_digit_def digit_val_def)

lemma those_map_Some: "those (map (\<lambda>x. Some (f x)) xs) = Some (map f xs)"
  by (induction xs) simp_all

text \<open>A SID of the shape the directory uses.\<close>

definition sid_shape :: "bytes \<Rightarrow> bool" where
  "sid_shape b \<longleftrightarrow> 8 \<le> length b \<and> length b = 8 + 4 * unat (b ! 1) \<and> 1 \<le> unat (b ! 1) \<and> unat (b ! 1) \<le> 15"

definition sid_sub :: "bytes \<Rightarrow> nat \<Rightarrow> nat" where
  "sid_sub b i = le_value (take 4 (drop (8 + 4 * i) b))"

definition sid_parts :: "bytes \<Rightarrow> string list" where
  "sid_parts b = show_nat (unat (b ! 0)) # show_nat (be_value 0 (take 6 (drop 2 b))) #
     map (\<lambda>i. show_nat (sid_sub b i)) [0..<unat (b ! 1)]"

lemma sid_to_string_parts: "sid_shape b \<Longrightarrow> sid_to_string b = Some (''S-'' @ join ''-'' (sid_parts b))"
  by (simp add: sid_to_string_def sid_shape_def sid_parts_def sid_sub_def join_concat comp_def)

lemma sid_sub_bound: "sid_sub b i < 2 ^ 32"
proof -
  have "le_value (take 4 (drop (8 + 4 * i) b)) < 256 ^ length (take 4 (drop (8 + 4 * i) b))"
    by (rule le_value_bound)
  also have "\<dots> \<le> 256 ^ 4" by (rule power_increasing) simp_all
  finally show ?thesis by (simp add: sid_sub_def)
qed

lemma sid_shape_split:
  assumes "sid_shape b"
  shows "b = b ! 0 # b ! 1 # take 6 (drop 2 b) @ drop 8 b"
proof -
  obtain x y r where "b = x # y # r" using assms
    by (cases b; cases "tl b") (auto simp: sid_shape_def)
  then show ?thesis by simp
qed

lemma sid_subs_bytes:
  assumes "sid_shape b"
  shows "concat (map (\<lambda>i. le_bytes 4 (sid_sub b i)) [0..<unat (b ! 1)]) = drop 8 b"
proof -
  let ?n = "unat (b ! 1)"
  have len: "length (drop 8 b) = 4 * ?n" using assms by (simp add: sid_shape_def)
  have "le_bytes 4 (sid_sub b i) = take 4 (drop (4 * i) (drop 8 b))" if "i < ?n" for i
  proof -
    have "length (take 4 (drop (8 + 4 * i) b)) = 4" using len that by simp
    then show ?thesis using le_bytes_le_value [of "take 4 (drop (8 + 4 * i) b)"]
      by (simp add: sid_sub_def add.commute)
  qed
  then have "map (\<lambda>i. le_bytes 4 (sid_sub b i)) [0..<?n] = map (\<lambda>i. take 4 (drop (4 * i) (drop 8 b))) [0..<?n]"
    by simp
  then show ?thesis using concat_chunks [OF len] by (rule ssubst)
qed

lemma sid_bytes_to_string:
  assumes b: "sid_shape b"
  shows "sid_bytes (''S-'' @ join ''-'' (sid_parts b)) = Some b"
proof -
  let ?n = "unat (b ! 1)" and ?a = "be_value 0 (take 6 (drop 2 b))"
  have sp: "split_on CHR ''-'' (join ''-'' (sid_parts b)) = sid_parts b"
    by (rule split_on_join) (auto simp: sid_parts_def show_nat_no_dash)
  have l6: "length (take 6 (drop 2 b)) = 6" using b by (simp add: sid_shape_def)
  have a: "?a < 2 ^ 48" using be_value_bound [of "take 6 (drop 2 b)"] unfolding l6 by simp
  have a64: "?a < 2 ^ 64" using a by simp
  have subs: "those (map (parse_unsigned (2 ^ 32)) (map (\<lambda>i. show_nat (sid_sub b i)) [0..<?n])) =
      Some (map (sid_sub b) [0..<?n])"
    using sid_sub_bound by (simp add: comp_def those_map_Some)
  have ba: "be_bytes 6 ?a = take 6 (drop 2 b)" using be_bytes_be_value [of "take 6 (drop 2 b)"] unfolding l6 .
  have "sid_bytes (''S-'' @ join ''-'' (sid_parts b)) =
      Some (of_nat (unat (b ! 0)) # of_nat ?n # be_bytes 6 ?a @ concat (map (le_bytes 4) (map (sid_sub b) [0..<?n])))"
    unfolding sid_bytes_def strip_prefix_def
    using sp subs a a64 b unat_byte [of "b ! 0"]
    by (simp add: sid_parts_def sid_shape_def)
  also have "\<dots> = Some (b ! 0 # b ! 1 # take 6 (drop 2 b) @ drop 8 b)"
    using sid_subs_bytes [OF b] by (simp add: ba comp_def)
  finally show ?thesis using sid_shape_split [OF b] by simp
qed

lemma length_concat_le4: "length (concat (map (le_bytes 4) xs)) = 4 * length xs"
  by (induction xs) simp_all

lemma sid_bytes_shape:
  assumes "sid_bytes s = Some b"
  shows "sid_shape b"
proof -
  obtain rest r a ss revision authority subs where p:
      "strip_prefix ''S-'' s = Some rest" "split_on CHR ''-'' rest = r # a # ss"
      "those (map (parse_unsigned (2 ^ 32)) ss) = Some subs" "subs \<noteq> []" "length subs \<le> 15"
      "b = of_nat revision # of_nat (length subs) # be_bytes 6 authority @ concat (map (le_bytes 4) subs)"
    using assms by (auto simp: sid_bytes_def split: option.splits list.splits if_splits)
  have "unat (of_nat (length subs) :: byte) = length subs"
    using p(5) by (simp add: unat_of_nat)
  moreover have "1 \<le> length subs" using p(4) by (cases subs) simp_all
  ultimately show ?thesis using p(5,6) by (simp add: sid_shape_def length_concat_le4 be_bytes_def)
qed

lemma sid_text_plain:
  assumes "sid_shape b" "c \<in> set (''S-'' @ join ''-'' (sid_parts b))"
  shows "c = CHR ''S'' \<or> c = CHR ''-'' \<or> is_digit c"
proof -
  have "set (join ''-'' ps) \<subseteq> insert (CHR ''-'') (\<Union> (set ` set ps))" for ps
    by (induction "''-''" ps rule: join.induct) auto
  then have "c \<in> set (''S-'') \<union> insert (CHR ''-'') (\<Union> (set ` set (sid_parts b)))" using assms(2) by auto
  moreover have "is_digit x" if "p \<in> set (sid_parts b)" "x \<in> set p" for p x
    using that show_nat_digits by (auto simp: sid_parts_def)
  ultimately show ?thesis by auto
qed

lemma plain_not_special:
  "c = CHR ''S'' \<or> c = CHR ''-'' \<or> is_digit c \<Longrightarrow> \<not> is_cont c \<and> \<not> is_ws_char [c]"
  by (auto simp: is_digit_def digit_val_def is_cont_def is_ws_char_def Let_def split: if_splits)

lemma str_trim_id:
  assumes "\<And>c. c \<in> set s \<Longrightarrow> \<not> is_cont c \<and> \<not> is_ws_char [c]"
  shows "str_trim s = s"
proof -
  have ch: "chars s = map (\<lambda>c. [c]) s" using assms by (intro chars_ascii) blast
  have no: "dropWhile is_ws_char (map (\<lambda>c. [c]) t) = map (\<lambda>c. [c]) t" if "set t \<subseteq> set s" for t
    using that assms by (cases t) auto
  have "concat (map (\<lambda>c. [c]) s) = s" by (induction s) simp_all
  then show ?thesis
    using no [of s] no [of "rev s"] by (simp add: str_trim_def ch rev_map [symmetric])
qed

lemma canonical_sid_bytes:
  "canonical_sid s = (case sid_bytes (str_trim s) of None \<Rightarrow> None | Some b \<Rightarrow> Some (''S-'' @ join ''-'' (sid_parts b)))"
  by (auto simp: canonical_sid_def sid_to_string_parts sid_bytes_shape split: option.splits)

section \<open>Properties\<close>

text \<open>
  The text form of a security identifier loses nothing: reading back what \<open>sid_to_string\<close>
  writes for a directory account gives the same bytes; and \<open>canonical_sid\<close> gives two spellings the
  same text exactly when they name the same identifier, its own output unchanged.
\<close>

theorem sid_round_trip:
  "(sid_shape b \<longrightarrow> Option.bind (sid_to_string b) sid_bytes = Some b) \<and>
   (canonical_sid s = Some t \<longrightarrow> canonical_sid t = Some t \<and> sid_bytes t = sid_bytes (str_trim s)) \<and>
   (canonical_sid s \<noteq> None \<longrightarrow>
      (canonical_sid s = canonical_sid s' \<longleftrightarrow> sid_bytes (str_trim s) = sid_bytes (str_trim s')))"
proof (intro conjI impI)
  show "Option.bind (sid_to_string b) sid_bytes = Some b" if "sid_shape b"
    using sid_to_string_parts [OF that] sid_bytes_to_string [OF that] by simp
next
  assume c: "canonical_sid s = Some t"
  then obtain b where b: "sid_bytes (str_trim s) = Some b" "t = ''S-'' @ join ''-'' (sid_parts b)"
    by (auto simp: canonical_sid_bytes split: option.splits)
  note sh = sid_bytes_shape [OF b(1)]
  have tr: "str_trim t = t"
    unfolding b(2) by (rule str_trim_id, rule plain_not_special, rule sid_text_plain [OF sh])
  have t: "sid_bytes t = Some b" unfolding b(2) by (rule sid_bytes_to_string [OF sh])
  show "canonical_sid t = Some t" unfolding canonical_sid_bytes tr t using b(2) by simp
  show "sid_bytes t = sid_bytes (str_trim s)" by (simp add: t b(1))
next
  assume "canonical_sid s \<noteq> None"
  then obtain b where b: "sid_bytes (str_trim s) = Some b"
    by (auto simp: canonical_sid_bytes split: option.splits)
  have inj: "b = b'" if "sid_shape b'" "''S-'' @ join ''-'' (sid_parts b) = ''S-'' @ join ''-'' (sid_parts b')" for b'
    using sid_bytes_to_string [OF sid_bytes_shape [OF b]] sid_bytes_to_string [OF that(1)] that(2)
    by (metis option.inject)
  show "canonical_sid s = canonical_sid s' \<longleftrightarrow> sid_bytes (str_trim s) = sid_bytes (str_trim s')"
  proof
    assume eq: "canonical_sid s = canonical_sid s'"
    then obtain b' where b': "sid_bytes (str_trim s') = Some b'"
      using b by (auto simp: canonical_sid_bytes split: option.splits)
    then show "sid_bytes (str_trim s) = sid_bytes (str_trim s')"
      using eq b inj [OF sid_bytes_shape [OF b']] by (simp add: canonical_sid_bytes)
  qed (simp add: canonical_sid_bytes)
qed

theorem sid_round_trip_witness:
  "canonical_sid '' S-1-+5-21-007 '' = Some ''S-1-5-21-7'' \<and> canonical_sid ''S-1-5-21-7'' = Some ''S-1-5-21-7''"
proof -
  have "canonical_sid '' S-1-+5-21-007 '' = Some ''S-1-5-21-7''" by code_simp
  with sid_round_trip [of "[]" "'' S-1-+5-21-007 ''" "''S-1-5-21-7''" "[]"] show ?thesis by simp
qed

text \<open>
  Reading an escaped filter value the way RFC 4515 says: a backslash and two hexadecimal digits
  stand for the byte they spell.
\<close>

fun unescape_filter :: "string \<Rightarrow> string option" where
  "unescape_filter [] = Some []"
| "unescape_filter (c # cs) =
     (if c = CHR 0x5C
      then (case cs of
              x # y # rest \<Rightarrow>
                (case (hex_val x, hex_val y) of
                   (Some i, Some j) \<Rightarrow> map_option (\<lambda>r. char_of (16 * i + j) # r) (unescape_filter rest)
                 | _ \<Rightarrow> None)
            | _ \<Rightarrow> None)
      else map_option (\<lambda>r. c # r) (unescape_filter cs))"

lemma unescape_char:
  "unescape_filter (escape_char c @ rest) = map_option (\<lambda>r. c # r) (unescape_filter rest)"
proof -
  have h: "hex_val CHR ''2'' = Some 2" "hex_val CHR ''a'' = Some 10" "hex_val CHR ''8'' = Some 8"
    "hex_val CHR ''9'' = Some 9" "hex_val CHR ''5'' = Some 5" "hex_val CHR ''c'' = Some 12" "hex_val CHR ''0'' = Some 0"
    by code_simp+
  have ch: "char_of (42 :: nat) = CHR ''*''" "char_of (40 :: nat) = CHR ''(''" "char_of (41 :: nat) = CHR '')''"
    "char_of (92 :: nat) = CHR 0x5C" "char_of (0 :: nat) = CHR 0x00"
    by code_simp+
  show ?thesis by (auto simp: escape_char_def h ch)
qed

text \<open>
  A value placed in a search filter cannot change the filter: its escaped form has no
  wildcard, parenthesis or NUL, and stands for exactly the value.
\<close>

theorem escape_filter_exact:
  "unescape_filter (escape_filter v) = Some v \<and>
   list_all (\<lambda>c. c \<noteq> CHR ''*'' \<and> c \<noteq> CHR ''('' \<and> c \<noteq> CHR '')'' \<and> c \<noteq> CHR 0x00) (escape_filter v)"
proof
  show "unescape_filter (escape_filter v) = Some v"
    by (induction v) (simp_all add: escape_filter_def unescape_char)
  show "list_all (\<lambda>c. c \<noteq> CHR ''*'' \<and> c \<noteq> CHR ''('' \<and> c \<noteq> CHR '')'' \<and> c \<noteq> CHR 0x00) (escape_filter v)"
    by (induction v) (auto simp: escape_filter_def escape_char_def)
qed

lemma find_by_one:
  "find_by lower ld now d flt username = Ok (Some a) \<Longrightarrow>
   \<exists>e. ld_search ld (d_base_dn d) flt = Ok [e] \<and> account_of lower now username e = Ok a"
  by (auto simp: find_by_def split: sum.splits list.splits)

text \<open>
  C24: A directory sign-in succeeds only with a non-empty password the directory itself accepted
  for the name typed, in the configured domain when the directory says which, and the account
  signed in is the single entry for the name the directory says the connection is bound as,
  neither disabled nor expired. The typed name is never looked up.
\<close>

theorem authenticate_sound:
  assumes "authenticate lower ld now d typed pw = (Ok a, d')"
  shows "pw \<noteq> [] \<and> usable a \<and>
    (\<exists>name txt answer domain short e.
       sign_in_name lower d typed = Some name \<and> ld_bind ld name pw = Ok (0, txt) \<and>
       ld_whoami ld name = Ok (Some answer) \<and> parse_authzid lower answer = Some (domain, short) \<and>
       \<not> other_domain d domain \<and>
       ld_search ld (d_base_dn d) (name_filter short) = Ok [e] \<and> account_of lower now short e = Ok a)"
proof -
  obtain name where n: "sign_in_name lower d typed = Some name"
    using assms by (auto simp: authenticate_def split: option.splits)
  obtain domain short where b: "ldap_bind ld name pw = Ok ()" and w: "whoami lower ld name = Ok (domain, short)"
      and od: "\<not> other_domain d domain" and f: "own_account lower ld now d short = Ok a"
    using assms n by (auto simp: authenticate_def split: option.splits sum.splits prod.splits if_splits)
  obtain msg where bd: "pw \<noteq> []" "ld_bind ld name pw = Ok (0, msg)"
    using b by (auto simp: ldap_bind_def split: sum.splits if_splits)
  have nil: "parse_authzid lower [] = None" by (simp add: parse_authzid_def strip_prefix_def)
  obtain answer where who: "ld_whoami ld name = Ok (Some answer)" "parse_authzid lower answer = Some (domain, short)"
    using w nil by (auto simp: whoami_def Let_def split: sum.splits option.splits)
  have "ldap_find lower ld now d short = Ok (Some a)" and us: "usable a"
    using f by (auto simp: own_account_def split: sum.splits option.splits if_splits)
  then obtain e where "ld_search ld (d_base_dn d) (name_filter short) = Ok [e]" "account_of lower now short e = Ok a"
    using find_by_one [of lower ld now d "name_filter short" short a] by (auto simp: ldap_find_def)
  then show ?thesis using n bd who od us by blast
qed

definition sample_entry :: ldap_entry where
  "sample_entry =
     \<lparr> attrs = [''sAMAccountName'' \<mapsto> [''Ann''], ''userAccountControl'' \<mapsto> [''512'']],
       bin_attrs = [''objectSid'' \<mapsto> [[1, 1, 0, 0, 0, 0, 0, 5, 7, 0, 0, 0]]] \<rparr>"

definition sample_ldap :: ldap where
  "sample_ldap =
     \<lparr> ld_connect = (\<lambda>_. Ok ()), ld_bind = (\<lambda>n p. Ok (if p = ''secret'' then 0 else 49, ''data 52e,'')),
       ld_whoami = (\<lambda>_. Ok (Some (''u:CORP'' @ [CHR 0x5C] @ ''Ann''))), ld_search = (\<lambda>_ _. Ok [sample_entry]) \<rparr>"

definition sample_directory :: directory where
  "sample_directory = directory_new
     \<lparr> dc_urls = [''ldaps://dc1''], dc_domain = ''corp.example.com'', dc_netbios = Some ''CORP'', dc_base_dn = None,
       dc_service_account = Some ''svc'', dc_ca_bundle = None, dc_timeout_secs = 10,
       dc_check_interval_secs = 600, dc_failed_signins_per_address = 30 \<rparr>"

definition sample_account :: account where
  "sample_account = \<lparr> a_username = ''ann'', a_display_name = None, a_sid = ''S-1-5-7'', a_disabled = False, a_expired = False \<rparr>"

lemma sample_authenticate:
  "authenticate to_ascii_lowercase sample_ldap 0 sample_directory ''ann'' ''secret'' =
     (Ok sample_account, sample_directory)"
  by code_simp

theorem authenticate_sound_witness:
  "usable sample_account \<and>
   authenticate to_ascii_lowercase sample_ldap 0 sample_directory ''ann'' ''secret'' = (Ok sample_account, sample_directory)"
  using authenticate_sound [OF sample_authenticate] sample_authenticate by simp

text \<open>
  The account read for a single sign-on is the one with the very SID asked for.
\<close>

theorem lookup_by_sid_exact:
  assumes "lookup_by_sid lower ld now d pw sid = (Ok (Some a), d')"
  shows "canonical_sid sid = Some (a_sid a)"
  using assms
  by (auto simp: lookup_by_sid_def split: option.splits prod.splits sum.splits if_splits)

theorem lookup_by_sid_exact_witness:
  "canonical_sid ''S-1-5-007'' = Some (a_sid sample_account)"
proof -
  have "lookup_by_sid to_ascii_lowercase sample_ldap 0 sample_directory ''secret'' ''S-1-5-007'' =
      (Ok (Some sample_account), sample_directory)"
    by code_simp
  then show ?thesis by (rule lookup_by_sid_exact)
qed

text \<open>Which controllers are tried: each configured one once, the last that answered first.\<close>

lemma try_order_spec:
  "distinct (try_order n p) \<and> set (try_order n p) = {0..<n} \<and> (p < n \<longrightarrow> hd (try_order n p) = p)"
proof (cases n)
  case (Suc m)
  let ?f = "if p < n then p else 0"
  have f: "?f < n" using Suc by simp
  have "set (filter (\<lambda>i. i \<noteq> ?f) [0..<n]) = {0..<n} - {?f}" by auto
  then have "length (filter (\<lambda>i. i \<noteq> ?f) [0..<n]) = card ({0..<n} - {?f})"
    using distinct_card [of "filter (\<lambda>i. i \<noteq> ?f) [0..<n]"] by simp
  then have "length (?f # filter (\<lambda>i. i \<noteq> ?f) [0..<n]) = n" using f Suc by simp
  then have "try_order n p = ?f # filter (\<lambda>i. i \<noteq> ?f) [0..<n]" by (simp add: try_order_def Let_def)
  then show ?thesis using f by auto
qed (simp add: try_order_def)

lemma connect_in_Ok_iff:
  "(\<exists>d'. connect_in ld d lst is = (Ok (), d')) \<longleftrightarrow> (\<exists>i \<in> set is. \<exists>u. ld_connect ld (dc_urls (d_cfg d) ! i) = Ok u)"
  by (induction ld d lst "is" rule: connect_in.induct) (auto simp: Let_def split: sum.splits)

text \<open>A sign-in reaches the directory whenever any configured controller answers.\<close>

lemma ldap_connect_Ok_iff:
  "(\<exists>d'. ldap_connect ld d = (Ok (), d')) \<longleftrightarrow> (\<exists>url \<in> set (dc_urls (d_cfg d)). \<exists>u. ld_connect ld url = Ok u)"
proof -
  let ?us = "dc_urls (d_cfg d)"
  have "set (try_order (length ?us) (d_preferred d)) = {0..<length ?us}" by (simp add: try_order_spec)
  then have "(\<exists>d'. ldap_connect ld d = (Ok (), d')) \<longleftrightarrow> (\<exists>i < length ?us. \<exists>u. ld_connect ld (?us ! i) = Ok u)"
    by (auto simp: ldap_connect_def connect_in_Ok_iff)
  then show ?thesis by (metis in_set_conv_nth)
qed

end
