(* ===== verification/WA_Result.thy ===== *)
theory WA_Result
  imports WA_Text
begin

text \<open>
  Fallible code in sequence. \<open>and_then\<close> is the \<open>?\<close> operator, \<open>guard\<close> a test with an early return,
  and \<open>each\<close> a loop whose body may return early. The decomposition rules turn a run that came to
  its end into the facts every step established.
\<close>

definition and_then :: "'e + 'a \<Rightarrow> ('a \<Rightarrow> 'e + 'b) \<Rightarrow> 'e + 'b" where
  "and_then r f = (case r of Err e \<Rightarrow> Err e | Ok x \<Rightarrow> f x)"

definition guard :: "bool \<Rightarrow> 'e \<Rightarrow> 'e + unit" where
  "guard b e = (if b then Ok () else Err e)"

definition map_err :: "('e \<Rightarrow> 'f) \<Rightarrow> 'e + 'a \<Rightarrow> 'f + 'a" where
  "map_err f r = (case r of Err e \<Rightarrow> Err (f e) | Ok x \<Rightarrow> Ok x)"

definition ok_or :: "'e \<Rightarrow> 'a option \<Rightarrow> 'e + 'a" where
  "ok_or e r = (case r of None \<Rightarrow> Err e | Some x \<Rightarrow> Ok x)"

fun each :: "('a \<Rightarrow> 'e + 'b) \<Rightarrow> 'a list \<Rightarrow> 'e + 'b list" where
  "each f [] = Ok []"
| "each f (x # xs) = and_then (f x) (\<lambda>y. and_then (each f xs) (\<lambda>ys. Ok (y # ys)))"

lemma and_then_simps [simp]: "and_then (Ok x) f = f x" "and_then (Err e) f = Err e"
  by (simp_all add: and_then_def)

lemma and_then_Ok: "and_then r f = Ok y \<longleftrightarrow> (\<exists>x. r = Ok x \<and> f x = Ok y)"
  by (cases r) auto

lemma and_then_Err: "and_then r f = Err e \<longleftrightarrow> r = Err e \<or> (\<exists>x. r = Ok x \<and> f x = Err e)"
  by (cases r) auto

lemma guard_simps [simp]: "guard True e = Ok ()" "guard False e = Err e"
  by (simp_all add: guard_def)

lemma guard_Ok [simp]: "guard b e = Ok u \<longleftrightarrow> b"
  by (simp add: guard_def)

lemma guard_Err [simp]: "guard b e = Err e' \<longleftrightarrow> \<not> b \<and> e = e'"
  by (auto simp: guard_def)

lemma map_err_simps [simp]: "map_err f (Ok x) = Ok x" "map_err f (Err e) = Err (f e)"
  by (simp_all add: map_err_def)

lemma map_err_Ok [simp]: "map_err f r = Ok y \<longleftrightarrow> r = Ok y"
  by (cases r) auto

lemma ok_or_simps [simp]: "ok_or e None = Err e" "ok_or e (Some x) = Ok x"
  by (simp_all add: ok_or_def)

lemma ok_or_Ok [simp]: "ok_or e r = Ok y \<longleftrightarrow> r = Some y"
  by (cases r) auto

lemma each_Ok: "each f xs = Ok ys \<longleftrightarrow> list_all2 (\<lambda>x y. f x = Ok y) xs ys"
proof (induction xs arbitrary: ys)
  case (Cons x xs)
  then show ?case by (cases ys) (auto simp: and_then_Ok)
qed auto

lemma each_Ok_in: "each f xs = Ok ys \<Longrightarrow> x \<in> set xs \<Longrightarrow> \<exists>y \<in> set ys. f x = Ok y"
  by (induction xs arbitrary: ys) (auto simp: and_then_Ok)

lemma each_Ok_out: "each f xs = Ok ys \<Longrightarrow> y \<in> set ys \<Longrightarrow> \<exists>x \<in> set xs. f x = Ok y"
  by (induction xs arbitrary: ys) (auto simp: and_then_Ok)

lemmas result_simps = and_then_Ok and_then_Err

text \<open>\<open>String::from_utf8\<close>: the well-formed byte sequences of UTF-8.\<close>

definition cont_byte :: "nat \<Rightarrow> bool" where
  "cont_byte b \<longleftrightarrow> 0x80 \<le> b \<and> b \<le> 0xBF"

definition second_ok :: "nat \<Rightarrow> nat \<Rightarrow> bool" where
  "second_ok b c \<longleftrightarrow>
     cont_byte c \<and> (b = 0xE0 \<longrightarrow> 0xA0 \<le> c) \<and> (b = 0xED \<longrightarrow> c \<le> 0x9F) \<and>
     (b = 0xF0 \<longrightarrow> 0x90 \<le> c) \<and> (b = 0xF4 \<longrightarrow> c \<le> 0x8F)"

definition extra_bytes :: "nat \<Rightarrow> nat option" where
  "extra_bytes b =
     (if b < 0x80 then Some 0 else if 0xC2 \<le> b \<and> b \<le> 0xDF then Some 1
      else if 0xE0 \<le> b \<and> b \<le> 0xEF then Some 2 else if 0xF0 \<le> b \<and> b \<le> 0xF4 then Some 3 else None)"

function utf8_ok :: "nat list \<Rightarrow> bool" where
  "utf8_ok [] = True"
| "utf8_ok (b # bs) =
     (case extra_bytes b of
        None \<Rightarrow> False
      | Some n \<Rightarrow>
          n \<le> length bs \<and> (n > 0 \<longrightarrow> second_ok b (hd bs)) \<and> list_all cont_byte (take n bs) \<and>
          utf8_ok (drop n bs))"
  by pat_completeness auto
termination by (relation "measure length") auto

definition from_utf8 :: "bytes \<Rightarrow> string option" where
  "from_utf8 bs = (if utf8_ok (map unat bs) then Some (map (\<lambda>b. char_of (unat b)) bs) else None)"

lemma utf8_ascii: "(\<And>b. b \<in> set bs \<Longrightarrow> b < 0x80) \<Longrightarrow> utf8_ok bs"
  by (induction bs) (simp_all add: extra_bytes_def)

text \<open>\<open>str::split_whitespace\<close>.\<close>

definition split_whitespace :: "string \<Rightarrow> string list" where
  "split_whitespace s =
     map concat (filter (\<lambda>p. p \<noteq> []) (split_on [] (map (\<lambda>ch. if is_ws_char ch then [] else ch) (chars s))))"

end
