(* ===== verification/WA_Config.thy ===== *)
theory WA_Config
  imports WA_Directory WA_Result "HOL-Library.List_Lexorder" "HOL-Library.Char_ord"
begin

text \<open>
  \<open>config.rs\<close>: the sections of the configuration file with their defaults, the keys nothing reads,
  and the checks a file passes before the proxy starts with it. Reading TOML is the argument
  \<open>from_str\<close>; the platform's \<open>Path::parent\<close> is the argument \<open>parent\<close>; \<open>windows\<close> is \<open>cfg!(windows)\<close>.
\<close>

section \<open>Sections\<close>

datatype scanner_kind = Amsi | Command | Off

record scan_config =
  sc_scanner :: scanner_kind
  sc_command :: "string list"
  sc_clean_exit_codes :: "int list"
  sc_detected_exit_codes :: "int list"
  sc_timeout_secs :: nat
  sc_max_staged_mb :: nat
  sc_check_every_mins :: nat

definition scan_default :: "bool \<Rightarrow> scan_config" where
  "scan_default windows =
     \<lparr> sc_scanner = (if windows then Amsi else Off), sc_command = [], sc_clean_exit_codes = [0],
       sc_detected_exit_codes = [], sc_timeout_secs = 120, sc_max_staged_mb = 2048,
       sc_check_every_mins = 60 \<rparr>"

fun contains :: "string \<Rightarrow> string \<Rightarrow> bool" where
  "contains [] p = (p = [])"
| "contains (c # cs) p = (starts_with (c # cs) p \<or> contains cs p)"

definition scan_check :: "bool \<Rightarrow> scan_config \<Rightarrow> string + unit" where
  "scan_check windows s =
     (if sc_scanner s = Amsi \<and> \<not> windows
      then Err (''scanner = '' @ [CHR 0x22] @ ''amsi'' @ [CHR 0x22] @ '' needs Windows'')
      else if sc_scanner s = Command \<and> sc_command s = []
      then Err (''scanner = '' @ [CHR 0x22] @ ''command'' @ [CHR 0x22] @ '' needs command = [program, args...]'')
      else if sc_scanner s = Command \<and> \<not> list_ex (\<lambda>a. contains a ''{file}'') (sc_command s)
      then Err ''command must pass the file as {file}''
      else if sc_scanner s = Command \<and> sc_detected_exit_codes s = []
      then Err ''detected_exit_codes lists no code''
      else if sc_scanner s = Command \<and> list_ex (\<lambda>c. c \<in> set (sc_detected_exit_codes s)) (sc_clean_exit_codes s)
      then Err ''an exit code cannot mean both clean and detected''
      else if sc_timeout_secs s = 0 \<or> sc_max_staged_mb s = 0
      then Err ''timeout_secs and max_staged_mb must be at least 1''
      else if \<not> (5 \<le> sc_check_every_mins s \<and> sc_check_every_mins s \<le> 1440)
      then Err ''check_every_mins must be 5 to 1440''
      else Ok ())"

record https_config =
  hc_cert :: string
  hc_key :: string

datatype verify_mode = Ca | Insecure

record tls_config =
  tc_verify :: verify_mode
  tc_ca_bundle :: "string option"

record saml_config =
  sm_url :: string
  sm_idp_metadata :: string
  sm_entity_id :: "string option"
  sm_sid_attribute :: string
  sm_clock_skew_secs :: nat

definition trim_end_slashes :: "string \<Rightarrow> string" where
  "trim_end_slashes s = rev (dropWhile (\<lambda>c. c = CHR ''/'') (rev s))"

definition saml_base :: "saml_config \<Rightarrow> string" where
  "saml_base s = trim_end_slashes (sm_url s)"

definition acs_url_of :: "saml_config \<Rightarrow> string" where
  "acs_url_of s = saml_base s @ ''/api/saml/acs''"

definition entity_id_of :: "saml_config \<Rightarrow> string" where
  "entity_id_of s = (case sm_entity_id s of Some e \<Rightarrow> e | None \<Rightarrow> saml_base s @ ''/api/saml/metadata'')"

definition saml_check :: "saml_config \<Rightarrow> string + unit" where
  "saml_check s =
     (case strip_prefix ''https://'' (sm_url s) of
        None \<Rightarrow> Err ''url must start with https://: the sign-in cookie needs a secure page''
      | Some rest \<Rightarrow>
          if trim_end_slashes rest = [] \<or> list_ex (\<lambda>c. c \<in> set ''?# '') (sm_url s)
          then Err ''url must be the address users open, such as https://access.example.com''
          else if str_trim (sm_idp_metadata s) = [] then Err ''idp_metadata names no file''
          else if str_trim (sm_sid_attribute s) = [] then Err ''sid_attribute is empty''
          else if sm_clock_skew_secs s > 300 then Err ''clock_skew_secs must be at most 300''
          else Ok ())"

record target_config =
  t_id :: string
  t_host :: string
  t_port :: nat

record config =
  cf_listen :: string
  cf_https :: "https_config option"
  cf_tls :: tls_config
  cf_directory :: "directory_config option"
  cf_saml :: "saml_config option"
  cf_admins :: "string list"
  cf_allow_local_accounts :: bool
  cf_data_dir :: "string option"
  cf_max_connections :: nat
  cf_audit_days :: nat
  cf_target :: "target_config list"
  cf_scan :: scan_config
  cf_unknown :: "string list"

definition default_sid_attribute :: string where
  "default_sid_attribute = ''http://schemas.microsoft.com/ws/2008/06/identity/claims/primarysid''"

definition default_clock_skew :: nat where "default_clock_skew = 180"
definition default_timeout :: nat where "default_timeout = 10"
definition default_max_connections :: nat where "default_max_connections = 1024"
definition default_check_interval :: nat where "default_check_interval = 600"
definition default_failed_signins_per_address :: nat where "default_failed_signins_per_address = 30"
definition default_audit_days :: nat where "default_audit_days = 400"
definition default_port :: nat where "default_port = 3389"

section \<open>Keys nothing reads\<close>

datatype toml_value = TTable "(string \<times> toml_value) list" | TArray "toml_value list" | TScalar

definition KNOWN :: "(string \<times> string list) list" where
  "KNOWN =
     [('''', [''listen'', ''https'', ''tls'', ''directory'', ''saml'', ''admins'', ''allow_local_accounts'',
              ''data_dir'', ''max_connections'', ''audit_days'', ''target'', ''scan'']),
      (''scan'', [''scanner'', ''command'', ''clean_exit_codes'', ''detected_exit_codes'', ''timeout_secs'',
                  ''max_staged_mb'', ''check_every_mins'']),
      (''https'', [''cert'', ''key'']),
      (''tls'', [''verify'', ''ca_bundle'']),
      (''directory'', [''domain'', ''netbios'', ''urls'', ''ca_bundle'', ''base_dn'', ''service_account'',
                       ''timeout_secs'', ''check_interval_secs'', ''failed_signins_per_address'']),
      (''saml'', [''url'', ''idp_metadata'', ''entity_id'', ''sid_attribute'', ''clock_skew_secs'']),
      (''target'', [''id'', ''host'', ''port''])]"

definition known :: "string \<Rightarrow> string list" where
  "known t = (case map_of KNOWN t of Some ks \<Rightarrow> ks | None \<Rightarrow> [])"

definition tables_in :: "toml_value \<Rightarrow> (string \<times> toml_value) list list" where
  "tables_in v =
     (case v of
        TTable t \<Rightarrow> [t]
      | TArray items \<Rightarrow> List.map_filter (\<lambda>i. case i of TTable t \<Rightarrow> Some t | _ \<Rightarrow> None) items
      | TScalar \<Rightarrow> [])"

definition unknown_in :: "string \<times> toml_value \<Rightarrow> string list" where
  "unknown_in kv =
     (if fst kv \<notin> set (known '''') then [fst kv]
      else concat (map (\<lambda>t. map (\<lambda>k. fst kv @ ''.'' @ k) (filter (\<lambda>k. k \<notin> set (known (fst kv))) (map fst t)))
                     (tables_in (snd kv))))"

definition unknown_keys :: "(string \<times> toml_value) list option \<Rightarrow> string list" where
  "unknown_keys root =
     (case root of None \<Rightarrow> [] | Some kvs \<Rightarrow> remdups_adj (sort (concat (map unknown_in kvs))))"

section \<open>Checks\<close>

datatype config_error =
    ReadError string string
  | ParseError string string
  | DuplicateTarget string
  | MissingCaBundle
  | AuditDays
  | ScanError string
  | DirectoryError string
  | SamlConfigError string

definition service_account :: "config \<Rightarrow> string option" where
  "service_account c = Option.bind (cf_directory c) dc_service_account"

fun duplicate_target :: "string list \<Rightarrow> target_config list \<Rightarrow> string option" where
  "duplicate_target seen [] = None"
| "duplicate_target seen (t # ts) =
     (if t_id t \<in> set seen then Some (t_id t) else duplicate_target (t_id t # seen) ts)"

definition check_targets :: "config \<Rightarrow> config_error + unit" where
  "check_targets c =
     (case duplicate_target [] (cf_target c) of Some i \<Rightarrow> Err (DuplicateTarget i) | None \<Rightarrow> Ok ())"

definition check_saml :: "config \<Rightarrow> config_error + unit" where
  "check_saml c =
     (case cf_saml c of
        None \<Rightarrow> Ok ()
      | Some s \<Rightarrow>
          and_then (map_err SamlConfigError (saml_check s)) (\<lambda>_.
          guard (service_account c \<noteq> None) (SamlConfigError
            ''single sign-on finds accounts with the directory's service account; set [directory] service_account'')))"

definition check_directory :: "config \<Rightarrow> config_error + unit" where
  "check_directory c =
     (case cf_directory c of
        None \<Rightarrow>
          guard (cf_allow_local_accounts c) (DirectoryError
            ''nobody could sign in: add a [directory] section, or allow_local_accounts = true'')
      | Some d \<Rightarrow>
          if str_trim (dc_domain d) = [] \<or> CHR ''.'' \<notin> set (dc_domain d)
          then Err (DirectoryError ''domain must be a DNS domain such as corp.example.com'')
          else if dc_urls d = [] then Err (DirectoryError ''urls lists no domain controller'')
          else (case List.find (\<lambda>u. \<not> starts_with (to_ascii_lowercase u) ''ldaps://'') (dc_urls d) of
                  Some bad \<Rightarrow> Err (DirectoryError (bad @ '': only ldaps:// is accepted''))
                | None \<Rightarrow> Ok ()))"

definition validate :: "bool \<Rightarrow> config \<Rightarrow> config_error + unit" where
  "validate windows c =
     and_then (check_targets c) (\<lambda>_.
     and_then (guard (\<not> (tc_verify (cf_tls c) = Ca \<and> tc_ca_bundle (cf_tls c) = None)) MissingCaBundle) (\<lambda>_.
     and_then (guard (cf_audit_days c \<noteq> 0) AuditDays) (\<lambda>_.
     and_then (map_err ScanError (scan_check windows (cf_scan c))) (\<lambda>_.
     and_then (check_saml c) (\<lambda>_.
     check_directory c)))))"

definition config_parse ::
  "bool \<Rightarrow> (string \<Rightarrow> string + config) \<Rightarrow> (string \<Rightarrow> (string \<times> toml_value) list option) \<Rightarrow>
   (string \<Rightarrow> string option) \<Rightarrow> string \<Rightarrow> string \<Rightarrow> config_error + config" where
  "config_parse windows from_str table_of parent path body =
     and_then (map_err (ParseError path) (from_str body)) (\<lambda>c0.
     (let dir = (case parent path of Some p \<Rightarrow> if p = [] then ''.'' else p | None \<Rightarrow> ''.'');
          c1 = (if cf_data_dir c0 = None then c0\<lparr>cf_data_dir := Some dir\<rparr> else c0);
          c = c1\<lparr>cf_unknown := unknown_keys (table_of body)\<rparr>
      in and_then (validate windows c) (\<lambda>_. Ok c)))"

definition config_load ::
  "bool \<Rightarrow> (string \<Rightarrow> string + config) \<Rightarrow> (string \<Rightarrow> (string \<times> toml_value) list option) \<Rightarrow>
   (string \<Rightarrow> string option) \<Rightarrow> (string \<Rightarrow> string + string) \<Rightarrow> string \<Rightarrow> config_error + config" where
  "config_load windows from_str table_of parent read path =
     and_then (map_err (ReadError path) (read path)) (config_parse windows from_str table_of parent path)"

definition is_bootstrap_admin :: "(string \<Rightarrow> string) \<Rightarrow> config \<Rightarrow> string \<Rightarrow> bool" where
  "is_bootstrap_admin lower c username \<longleftrightarrow>
     username \<in> set (List.map_filter (normalize_username lower) (cf_admins c))"

section \<open>Properties\<close>

lemma duplicate_target_None:
  "duplicate_target seen ts = None \<longleftrightarrow> distinct (map t_id ts) \<and> set (map t_id ts) \<inter> set seen = {}"
  by (induction ts arbitrary: seen) auto

lemma find_None_all: "List.find P xs = None \<longleftrightarrow> (\<forall>x \<in> set xs. \<not> P x)"
  by (auto simp: find_None_iff)

lemma map_filter_in: "y \<in> set (List.map_filter f xs) \<longleftrightarrow> (\<exists>x \<in> set xs. f x = Some y)"
  by (auto simp: List.map_filter_def image_iff)

lemma unknown_keys_set: "set (unknown_keys (Some kvs)) = (\<Union>kv \<in> set kvs. set (unknown_in kv))"
  by (simp add: unknown_keys_def)

lemma distinct_adj_sorted: "sorted xs \<Longrightarrow> distinct (remdups_adj (xs :: 'a :: linorder list))"
  by (induction xs rule: remdups_adj.induct) auto

lemma unknown_keys_sorted: "sorted (unknown_keys root) \<and> distinct (unknown_keys root)"
proof (cases root)
  case (Some kvs)
  have "sorted (remdups_adj (sort (concat (map unknown_in kvs))))"
    by (simp add: sorted_remdups_adj)
  then show ?thesis by (simp add: unknown_keys_def Some distinct_adj_sorted)
qed (simp add: unknown_keys_def)

lemma contains_iff: "contains s p \<longleftrightarrow> (\<exists>a b. s = a @ p @ b)"
proof (induction s)
  case (Cons c cs)
  have "starts_with (c # cs) p \<longleftrightarrow> (\<exists>b. c # cs = p @ b)"
    by (auto simp: starts_with_def) (metis append_take_drop_id)
  then show ?case using Cons by (auto simp: Cons_eq_append_conv)
qed auto


end
