(* ===== verification/WA_Handler.thy ===== *)
theory WA_Handler
  imports WA_Result
begin

text \<open>
  Handlers: code that may fail and changes a state on the way. What it changed before an early
  return stays changed, so a handler is a function from the state to a result and a state. A
  sequence that came to its end is taken apart by \<open>act_bind_Ok\<close>; what every handler of a
  component keeps is shown once per building block by the \<open>keeps\<close> rules.
\<close>

type_synonym ('s, 'e, 'a) act = "'s \<Rightarrow> ('e + 'a) \<times> 's"

definition act_ret :: "'a \<Rightarrow> ('s, 'e, 'a) act" where
  "act_ret x = (\<lambda>s. (Ok x, s))"

definition act_fail :: "'e \<Rightarrow> ('s, 'e, 'a) act" where
  "act_fail e = (\<lambda>s. (Err e, s))"

definition act_bind :: "('s, 'e, 'a) act \<Rightarrow> ('a \<Rightarrow> ('s, 'e, 'b) act) \<Rightarrow> ('s, 'e, 'b) act" where
  "act_bind m f = (\<lambda>s. case m s of (Err e, s') \<Rightarrow> (Err e, s') | (Ok x, s') \<Rightarrow> f x s')"

definition act_get :: "('s \<Rightarrow> 'a) \<Rightarrow> ('s, 'e, 'a) act" where
  "act_get f = (\<lambda>s. (Ok (f s), s))"

definition act_mod :: "('s \<Rightarrow> 's) \<Rightarrow> ('s, 'e, unit) act" where
  "act_mod f = (\<lambda>s. (Ok (), f s))"

definition act_res :: "'e + 'a \<Rightarrow> ('s, 'e, 'a) act" where
  "act_res r = (\<lambda>s. (r, s))"

definition act_guard :: "bool \<Rightarrow> 'e \<Rightarrow> ('s, 'e, unit) act" where
  "act_guard b e = (if b then act_ret () else act_fail e)"

definition act_read :: "('s \<Rightarrow> 'e + 'a) \<Rightarrow> ('s, 'e, 'a) act" where
  "act_read f = (\<lambda>s. (f s, s))"

lemma act_simps [simp]:
  "act_ret x s = (Ok x, s)" "act_fail e s = (Err e, s)" "act_get g s = (Ok (g s), s)"
  "act_mod h s = (Ok (), h s)" "act_res r s = (r, s)" "act_read k s = (k s, s)"
  by (simp_all add: act_ret_def act_fail_def act_get_def act_mod_def act_res_def act_read_def)

lemma act_guard_simps [simp]: "act_guard True e s = (Ok (), s)" "act_guard False e s = (Err e, s)"
  by (simp_all add: act_guard_def)

lemma act_guard_Ok [simp]: "act_guard b e s = (Ok u, s') \<longleftrightarrow> b \<and> s' = s"
  by (auto simp: act_guard_def)

lemma act_bind_Ok:
  "act_bind m f s = (Ok y, s'') \<longleftrightarrow> (\<exists>x s'. m s = (Ok x, s') \<and> f x s' = (Ok y, s''))"
  by (auto simp: act_bind_def split: prod.splits sum.splits)

lemma act_bind_OkE:
  assumes "act_bind m f s = (Ok y, s'')"
  obtains x s' where "m s = (Ok x, s')" "f x s' = (Ok y, s'')"
  using assms by (auto simp: act_bind_Ok)

lemma act_bind_Err:
  "act_bind m f s = (Err e, s'') \<longleftrightarrow> m s = (Err e, s'') \<or> (\<exists>x s'. m s = (Ok x, s') \<and> f x s' = (Err e, s''))"
  by (auto simp: act_bind_def split: prod.splits sum.splits)

text \<open>A handler keeps \<open>P\<close>: from a state with \<open>P\<close> it ends in one, however it ends.\<close>

definition keeps :: "('s \<Rightarrow> bool) \<Rightarrow> ('s, 'e, 'a) act \<Rightarrow> bool" where
  "keeps P m \<longleftrightarrow> (\<forall>s. P s \<longrightarrow> P (snd (m s)))"

named_theorems keeps_intros \<open>what a handler's building blocks keep\<close>

lemma keepsD: "keeps P m \<Longrightarrow> P s \<Longrightarrow> P (snd (m s))"
  by (simp add: keeps_def)

lemma keeps_bind [keeps_intros]: "keeps P m \<Longrightarrow> (\<And>x. keeps P (f x)) \<Longrightarrow> keeps P (act_bind m f)"
  unfolding keeps_def act_bind_def by (auto split: prod.splits sum.splits)

lemma keeps_pure [keeps_intros]:
  "keeps P (act_ret x)" "keeps P (act_fail e)" "keeps P (act_get g)" "keeps P (act_res r)" "keeps P (act_guard b e)"
  "keeps P (act_read k)"
  by (simp_all add: keeps_def act_guard_def)

lemma keeps_mod: "(\<And>s. P s \<Longrightarrow> P (h s)) \<Longrightarrow> keeps P (act_mod h)"
  by (simp add: keeps_def)

lemma keeps_if [keeps_intros]: "keeps P m \<Longrightarrow> keeps P n \<Longrightarrow> keeps P (if b then m else n)"
  by simp

lemma keeps_option [keeps_intros]:
  "keeps P m \<Longrightarrow> (\<And>x. keeps P (f x)) \<Longrightarrow> keeps P (case r of None \<Rightarrow> m | Some x \<Rightarrow> f x)"
  by (simp split: option.split)

lemma keeps_sum [keeps_intros]:
  "(\<And>e. keeps P (g e)) \<Longrightarrow> (\<And>x. keeps P (f x)) \<Longrightarrow> keeps P (case r of Inl e \<Rightarrow> g e | Inr x \<Rightarrow> f x)"
  by (simp split: sum.split)

lemma keeps_prod [keeps_intros]: "(\<And>x y. keeps P (f x y)) \<Longrightarrow> keeps P (case p of (x, y) \<Rightarrow> f x y)"
  by (simp split: prod.split)

lemma keeps_let [keeps_intros]: "(\<And>x. keeps P (f x)) \<Longrightarrow> keeps P (let x = v in f x)"
  by simp

end
