(* ===== verification/WA_Civil.thy ===== *)
theory WA_Civil
  imports WA_Text
begin

text \<open>
  The calendar and the time format of \<open>src/src/saml.rs\<close>: \<open>days_from_civil\<close>, \<open>civil_from_days\<close>,
  \<open>parse_instant\<close> and \<open>instant\<close>, with the proleptic Gregorian calendar they compute. Numbers of days
  and seconds are far inside \<open>i64\<close> for the four-digit years the format carries.
\<close>

section \<open>The code\<close>

text \<open>Rust's \<open>/\<close> on signed integers truncates towards zero.\<close>

definition tdiv :: "int \<Rightarrow> int \<Rightarrow> int" where
  "tdiv a b = (if a \<ge> 0 then a div b else - (- a div b))"

definition days_from_civil :: "int \<Rightarrow> int \<Rightarrow> int \<Rightarrow> int" where
  "days_from_civil y0 m d =
     (let y = (if m \<le> 2 then y0 - 1 else y0);
          era = tdiv (if y \<ge> 0 then y else y - 399) 400;
          yoe = y - era * 400;
          mp = (m + 9) mod 12;
          doy = (153 * mp + 2) div 5 + d - 1;
          doe = yoe * 365 + yoe div 4 - yoe div 100 + doy
      in era * 146097 + doe - 719468)"

definition civil_from_days :: "int \<Rightarrow> int \<times> int \<times> int" where
  "civil_from_days z0 =
     (let z = z0 + 719468;
          era = tdiv (if z \<ge> 0 then z else z - 146096) 146097;
          doe = z - era * 146097;
          yoe = (doe - doe div 1460 + doe div 36524 - doe div 146096) div 365;
          doy = doe - (365 * yoe + yoe div 4 - yoe div 100);
          mp = (5 * doy + 2) div 153;
          d = doy - (153 * mp + 2) div 5 + 1;
          m = (if mp < 10 then mp + 3 else mp - 9);
          y = yoe + era * 400
      in (if m \<le> 2 then y + 1 else y, m, d))"

definition all_digits :: "string \<Rightarrow> nat \<Rightarrow> bool" where
  "all_digits s n \<longleftrightarrow> length s = n \<and> list_all is_digit s"

definition digits_value :: "string \<Rightarrow> int" where
  "digits_value s = (case parse_digits s of Some n \<Rightarrow> int n | None \<Rightarrow> 0)"

definition strip_suffix_char :: "char \<Rightarrow> string \<Rightarrow> string option" where
  "strip_suffix_char c s = (if s \<noteq> [] \<and> last s = c then Some (butlast s) else None)"

text \<open>The time of day, its fraction dropped.\<close>

definition whole_time :: "string \<Rightarrow> string option" where
  "whole_time s =
     (case split_once CHR ''.'' s of
        Some (t, frac) \<Rightarrow> if frac \<noteq> [] \<and> list_all is_digit frac then Some t else None
      | None \<Rightarrow> Some s)"

definition parse_instant :: "string \<Rightarrow> int option" where
  "parse_instant s =
     (case Option.bind (strip_suffix_char CHR ''Z'' s) (split_once CHR ''T'') of
        None \<Rightarrow> None
      | Some (date, time0) \<Rightarrow>
          (case whole_time time0 of
             None \<Rightarrow> None
           | Some time \<Rightarrow>
               (case (split_on CHR ''-'' date, split_on CHR '':'' time) of
                  ([ys, ms, ds], [hs, mis, ss]) \<Rightarrow>
                    if \<not> (all_digits ys 4 \<and> all_digits ms 2 \<and> all_digits ds 2) then None
                    else if \<not> (all_digits hs 2 \<and> all_digits mis 2 \<and> all_digits ss 2) then None
                    else
                      (let y = digits_value ys; m = digits_value ms; d = digits_value ds;
                           h = digits_value hs; mi = digits_value mis; sec = digits_value ss
                       in if \<not> (1 \<le> m \<and> m \<le> 12) \<or> h > 23 \<or> mi > 59 \<or> sec > 59 then None
                          else if civil_from_days (days_from_civil y m d) \<noteq> (y, m, d) then None
                          else Some (days_from_civil y m d * 86400 + h * 3600 + mi * 60 + sec))
                | _ \<Rightarrow> None)))"

text \<open>\<open>{:0n}\<close> of a number that is not negative.\<close>

definition pad :: "nat \<Rightarrow> int \<Rightarrow> string" where
  "pad n v = (let s = show_int v in replicate (n - length s) CHR ''0'' @ s)"

definition instant_text :: "int \<Rightarrow> string" where
  "instant_text t =
     (let (y, m, d) = civil_from_days (t div 86400);
          s = t mod 86400
      in pad 4 y @ ''-'' @ pad 2 m @ ''-'' @ pad 2 d @ ''T'' @ pad 2 (s div 3600) @ '':'' @
         pad 2 (s mod 3600 div 60) @ '':'' @ pad 2 (s mod 60) @ ''Z'')"

section \<open>The calendar\<close>

definition leap :: "int \<Rightarrow> bool" where
  "leap y \<longleftrightarrow> y mod 4 = 0 \<and> (y mod 100 \<noteq> 0 \<or> y mod 400 = 0)"

definition days_in_month :: "int \<Rightarrow> int \<Rightarrow> int" where
  "days_in_month y m =
     (if m = 2 then (if leap y then 29 else 28)
      else if m = 4 \<or> m = 6 \<or> m = 9 \<or> m = 11 then 30 else 31)"

definition valid_date :: "int \<Rightarrow> int \<Rightarrow> int \<Rightarrow> bool" where
  "valid_date y m d \<longleftrightarrow> 1 \<le> m \<and> m \<le> 12 \<and> 1 \<le> d \<and> d \<le> days_in_month y m"

definition next_date :: "int \<Rightarrow> int \<Rightarrow> int \<Rightarrow> int \<times> int \<times> int" where
  "next_date y m d =
     (if d < days_in_month y m then (y, m, d + 1)
      else if m < 12 then (y, m + 1, 1) else (y + 1, 1, 1))"

section \<open>Years of an era\<close>

lemma tdiv_floor:
  "tdiv (if y \<ge> 0 then y else y - (b - 1)) b = y div b" if "b > 0" for y b :: int
proof (cases "y \<ge> 0")
  case False
  have "- (y - (b - 1)) div b = - (y div b)"
  proof -
    have "y = b * (y div b) + y mod b" by simp
    moreover have "0 \<le> y mod b" "y mod b < b" using that by simp_all
    ultimately have "- (y - (b - 1)) = (b - 1 - y mod b) + b * - (y div b)" by (simp add: algebra_simps)
    then have "- (y - (b - 1)) div b = (b - 1 - y mod b + b * - (y div b)) div b" by (rule arg_cong)
    also have "\<dots> = - (y div b) + (b - 1 - y mod b) div b"
      using that by (simp only: div_mult_self2)
    also have "(b - 1 - y mod b) div b = 0" using \<open>0 \<le> y mod b\<close> \<open>y mod b < b\<close> by simp
    finally show ?thesis by simp
  qed
  then show ?thesis using False that by (auto simp: tdiv_def)
qed (simp add: tdiv_def)

lemma tdiv_400: "tdiv (if 0 \<le> y then y else y - 399) 400 = y div 400"
  using tdiv_floor [of 400 y] by (cases "0 \<le> y") simp_all

lemma tdiv_era: "tdiv (if 0 \<le> z then z else z - 146096) 146097 = z div 146097"
  using tdiv_floor [of 146097 z] by (cases "0 \<le> z") simp_all

text \<open>
  Within an era of 400 years counted from the first of March, the day \<open>doy\<close> of year \<open>yoe\<close>, and
  the formula that recovers the year.
\<close>

definition doe_of :: "int \<Rightarrow> int \<Rightarrow> int" where
  "doe_of yoe doy = yoe * 365 + yoe div 4 - yoe div 100 + doy"

text \<open>The year that begins in March ends with the February of the next: its length.\<close>

definition year_ok :: "int \<Rightarrow> int \<Rightarrow> bool" where
  "year_ok yoe doy \<longleftrightarrow> 0 \<le> yoe \<and> yoe < 400 \<and> 0 \<le> doy \<and> doy \<le> 365 \<and> (doy = 365 \<longrightarrow> leap (yoe + 1))"

lemma leap_shift: "0 \<le> yoe \<Longrightarrow> yoe < 400 \<Longrightarrow> leap (yoe + 1) \<Longrightarrow> yoe mod 4 = 3 \<and> (yoe mod 100 \<noteq> 99 \<or> yoe = 399)"
proof -
  assume b: "0 \<le> yoe" "yoe < 400" and l: "leap (yoe + 1)"
  have "(yoe + 1) mod 4 = 0" using l by (simp add: leap_def)
  then have "yoe mod 4 = 3" by presburger
  moreover have "yoe mod 100 \<noteq> 99 \<or> yoe = 399"
  proof (cases "(yoe + 1) mod 400 = 0")
    case True
    then have "yoe + 1 = 400" using b by (cases "yoe + 1 < 400") simp_all
    then show ?thesis by simp
  next
    case False
    then have "(yoe + 1) mod 100 \<noteq> 0" using l by (simp add: leap_def)
    then have "yoe mod 100 \<noteq> 99" using mod_add_left_eq [of yoe 100 1] by auto
    then show ?thesis by simp
  qed
  ultimately show ?thesis by simp
qed

lemma yoe_of_doe:
  assumes "year_ok yoe doy"
  defines "doe \<equiv> doe_of yoe doy"
  shows "(doe - doe div 1460 + doe div 36524 - doe div 146096) div 365 = yoe" and "0 \<le> doe" and "doe < 146097"
proof -
  define c where "c = yoe div 100"
  define k where "k = yoe div 4"
  define r where "r = yoe mod 4"
  have b: "0 \<le> yoe" "yoe < 400" "0 \<le> doy" "doy \<le> 365" using assms(1) by (simp_all add: year_ok_def)
  have lp: "r = 3 \<and> (yoe mod 100 \<noteq> 99 \<or> yoe = 399)" if "doy = 365"
    using that assms(1) leap_shift [of yoe] by (auto simp: year_ok_def r_def)
  have yk: "yoe = 4 * k + r" "0 \<le> r" "r \<le> 3" "0 \<le> k" "k \<le> 99" using b by (simp_all add: k_def r_def)
  have yc: "0 \<le> c" "c \<le> 3" "100 * c \<le> yoe" "yoe \<le> 100 * c + 99" using b by (simp_all add: c_def)
  have kc: "c \<le> k" "k \<le> 25 * c + 24" "25 * c \<le> k" using yk yc by linarith+
  have doe: "doe = 1460 * k + (k - c + 365 * r + doy)"
    using yk(1) by (simp add: doe_def doe_of_def k_def c_def)
  define u where "u = k - c + 365 * r + doy"
  have u: "0 \<le> u" "u < 2920" using yk yc kc b by (simp_all add: u_def)
  have d1: "doe div 1460 = k + u div 1460"
    unfolding doe u_def [symmetric] by simp
  have cent: "36524 * c \<le> doe" using doe kc yk b yc by linarith
  have mid: "doe < 36524 * c + 36524 \<or> doe = 146096"
  proof (cases "doe < 36524 * c + 36524")
    case False
    have "k = 25 * c + 24 \<and> r = 3 \<and> doy = 365"
      using False doe kc yk yc b by linarith
    then have "yoe = 100 * c + 99" using yk(1) by simp
    then have "yoe = 399" using lp \<open>k = 25 * c + 24 \<and> r = 3 \<and> doy = 365\<close> by auto
    then show ?thesis using \<open>k = 25 * c + 24 \<and> r = 3 \<and> doy = 365\<close> yk doe \<open>yoe = 100 * c + 99\<close> by simp
  qed simp
  have d23: "doe div 36524 - doe div 146096 = c"
  proof (cases "doe = 146096")
    case True
    have "c = 3" using True doe yk yc kc b by linarith
    then show ?thesis using True by simp
  next
    case False
    have lt: "doe < 36524 * c + 36524" using mid False by blast
    have "doe div 36524 = c" using cent lt by (intro int_div_pos_eq [where r = "doe - 36524 * c"]) simp_all
    moreover have "doe div 146096 = 0" using cent lt yc by (intro div_pos_pos_trivial) linarith+
    ultimately show ?thesis by simp
  qed
  show "0 \<le> doe" using doe u yk by (simp add: u_def)
  show "doe < 146097" using mid yc by linarith
  have v: "doe - doe div 1460 + doe div 36524 - doe div 146096 = 365 * yoe + (doy - u div 1460)"
    using d1 d23 doe yk(1) by (simp add: u_def)
  have q: "u div 1460 = (if u < 1460 then 0 else 1)"
    using u by (auto intro: int_div_pos_eq [where r = "u - 1460"])
  have ub: "u \<le> 1191 + doy" using yk kc yc unfolding u_def by linarith
  have "u div 1460 = 0 \<or> u div 1460 = 1" using q by simp
  moreover have "1 \<le> doy" if "u div 1460 = 1"
  proof -
    have "1460 \<le> u" using that q by (simp split: if_splits)
    then show ?thesis using ub by linarith
  qed
  moreover have "u div 1460 = 1" if "doy = 365"
  proof -
    have "r = 3" using lp that by blast
    then have "1460 \<le> u" using kc that unfolding u_def by linarith
    then show ?thesis using q by simp
  qed
  moreover have "doy = 365 \<or> doy \<le> 364" using b by linarith
  ultimately have "0 \<le> doy - u div 1460" "doy - u div 1460 < 365" using b by auto
  then show "(doe - doe div 1460 + doe div 36524 - doe div 146096) div 365 = yoe"
    unfolding v by (simp add: add.commute)
qed

text \<open>The months of a year that begins in March, by computation.\<close>

definition month_of_doy :: "int \<Rightarrow> int \<times> int" where
  "month_of_doy doy = (let mp = (5 * doy + 2) div 153 in (mp, doy - (153 * mp + 2) div 5 + 1))"

definition march_length :: "int \<Rightarrow> int" where
  "march_length mp = [31, 30, 31, 30, 31, 31, 30, 31, 30, 31, 31, 29] ! nat mp"

lemma month_of_doy_table:
  "list_all (\<lambda>doy. case month_of_doy doy of (mp, d) \<Rightarrow>
      0 \<le> mp \<and> mp \<le> 11 \<and> 1 \<le> d \<and> d \<le> march_length mp \<and> (153 * mp + 2) div 5 + d - 1 = doy \<and>
      (mp = 11 \<and> d = 29 \<longleftrightarrow> doy = 365)) [0..365]"
  by code_simp

lemma month_of_doy:
  assumes "0 \<le> doy" "doy \<le> 365" "month_of_doy doy = (mp, d)"
  shows "0 \<le> mp" "mp \<le> 11" "1 \<le> d" "d \<le> march_length mp" "(153 * mp + 2) div 5 + d - 1 = doy"
    "mp = 11 \<and> d = 29 \<longleftrightarrow> doy = 365"
proof -
  have "doy \<in> set [0..365]" using assms by simp
  then have "case month_of_doy doy of (mp, d) \<Rightarrow>
      0 \<le> mp \<and> mp \<le> 11 \<and> 1 \<le> d \<and> d \<le> march_length mp \<and> (153 * mp + 2) div 5 + d - 1 = doy \<and>
      (mp = 11 \<and> d = 29 \<longleftrightarrow> doy = 365)"
    by (rule bspec [OF month_of_doy_table [unfolded list_all_iff]])
  then show "0 \<le> mp" "mp \<le> 11" "1 \<le> d" "d \<le> march_length mp" "(153 * mp + 2) div 5 + d - 1 = doy"
    "mp = 11 \<and> d = 29 \<longleftrightarrow> doy = 365"
    unfolding assms(3) prod.case by simp_all
qed

lemma doy_of_month_table:
  "list_all (\<lambda>mp. list_all (\<lambda>d. d \<le> march_length mp \<longrightarrow>
      (let doy = (153 * mp + 2) div 5 + d - 1
       in 0 \<le> doy \<and> doy \<le> 365 \<and> month_of_doy doy = (mp, d) \<and> (mp = 11 \<and> d = 29 \<longleftrightarrow> doy = 365))) [1..31]) [0..11]"
  by code_simp

lemma doy_of_month:
  assumes "0 \<le> mp" "mp \<le> 11" "1 \<le> d" "d \<le> march_length mp"
  defines "doy \<equiv> (153 * mp + 2) div 5 + d - 1"
  shows "0 \<le> doy" "doy \<le> 365" "month_of_doy doy = (mp, d)" "mp = 11 \<and> d = 29 \<longleftrightarrow> doy = 365"
proof -
  have "list_all (\<lambda>mp. march_length mp \<le> 31) [0..11]" by code_simp
  then have "march_length mp \<le> 31" using assms(1,2) by (simp add: list_all_iff)
  then have m: "mp \<in> set [0..11]" and d: "d \<in> set [1..31]" using assms by auto
  have "let doy = (153 * mp + 2) div 5 + d - 1
      in 0 \<le> doy \<and> doy \<le> 365 \<and> month_of_doy doy = (mp, d) \<and> (mp = 11 \<and> d = 29 \<longleftrightarrow> doy = 365)"
    using bspec [OF bspec [OF doy_of_month_table [unfolded list_all_iff] m] d] assms(4) by simp
  then show "0 \<le> doy" "doy \<le> 365" "month_of_doy doy = (mp, d)" "mp = 11 \<and> d = 29 \<longleftrightarrow> doy = 365"
    unfolding doy_def Let_def by blast+
qed

section \<open>Dates and day numbers\<close>

text \<open>A date in the March calendar: year, month from March, day.\<close>

definition march_month :: "int \<Rightarrow> int" where
  "march_month m = (m + 9) mod 12"

definition march_year :: "int \<Rightarrow> int \<Rightarrow> int" where
  "march_year y m = (if m \<le> 2 then y - 1 else y)"

lemma march_month_simps:
  "1 \<le> m \<Longrightarrow> m \<le> 2 \<Longrightarrow> march_month m = m + 9"
  "3 \<le> m \<Longrightarrow> m \<le> 12 \<Longrightarrow> march_month m = m - 3"
  unfolding march_month_def by presburger+

lemma days_from_civil_alt:
  "days_from_civil y m d =
     march_year y m div 400 * 146097 +
     doe_of (march_year y m mod 400) ((153 * march_month m + 2) div 5 + d - 1) - 719468"
proof -
  have "march_year y m - march_year y m div 400 * 400 = march_year y m mod 400"
    by (simp add: minus_div_mult_eq_mod)
  then show ?thesis
    unfolding days_from_civil_def Let_def march_year_def [symmetric] tdiv_400 doe_of_def march_month_def [symmetric]
    by (simp only:)
qed

lemma civil_from_days_alt:
  assumes "year_ok yoe doy" and "z + 719468 = era * 146097 + doe_of yoe doy"
  shows "civil_from_days z =
    (case month_of_doy doy of (mp, d) \<Rightarrow>
       (let m = (if mp < 10 then mp + 3 else mp - 9); y = yoe + era * 400
        in (if m \<le> 2 then y + 1 else y, m, d)))"
proof -
  note y = yoe_of_doe [OF assms(1)]
  have e: "(z + 719468) div 146097 = era"
    using assms(2) y(2,3) by (intro int_div_pos_eq [where r = "doe_of yoe doy"]) (simp_all add: mult.commute)
  have doe: "z + 719468 - era * 146097 = doe_of yoe doy" using assms(2) by simp
  have doy: "doe_of yoe doy - (365 * yoe + yoe div 4 - yoe div 100) = doy" by (simp add: doe_of_def)
  show ?thesis
    unfolding civil_from_days_def Let_def tdiv_era e doe y(1) doy month_of_doy_def prod.case by simp
qed

lemma leap_mod_400: "leap (400 * e + y) = leap y"
proof -
  have "(400 * e + y) mod 4 = y mod 4" "(400 * e + y) mod 100 = y mod 100" "(400 * e + y) mod 400 = y mod 400"
    by (simp_all add: mod_add_eq [symmetric, of "400 * e"] mod_mult_left_eq [symmetric, of 400])
  then show ?thesis by (simp add: leap_def)
qed

text \<open>The parts of a valid date, in the March calendar.\<close>

lemma march_of_valid:
  assumes "valid_date y m d"
  shows "0 \<le> march_month m" "march_month m \<le> 11" "1 \<le> d" "d \<le> march_length (march_month m)"
    "march_month m = 11 \<and> d = 29 \<Longrightarrow> leap (march_year y m + 1)"
proof -
  have m: "m \<in> set [1..12]" and d: "1 \<le> d" "d \<le> days_in_month y m"
    using assms by (simp_all add: valid_date_def)
  have len: "days_in_month y m \<le> march_length (march_month m)"
    using m by (auto simp: upto.simps days_in_month_def march_length_def march_month_def)
  show "0 \<le> march_month m" "march_month m \<le> 11" by (simp_all add: march_month_def)
  show "1 \<le> d" "d \<le> march_length (march_month m)" using d len by simp_all
  show "leap (march_year y m + 1)" if "march_month m = 11 \<and> d = 29"
  proof -
    have "m = 2" using that m by (auto simp: upto.simps march_month_def)
    then show ?thesis using that d by (auto simp: days_in_month_def march_year_def split: if_splits)
  qed
qed

lemma year_ok_of_valid:
  assumes "valid_date y m d"
  shows "year_ok (march_year y m mod 400) ((153 * march_month m + 2) div 5 + d - 1)"
proof -
  note p = march_of_valid [OF assms]
  note q = doy_of_month [OF p(1-4)]
  have "leap (march_year y m mod 400 + 1)" if "(153 * march_month m + 2) div 5 + d - 1 = 365"
  proof -
    have "leap (400 * (march_year y m div 400) + (march_year y m mod 400 + 1))"
      using p(5) q(4) that by (simp add: add.assoc [symmetric])
    then show ?thesis by (simp only: leap_mod_400)
  qed
  then show ?thesis using q(1,2) by (simp add: year_ok_def)
qed

text \<open>Counting the days of a real date and reading the count back gives the date.\<close>

lemma civil_days:
  assumes "valid_date y m d"
  shows "civil_from_days (days_from_civil y m d) = (y, m, d)"
proof -
  note p = march_of_valid [OF assms]
  have mb: "1 \<le> m" "m \<le> 12" using assms by (simp_all add: valid_date_def)
  have z: "days_from_civil y m d + 719468 = march_year y m div 400 * 146097 +
      doe_of (march_year y m mod 400) ((153 * march_month m + 2) div 5 + d - 1)"
    by (simp add: days_from_civil_alt)
  have "civil_from_days (days_from_civil y m d) =
      (let m' = (if march_month m < 10 then march_month m + 3 else march_month m - 9);
           y' = march_year y m mod 400 + march_year y m div 400 * 400
       in (if m' \<le> 2 then y' + 1 else y', m', d))"
    using civil_from_days_alt [OF year_ok_of_valid [OF assms] z] doy_of_month(3) [OF p(1-4)] by simp
  then show ?thesis
    using mb march_month_simps by (cases "m \<le> 2") (simp_all add: Let_def march_year_def)
qed

text \<open>Every day number is the number of a real date.\<close>

lemma doe_split:
  assumes "0 \<le> doe" "doe < 146097"
  shows "\<exists>yoe doy. year_ok yoe doy \<and> doe = doe_of yoe doy"
proof -
  have step: "doe_of (y + 1) 0 = doe_of y 0 + (if leap (y + 1) then 366 else 365)" if "0 \<le> y" "y < 399" for y
  proof -
    have "list_all (\<lambda>y. doe_of (y + 1) 0 = doe_of y 0 + (if leap (y + 1) then 366 else 365)) [0..398]" by code_simp
    then show ?thesis using that by (simp add: list_all_iff)
  qed
  have last: "doe_of 399 0 + 366 = 146097" "doe_of 0 0 = 0" "leap 400" by code_simp+
  have "\<exists>yoe. 0 \<le> yoe \<and> yoe \<le> int n \<and> doe_of yoe 0 \<le> doe \<and> doe < doe_of yoe 0 + (if leap (yoe + 1) then 366 else 365)"
    if "n \<le> 399" "doe < doe_of (int n) 0 + (if leap (int n + 1) then 366 else 365)" for n
    using that
  proof (induction n)
    case 0
    then show ?case using assms(1) last by (intro exI [of _ 0]) simp
  next
    case (Suc n)
    show ?case
    proof (cases "doe < doe_of (int (Suc n)) 0")
      case True
      then have "doe < doe_of (int n) 0 + (if leap (int n + 1) then 366 else 365)"
        using step [of "int n"] Suc.prems(1) by (simp add: add.commute)
      then show ?thesis using Suc.IH Suc.prems(1) by force
    next
      case False
      then show ?thesis using Suc.prems by (intro exI [of _ "int (Suc n)"]) simp
    qed
  qed
  from this [of 399] obtain yoe where y: "0 \<le> yoe" "yoe \<le> 399" "doe_of yoe 0 \<le> doe"
      "doe < doe_of yoe 0 + (if leap (yoe + 1) then 366 else 365)"
    using assms(2) last by auto
  have "doe = doe_of yoe (doe - doe_of yoe 0)" by (simp add: doe_of_def)
  moreover have "year_ok yoe (doe - doe_of yoe 0)" using y by (auto simp: year_ok_def split: if_splits)
  ultimately show ?thesis by blast
qed

lemma days_civil:
  assumes "civil_from_days z = (y, m, d)"
  shows "valid_date y m d \<and> days_from_civil y m d = z"
proof -
  define era where "era = (z + 719468) div 146097"
  obtain yoe doy where y: "year_ok yoe doy" "(z + 719468) mod 146097 = doe_of yoe doy"
    using doe_split [of "(z + 719468) mod 146097"] by auto
  have z: "z + 719468 = era * 146097 + doe_of yoe doy"
    unfolding era_def y(2) [symmetric] by (simp add: mult.commute)
  obtain mp d' where md: "month_of_doy doy = (mp, d')" by (cases "month_of_doy doy")
  have doy: "0 \<le> doy" "doy \<le> 365" using y(1) by (simp_all add: year_ok_def)
  note p = month_of_doy [OF doy md]
  have c: "civil_from_days z = (let m = (if mp < 10 then mp + 3 else mp - 9); y = yoe + era * 400
        in (if m \<le> 2 then y + 1 else y, m, d'))"
    using civil_from_days_alt [OF y(1) z] md by simp
  have yb: "0 \<le> yoe" "yoe < 400" using y(1) by (simp_all add: year_ok_def)
  have mp: "mp \<in> set [0..11]" using p(1,2) by simp
  have ymd: "d = d'" "march_month m = mp" "march_year y m = yoe + era * 400" "1 \<le> m" "m \<le> 12"
    using assms c mp by (auto simp: upto.simps Let_def march_month_def march_year_def)
  have "d \<le> days_in_month y m"
  proof (cases "mp = 11")
    case True
    then have m2: "m = 2" using ymd(2,4,5) march_month_simps [of m] by (cases "m \<le> 2") simp_all
    have "leap (yoe + 1)" if "d = 29" using that True p(6) y(1) ymd(1) by (simp add: year_ok_def)
    then have "leap y" if "d = 29"
      using that ymd(3) m2 leap_mod_400 [of era "yoe + 1"] by (simp add: march_year_def algebra_simps)
    moreover have "d \<le> 29" using p(4) True ymd(1) by (simp add: march_length_def)
    ultimately show ?thesis using m2 by (cases "d = 29") (simp_all add: days_in_month_def)
  next
    case False
    have "march_length mp = days_in_month y m"
      using mp False ymd(2,4,5) march_month_simps [of m]
      by (cases "m \<le> 2") (auto simp: upto.simps march_length_def days_in_month_def)
    then show ?thesis using p(4) ymd(1) by simp
  qed
  then have v: "valid_date y m d" using ymd(1,4,5) p(3) by (simp add: valid_date_def)
  have "days_from_civil y m d = z"
    unfolding days_from_civil_alt ymd(1-3) p(5) using z yb by simp
  with v show ?thesis by simp
qed

section \<open>Properties of the calendar\<close>

lemma doe_year_step:
  assumes "0 \<le> y" "y < 399"
  shows "doe_of (y + 1) 0 = doe_of y 0 + (if leap (y + 1) then 366 else 365)"
proof -
  have "list_all (\<lambda>y. doe_of (y + 1) 0 = doe_of y 0 + (if leap (y + 1) then 366 else 365)) [0..398]" by code_simp
  then show ?thesis using assms by (simp add: list_all_iff)
qed

lemma doe_of_doy: "doe_of y d = doe_of y 0 + d"
  by (simp add: doe_of_def)

text \<open>The first of March follows the last of February, in every year and across eras.\<close>

lemma days_march_first:
  "days_from_civil y 3 1 = days_from_civil y 2 (days_in_month y 2) + 1"
proof -
  let ?Y = "y - 1"
  have mm: "march_month 2 = 11" "march_month 3 = 0" by (simp_all add: march_month_def)
  have my: "march_year y 2 = ?Y" "march_year y 3 = y" by (simp_all add: march_year_def)
  have lp: "leap y \<longleftrightarrow> leap (?Y mod 400 + 1)"
    using leap_mod_400 [of "?Y div 400" "?Y mod 400 + 1"] by (simp add: add.assoc [symmetric])
  have b: "0 \<le> ?Y mod 400" "?Y mod 400 < 400" by simp_all
  have feb: "(153 * (11::int) + 2) div 5 + days_in_month y 2 - 1 + 1 = (if leap y then 366 else 365)"
    by (simp add: days_in_month_def)
  show ?thesis
  proof (cases "?Y mod 400 = 399")
    case True
    have y: "y mod 400 = 0" "y div 400 = ?Y div 400 + 1"
    proof -
      have "y = 400 * (?Y div 400 + 1) + 0" using True div_mult_mod_eq [of ?Y 400] by (simp add: algebra_simps)
      then show "y mod 400 = 0" "y div 400 = ?Y div 400 + 1" by (metis mod_mult_self1_is_0 add_0_right, metis nonzero_mult_div_cancel_left add_0_right zero_neq_numeral)
    qed
    have "doe_of 399 0 + 366 = 146097" "doe_of 0 0 = 0" "leap 400" by code_simp+
    then show ?thesis
      unfolding days_from_civil_alt mm my y True
      using lp True feb by (simp add: doe_of_def)
  next
    case False
    then have lt: "?Y mod 400 < 399" using b by simp
    have y: "y mod 400 = ?Y mod 400 + 1" "y div 400 = ?Y div 400"
    proof -
      have e: "y = 400 * (?Y div 400) + (?Y mod 400 + 1)" by (simp add: add.assoc [symmetric])
      show "y div 400 = ?Y div 400" by (rule int_div_pos_eq [OF e]) (use b lt in simp_all)
      show "y mod 400 = ?Y mod 400 + 1" by (rule int_mod_pos_eq [OF e]) (use b lt in simp_all)
    qed
    show ?thesis
      unfolding days_from_civil_alt mm my y
      using doe_year_step [OF b(1) lt] lp feb
      by (simp add: doe_of_doy [of "(y - 1) mod 400" "_ - 1"] doe_of_doy [of "(y - 1) mod 400 + 1" "_ div _"] split: if_splits)
  qed
qed

lemma days_same_month: "days_from_civil y m (d + 1) = days_from_civil y m d + 1"
  by (simp add: days_from_civil_alt doe_of_def)

lemma days_month_end:
  assumes "1 \<le> m" "m < 12" "m \<noteq> 2"
  shows "days_from_civil y (m + 1) 1 = days_from_civil y m (days_in_month y m) + 1"
proof -
  have m: "m \<in> set [1..11]" using assms by simp
  have "march_year y (m + 1) = march_year y m" using m assms(3) by (auto simp: upto.simps march_year_def)
  moreover have "(153 * march_month (m + 1) + 2) div 5 = (153 * march_month m + 2) div 5 + days_in_month y m"
    using m assms(3) by (auto simp: upto.simps march_month_def days_in_month_def)
  ultimately show ?thesis by (simp add: days_from_civil_alt doe_of_def)
qed

lemma days_year_end: "days_from_civil (y + 1) 1 1 = days_from_civil y 12 31 + 1"
  by (simp add: days_from_civil_alt doe_of_def march_year_def march_month_def)

text \<open>
  The day arithmetic is the proleptic Gregorian calendar: the first of January 1970 is day
  zero, the day after a date has the next number, and a day number read back is the date exactly
  for the dates that exist, so \<open>parse_instant\<close>'s check refuses 30 February and nothing else.
\<close>

theorem calendar_exact:
  "days_from_civil 1970 1 1 = 0 \<and>
   (valid_date y m d \<longrightarrow> (case next_date y m d of (y', m', d') \<Rightarrow> days_from_civil y' m' d') = days_from_civil y m d + 1) \<and>
   (civil_from_days (days_from_civil y m d) = (y, m, d) \<longleftrightarrow> valid_date y m d)"
proof (intro conjI impI)
  show "days_from_civil 1970 1 1 = 0" by code_simp
  show "(case next_date y m d of (y', m', d') \<Rightarrow> days_from_civil y' m' d') = days_from_civil y m d + 1"
    if v: "valid_date y m d"
  proof (cases "d < days_in_month y m")
    case True
    then show ?thesis by (simp add: next_date_def days_same_month)
  next
    case False
    then have d: "d = days_in_month y m" using v by (simp add: valid_date_def)
    have m: "1 \<le> m" "m \<le> 12" using v by (simp_all add: valid_date_def)
    consider "m = 2" | "m = 12" | "m \<noteq> 2" "m < 12" using m by linarith
    then show ?thesis
    proof cases
      case 1
      then show ?thesis using d days_march_first by (simp add: next_date_def)
    next
      case 2
      have "days_in_month y 12 = 31" by (simp add: days_in_month_def)
      then show ?thesis using 2 d days_year_end by (simp add: next_date_def)
    next
      case 3
      then show ?thesis using d m days_month_end by (simp add: next_date_def)
    qed
  qed
  show "civil_from_days (days_from_civil y m d) = (y, m, d) \<longleftrightarrow> valid_date y m d"
    using civil_days days_civil by blast
qed

theorem calendar_exact_witness:
  "days_from_civil 2024 3 1 = days_from_civil 2024 2 29 + 1 \<and> days_from_civil 1970 1 1 = 0"
  using calendar_exact [of 2024 2 29] by (simp add: valid_date_def days_in_month_def next_date_def leap_def)

section \<open>The time format\<close>

lemma parse_digits_from_value:
  "list_all is_digit s \<Longrightarrow> \<exists>n. parse_digits_from acc s = Some n \<and> n < (acc + 1) * 10 ^ length s"
proof (induction acc s rule: parse_digits_from.induct)
  case (2 acc c cs)
  then obtain d where d: "digit_val c = Some d" by (auto simp: is_digit_def)
  then have "d < 10" by (auto simp: digit_val_def Let_def split: if_splits)
  then have "(10 * acc + d + 1) * 10 ^ length cs \<le> (acc + 1) * 10 * 10 ^ length cs" by (intro mult_right_mono) simp_all
  moreover obtain n where n: "parse_digits_from (10 * acc + d) cs = Some n" "n < (10 * acc + d + 1) * 10 ^ length cs"
    using 2(1) [OF d] 2(2) by auto
  ultimately have "n < (acc + 1) * (10 * 10 ^ length cs)" by (simp only: mult.assoc)
  with n(1) d show ?case by simp
qed simp

lemma digit_inj: "digit_val a = Some d \<Longrightarrow> digit_val b = Some d \<Longrightarrow> a = b"
  by (auto simp: digit_val_def Let_def split: if_splits) (metis of_char_eqI le_add_diff_inverse)

lemma parse_digits_from_inj:
  "parse_digits_from a s = Some n \<Longrightarrow> parse_digits_from b t = Some n \<Longrightarrow> length s = length t \<Longrightarrow> a = b \<and> s = t"
proof (induction s arbitrary: t n rule: rev_induct)
  case Nil
  then show ?case by simp
next
  case (snoc c s)
  obtain t' c' where t: "t = t' @ [c']" "length t' = length s"
    using snoc.prems(3) by (cases t rule: rev_cases) auto
  obtain x d where x: "parse_digits_from a s = Some x" "digit_val c = Some d" "n = 10 * x + d"
    using snoc.prems(1) by (auto simp: parse_digits_from_append split: option.splits)
  obtain x' d' where x': "parse_digits_from b t' = Some x'" "digit_val c' = Some d'" "n = 10 * x' + d'"
    using snoc.prems(2) t by (auto simp: parse_digits_from_append split: option.splits)
  have "d < 10" "d' < 10" using x(2) x'(2) by (auto simp: digit_val_def Let_def split: if_splits)
  then have xx: "x = x'" using x(3) x'(3) by linarith
  then have "d = d'" using x(3) x'(3) by simp
  then show ?case using snoc.IH [OF x(1)] x' t x(2) digit_inj xx by auto
qed

lemma digits_value_bounds:
  assumes "all_digits s n" "n > 0"
  shows "0 \<le> digits_value s" "digits_value s < 10 ^ n"
proof -
  obtain v where "parse_digits_from 0 s = Some v" "v < 10 ^ length s"
    using parse_digits_from_value [of s 0] assms by (auto simp: all_digits_def)
  moreover have "s \<noteq> []" using assms by (auto simp: all_digits_def)
  ultimately show "0 \<le> digits_value s" "digits_value s < 10 ^ n"
    using assms(1) by (simp_all add: digits_value_def parse_digits_def all_digits_def)
qed

lemma length_show_nat: "v < 10 ^ n \<Longrightarrow> n > 0 \<Longrightarrow> length (show_nat v) \<le> n"
proof (induction v arbitrary: n rule: show_nat.induct)
  case (1 v)
  show ?case
  proof (cases "v < 10")
    case True
    then show ?thesis using 1(3) by (subst show_nat.simps) simp
  next
    case False
    then obtain k where k: "n = Suc k" "k > 0" using 1(2,3) by (cases n; cases "n - 1") auto
    then have "v div 10 < 10 ^ k" using 1(2) by (simp add: less_mult_imp_div_less mult.commute)
    then show ?thesis using 1(1) [OF False _ k(2)] False k(1) by (subst show_nat.simps) simp
  qed
qed

lemma parse_zeros: "parse_digits_from 0 (replicate k CHR ''0'' @ s) = parse_digits_from 0 s"
proof (induction k)
  case (Suc k)
  have "digit_val CHR ''0'' = Some 0" by code_simp
  then show ?case using Suc by simp
qed simp

lemma pad_digits:
  assumes "0 \<le> v" "v < 10 ^ n" "n > 0"
  shows "all_digits (pad n v) n" "digits_value (pad n v) = v"
proof -
  have s: "show_int v = show_nat (nat v)" using assms(1) by (simp add: show_int_def)
  have "nat v < 10 ^ n" using assms(1,2) by (simp add: nat_less_iff)
  then have l: "length (show_nat (nat v)) \<le> n" using assms(3) by (rule length_show_nat)
  have "is_digit CHR ''0''" by code_simp
  then show "all_digits (pad n v) n"
    using l show_nat_digits by (auto simp: all_digits_def pad_def s Let_def list_all_iff)
  have "parse_digits (pad n v) = Some (nat v)"
    using l by (simp add: parse_digits_def pad_def s Let_def parse_zeros parse_digits_from_show_nat)
  then show "digits_value (pad n v) = v" using assms(1) by (simp add: digits_value_def)
qed

lemma pad_of_digits:
  assumes "all_digits s n" "n > 0"
  shows "pad n (digits_value s) = s"
proof -
  note b = digits_value_bounds [OF assms]
  note p = pad_digits [OF b assms(2)]
  have parse: "\<exists>v. parse_digits_from 0 t = Some v \<and> digits_value t = int v" if "all_digits t n" for t
    using parse_digits_from_value [of t 0] that assms(2)
    by (auto simp: all_digits_def digits_value_def parse_digits_def)
  obtain v where v: "parse_digits_from 0 (pad n (digits_value s)) = Some v" "digits_value (pad n (digits_value s)) = int v"
    using parse [OF p(1)] by auto
  obtain w where w: "parse_digits_from 0 s = Some w" "digits_value s = int w" using parse [OF assms(1)] by auto
  have "v = w" using v(2) w(2) p(2) by simp
  then show ?thesis using parse_digits_from_inj [OF v(1)] w(1) p(1) assms(1) by (auto simp: all_digits_def)
qed

definition fields_text :: "string \<Rightarrow> string \<Rightarrow> string \<Rightarrow> string \<Rightarrow> string \<Rightarrow> string \<Rightarrow> string" where
  "fields_text ys ms ds hs mis ss = ys @ ''-'' @ ms @ ''-'' @ ds @ ''T'' @ hs @ '':'' @ mis @ '':'' @ ss @ ''Z''"

definition fields_ok :: "string \<Rightarrow> string \<Rightarrow> string \<Rightarrow> string \<Rightarrow> string \<Rightarrow> string \<Rightarrow> bool" where
  "fields_ok ys ms ds hs mis ss \<longleftrightarrow>
     all_digits ys 4 \<and> all_digits ms 2 \<and> all_digits ds 2 \<and> all_digits hs 2 \<and> all_digits mis 2 \<and> all_digits ss 2"

definition fields_value :: "int \<Rightarrow> int \<Rightarrow> int \<Rightarrow> int \<Rightarrow> int \<Rightarrow> int \<Rightarrow> int option" where
  "fields_value y m d h mi sec =
     (if valid_date y m d \<and> h \<le> 23 \<and> mi \<le> 59 \<and> sec \<le> 59
      then Some (days_from_civil y m d * 86400 + h * 3600 + mi * 60 + sec) else None)"

lemma all_digits_no: "all_digits s n \<Longrightarrow> \<not> is_digit c \<Longrightarrow> c \<notin> set s"
  by (auto simp: all_digits_def list_all_iff)

lemma punctuation_no_digit:
  "\<not> is_digit CHR ''-''" "\<not> is_digit CHR '':''" "\<not> is_digit CHR ''.''" "\<not> is_digit CHR ''T''" "\<not> is_digit CHR ''Z''"
  by code_simp+

lemma split_three: "c \<notin> set x \<Longrightarrow> c \<notin> set y \<Longrightarrow> c \<notin> set z \<Longrightarrow> split_on c (x @ c # y @ c # z) = [x, y, z]"
  by (simp add: split_on_append split_on_not_in)

lemma split_once_absent: "c \<notin> set s \<Longrightarrow> split_once c s = None"
  by (induction s) auto

lemma valid_date_check:
  "(if \<not> (1 \<le> m \<and> m \<le> 12) \<or> h > 23 \<or> mi > 59 \<or> sec > 59 then None
    else if civil_from_days (days_from_civil y m d) \<noteq> (y, m, d) then None
    else Some (days_from_civil y m d * 86400 + h * 3600 + mi * 60 + sec)) = fields_value y m d h mi sec"
proof -
  have "civil_from_days (days_from_civil y m d) = (y, m, d) \<longleftrightarrow> valid_date y m d"
    using civil_days days_civil by blast
  moreover have "valid_date y m d \<Longrightarrow> 1 \<le> m \<and> m \<le> 12" by (simp add: valid_date_def)
  ultimately show ?thesis by (auto simp: fields_value_def)
qed

lemma parse_fields:
  assumes "fields_ok ys ms ds hs mis ss"
  shows "parse_instant (fields_text ys ms ds hs mis ss) =
    fields_value (digits_value ys) (digits_value ms) (digits_value ds) (digits_value hs) (digits_value mis) (digits_value ss)"
proof -
  note ok = assms [unfolded fields_ok_def]
  let ?date = "ys @ CHR ''-'' # ms @ CHR ''-'' # ds" and ?time = "hs @ CHR '':'' # mis @ CHR '':'' # ss"
  have no: "c \<notin> set ys" "c \<notin> set ms" "c \<notin> set ds" "c \<notin> set hs" "c \<notin> set mis" "c \<notin> set ss" if "\<not> is_digit c" for c
    using ok all_digits_no [OF _ that] by blast+
  have tx: "fields_text ys ms ds hs mis ss = (?date @ CHR ''T'' # ?time) @ [CHR ''Z'']" by (simp add: fields_text_def)
  have z: "strip_suffix_char CHR ''Z'' (fields_text ys ms ds hs mis ss) = Some (?date @ CHR ''T'' # ?time)"
    unfolding tx strip_suffix_char_def by (simp only: last_snoc butlast_snoc) simp
  have T: "split_once CHR ''T'' (?date @ CHR ''T'' # ?time) = Some (?date, ?time)"
    by (rule split_once_append) (use no [OF punctuation_no_digit(4)] in simp)
  have w: "whole_time ?time = Some ?time"
    unfolding whole_time_def by (subst split_once_absent) (use no [OF punctuation_no_digit(3)] in simp_all)
  have sp: "split_on CHR ''-'' ?date = [ys, ms, ds]" "split_on CHR '':'' ?time = [hs, mis, ss]"
    by (rule split_three; rule no [OF punctuation_no_digit(1)] no [OF punctuation_no_digit(2)])+
  show ?thesis
    unfolding parse_instant_def z bind.simps T option.case prod.case w sp list.case
    using ok by (simp only: valid_date_check Let_def simp_thms if_True if_False not_True_eq_False)
qed

lemma parse_instant_fields:
  assumes "parse_instant s = Some t" "CHR ''.'' \<notin> set s"
  obtains ys ms ds hs mis ss where "fields_ok ys ms ds hs mis ss" "s = fields_text ys ms ds hs mis ss"
proof -
  obtain r date ti time where r: "strip_suffix_char CHR ''Z'' s = Some r" "split_once CHR ''T'' r = Some (date, ti)"
      "whole_time ti = Some time"
    using assms(1) by (auto simp: parse_instant_def Option.bind_eq_Some_conv split: option.splits)
  have s: "s = r @ [CHR ''Z'']" using r(1) by (cases s rule: rev_cases) (auto simp: strip_suffix_char_def split: if_splits)
  have rr: "r = date @ CHR ''T'' # ti" using split_once_Some [OF r(2)] by simp
  have "CHR ''.'' \<notin> set ti" using assms(2) s rr by simp
  then have ti: "time = ti" using r(3) by (simp add: whole_time_def split_once_absent)
  obtain ys ms ds where d: "split_on CHR ''-'' date = [ys, ms, ds]"
    using assms(1) r by (auto simp: parse_instant_def split: list.splits option.splits)
  obtain hs mis ss where h: "split_on CHR '':'' time = [hs, mis, ss]"
    using assms(1) r d by (auto simp: parse_instant_def split: list.splits option.splits)
  have ok: "fields_ok ys ms ds hs mis ss"
    using assms(1) r d h by (auto simp: parse_instant_def fields_ok_def split: if_splits)
  have "date = ys @ ''-'' @ ms @ ''-'' @ ds" "time = hs @ '':'' @ mis @ '':'' @ ss"
    using join_split_on [of "CHR ''-''" date] join_split_on [of "CHR '':''" time] d h by simp_all
  then have "s = fields_text ys ms ds hs mis ss" using s rr ti by (simp add: fields_text_def)
  then show ?thesis using that ok by blast
qed

lemma day_split:
  fixes t D h mi sec :: int
  assumes "0 \<le> h" "h \<le> 23" "0 \<le> mi" "mi \<le> 59" "0 \<le> sec" "sec \<le> 59" "t = D * 86400 + h * 3600 + mi * 60 + sec"
  shows "t div 86400 = D" "t mod 86400 div 3600 = h" "t mod 86400 mod 3600 div 60 = mi" "t mod 86400 mod 60 = sec"
proof -
  have e: "t = 86400 * D + (h * 3600 + mi * 60 + sec)" using assms(7) by simp
  have b: "0 \<le> h * 3600 + mi * 60 + sec" "h * 3600 + mi * 60 + sec < 86400" using assms(1-6) by linarith+
  show "t div 86400 = D" using int_div_pos_eq [OF e b] .
  have m: "t mod 86400 = h * 3600 + mi * 60 + sec" using int_mod_pos_eq [OF e b] .
  have e2: "t mod 86400 = 3600 * h + (mi * 60 + sec)" using m by simp
  have b2: "0 \<le> mi * 60 + sec" "mi * 60 + sec < 3600" using assms(3-6) by linarith+
  show "t mod 86400 div 3600 = h" using int_div_pos_eq [OF e2 b2] .
  have e3: "t mod 86400 mod 3600 = 60 * mi + sec" using int_mod_pos_eq [OF e2 b2] by simp
  show "t mod 86400 mod 3600 div 60 = mi" using int_div_pos_eq [OF e3] assms by simp
  have e4: "t mod 86400 = 60 * (60 * h + mi) + sec" using m by simp
  show "t mod 86400 mod 60 = sec" by (rule int_mod_pos_eq [OF e4]) (use assms(5,6) in simp_all)
qed

definition year_of :: "int \<Rightarrow> int" where
  "year_of t = fst (civil_from_days (t div 86400))"

lemma instant_text_fields:
  assumes "0 \<le> year_of t" "year_of t \<le> 9999"
  obtains ys ms ds hs mis ss where "fields_ok ys ms ds hs mis ss" "instant_text t = fields_text ys ms ds hs mis ss"
    "fields_value (digits_value ys) (digits_value ms) (digits_value ds) (digits_value hs) (digits_value mis) (digits_value ss) = Some t"
proof -
  obtain y m d where c: "civil_from_days (t div 86400) = (y, m, d)" by (cases "civil_from_days (t div 86400)")
  then have v: "valid_date y m d" "days_from_civil y m d = t div 86400" using days_civil by blast+
  let ?s = "t mod 86400"
  have y: "0 \<le> y" "y < 10 ^ 4" using assms c by (simp_all add: year_of_def)
  have "days_in_month y m \<le> 31" by (simp add: days_in_month_def)
  then have md: "0 \<le> m" "m < 10 ^ 2" "0 \<le> d" "d < 10 ^ 2" using v(1) by (simp_all add: valid_date_def)
  have s: "0 \<le> ?s" "?s < 86400" by simp_all
  then have h: "0 \<le> ?s div 3600" "?s div 3600 \<le> 23" by (simp_all add: div_le_mono pos_imp_zdiv_nonneg_iff)
  have mi: "0 \<le> ?s mod 3600 div 60" "?s mod 3600 div 60 \<le> 59" "0 \<le> ?s mod 60" "?s mod 60 \<le> 59"
    by (simp_all add: pos_imp_zdiv_nonneg_iff)
  have t: "t div 86400 * 86400 + ?s div 3600 * 3600 + ?s mod 3600 div 60 * 60 + ?s mod 60 = t"
  proof -
    have "?s mod 60 = ?s mod 3600 mod 60" by (simp add: mod_mod_cancel)
    then have "?s mod 3600 div 60 * 60 + ?s mod 60 = ?s mod 3600" by simp
    moreover have "?s div 3600 * 3600 + ?s mod 3600 = ?s" by simp
    moreover have "t div 86400 * 86400 + ?s = t" by simp
    ultimately show ?thesis by linarith
  qed
  have two: "all_digits (pad 2 v) 2 \<and> digits_value (pad 2 v) = v" if "0 \<le> v" "v \<le> 59" for v
    using pad_digits [of v 2] that by simp
  define H MI S where defs: "H = ?s div 3600" "MI = ?s mod 3600 div 60" "S = ?s mod 60"
  have h': "0 \<le> H" "H \<le> 23" "0 \<le> MI" "MI \<le> 59" "0 \<le> S" "S \<le> 59"
    unfolding defs by (rule h mi)+
  have t': "t div 86400 * 86400 + H * 3600 + MI * 60 + S = t" unfolding defs by (rule t)
  have p: "all_digits (pad 4 y) 4" "digits_value (pad 4 y) = y" "all_digits (pad 2 m) 2" "digits_value (pad 2 m) = m"
    "all_digits (pad 2 d) 2" "digits_value (pad 2 d) = d"
    using pad_digits [OF y] pad_digits [OF md(1,2)] pad_digits [OF md(3,4)] by simp_all
  have q: "all_digits (pad 2 H) 2" "digits_value (pad 2 H) = H" "all_digits (pad 2 MI) 2" "digits_value (pad 2 MI) = MI"
    "all_digits (pad 2 S) 2" "digits_value (pad 2 S) = S"
    using two [OF h'(1) order_trans [OF h'(2)]] two [OF h'(3,4)] two [OF h'(5,6)] by simp_all
  show ?thesis
  proof (rule that)
    show "fields_ok (pad 4 y) (pad 2 m) (pad 2 d) (pad 2 H) (pad 2 MI) (pad 2 S)"
      unfolding fields_ok_def using p q by blast
    show "instant_text t = fields_text (pad 4 y) (pad 2 m) (pad 2 d) (pad 2 H) (pad 2 MI) (pad 2 S)"
      by (simp add: instant_text_def fields_text_def c Let_def defs)
    have "valid_date y m d \<and> H \<le> 23 \<and> MI \<le> 59 \<and> S \<le> 59"
        "days_from_civil y m d * 86400 + H * 3600 + MI * 60 + S = t"
      using v h' t' by (simp_all only: simp_thms)
    then show "fields_value (digits_value (pad 4 y)) (digits_value (pad 2 m)) (digits_value (pad 2 d)) (digits_value (pad 2 H))
        (digits_value (pad 2 MI)) (digits_value (pad 2 S)) = Some t"
      by (simp add: p q fields_value_def)
  qed
qed

lemma fields_text_value:
  assumes ok: "fields_ok ys ms ds hs mis ss"
    and v: "fields_value (digits_value ys) (digits_value ms) (digits_value ds) (digits_value hs) (digits_value mis) (digits_value ss) = Some t"
  shows "instant_text t = fields_text ys ms ds hs mis ss" "0 \<le> year_of t" "year_of t \<le> 9999"
proof -
  let ?y = "digits_value ys" and ?m = "digits_value ms" and ?d = "digits_value ds"
  note b = ok [unfolded fields_ok_def]
  have pos: "0 \<le> digits_value hs" "0 \<le> digits_value mis" "0 \<le> digits_value ss" "0 \<le> ?y" "?y < 10 ^ 4"
    using b digits_value_bounds [of _ 2] digits_value_bounds [of ys 4] by simp_all
  have val: "valid_date ?y ?m ?d" and lim: "digits_value hs \<le> 23" "digits_value mis \<le> 59" "digits_value ss \<le> 59"
    and t: "t = days_from_civil ?y ?m ?d * 86400 + digits_value hs * 3600 + digits_value mis * 60 + digits_value ss"
    using v by (auto simp: fields_value_def split: if_splits)
  note sp = day_split [OF pos(1) lim(1) pos(2) lim(2) pos(3) lim(3) t]
  have c: "civil_from_days (t div 86400) = (?y, ?m, ?d)" using sp(1) civil_days [OF val] by simp
  show "0 \<le> year_of t" "year_of t \<le> 9999" using c pos(4,5) by (simp_all add: year_of_def)
  show "instant_text t = fields_text ys ms ds hs mis ss"
    using b pad_of_digits by (simp add: instant_text_def civil_days [OF val] Let_def sp fields_text_def)
qed

text \<open>
  C38: The time format round-trips exactly.  A text with no fraction parses to the instant \<open>t\<close> if and
  only if it is the text \<open>instant\<close> prints for \<open>t\<close>, a time of the years 0 to 9999: every printed time
  reads back as itself and no second spelling of it is accepted.
\<close>

theorem instant_round_trip:
  assumes "CHR ''.'' \<notin> set s"
  shows "parse_instant s = Some t \<longleftrightarrow> s = instant_text t \<and> 0 \<le> year_of t \<and> year_of t \<le> 9999"
proof
  assume p: "parse_instant s = Some t"
  obtain ys ms ds hs mis ss where f: "fields_ok ys ms ds hs mis ss" "s = fields_text ys ms ds hs mis ss"
    using parse_instant_fields [OF p assms] by blast
  have "fields_value (digits_value ys) (digits_value ms) (digits_value ds) (digits_value hs) (digits_value mis) (digits_value ss) = Some t"
    using p parse_fields [OF f(1)] f(2) by simp
  then show "s = instant_text t \<and> 0 \<le> year_of t \<and> year_of t \<le> 9999"
    using fields_text_value [OF f(1)] f(2) by simp
next
  assume s: "s = instant_text t \<and> 0 \<le> year_of t \<and> year_of t \<le> 9999"
  obtain ys ms ds hs mis ss where f: "fields_ok ys ms ds hs mis ss" "instant_text t = fields_text ys ms ds hs mis ss"
    "fields_value (digits_value ys) (digits_value ms) (digits_value ds) (digits_value hs) (digits_value mis) (digits_value ss) = Some t"
    using s instant_text_fields by blast
  then show "parse_instant s = Some t" using s parse_fields [OF f(1)] by simp
qed

theorem instant_round_trip_witness:
  "parse_instant ''2026-01-02T03:04:05Z'' = Some 1767323045 \<and> instant_text 1767323045 = ''2026-01-02T03:04:05Z''"
proof -
  have "parse_instant ''2026-01-02T03:04:05Z'' = Some 1767323045" by code_simp
  then show ?thesis using instant_round_trip [of "''2026-01-02T03:04:05Z''" 1767323045]
    by (simp only: simp_thms set_simps) simp
qed

end
