(* ===== verification/WA_Saml.thy ===== *)
theory WA_Saml
  imports WA_Civil WA_Config WA_Vault "HOL-Library.AList"
begin

text \<open>
  \<open>saml.rs\<close>: single sign-on as a SAML 2.0 service provider. A document is what the XML library
  answers about its nodes; the library's parser, the base-64 and certificate readers, the signature
  verifier and the keyed hash are the fields of \<open>saml_lib\<close>. Everything the proxy itself decides on
  them is here: the metadata, the flow cookie, the shape and the coverage of signatures, the
  checks on the assertion and the table of spent identifiers. Time is an argument.
\<close>

section \<open>Documents\<close>

record xml_attr =
  xa_ns :: "string option"
  xa_local :: string
  xa_value :: string

datatype xml_kind =
    XElement (xk_ns: "string option") (xk_local: string) (xk_attrs: "xml_attr list")
  | XText string
  | XCData string
  | XComment string
  | XInstruction string

record xml_doc =
  xd_kind :: "nat \<Rightarrow> xml_kind option"
  xd_children :: "nat \<Rightarrow> nat list"
  xd_parent :: "nat \<Rightarrow> nat option"
  xd_descendants :: "nat \<Rightarrow> nat list"
  xd_root :: nat
  xd_document_element :: "nat option"

text \<open>One signature's result: the node, what its references resolved to, and whether every digest matched.\<close>

datatype verify_result = VInvalid | VValid nat "nat option list" bool

record saml_lib =
  xl_parse :: "string \<Rightarrow> string + xml_doc"
  xl_b64_decode :: "string \<Rightarrow> string + bytes"
  xl_b64_encode :: "bytes \<Rightarrow> string"
  xl_deflate :: "bytes \<Rightarrow> bytes"
  xl_form_pair :: "string \<Rightarrow> string \<Rightarrow> string"
  xl_load_cert :: "bytes \<Rightarrow> string + nat"
  xl_verify_all :: "nat \<Rightarrow> xml_doc \<Rightarrow> string + verify_result list"
  xl_hmac :: "bytes \<Rightarrow> bytes \<Rightarrow> bytes"

definition NS_ASSERTION :: string where "NS_ASSERTION = ''urn:oasis:names:tc:SAML:2.0:assertion''"
definition NS_PROTOCOL :: string where "NS_PROTOCOL = ''urn:oasis:names:tc:SAML:2.0:protocol''"
definition NS_METADATA :: string where "NS_METADATA = ''urn:oasis:names:tc:SAML:2.0:metadata''"
definition NS_DSIG :: string where "NS_DSIG = ''http://www.w3.org/2000/09/xmldsig#''"
definition BINDING_REDIRECT :: string where "BINDING_REDIRECT = ''urn:oasis:names:tc:SAML:2.0:bindings:HTTP-Redirect''"
definition BINDING_POST :: string where "BINDING_POST = ''urn:oasis:names:tc:SAML:2.0:bindings:HTTP-POST''"
definition STATUS_SUCCESS :: string where "STATUS_SUCCESS = ''urn:oasis:names:tc:SAML:2.0:status:Success''"
definition BEARER :: string where "BEARER = ''urn:oasis:names:tc:SAML:2.0:cm:bearer''"
definition EXC_C14N :: string where "EXC_C14N = ''http://www.w3.org/2001/10/xml-exc-c14n#''"
definition ENVELOPED :: string where "ENVELOPED = ''http://www.w3.org/2000/09/xmldsig#enveloped-signature''"
definition SIGNATURE_METHODS :: "string list" where
  "SIGNATURE_METHODS =
     [''http://www.w3.org/2001/04/xmldsig-more#rsa-sha256'', ''http://www.w3.org/2001/04/xmldsig-more#rsa-sha384'',
      ''http://www.w3.org/2001/04/xmldsig-more#rsa-sha512'']"
definition DIGEST_METHODS :: "string list" where
  "DIGEST_METHODS =
     [''http://www.w3.org/2001/04/xmlenc#sha256'', ''http://www.w3.org/2001/04/xmldsig-more#sha384'',
      ''http://www.w3.org/2001/04/xmlenc#sha512'']"
definition FLOW_SECS :: int where "FLOW_SECS = 300"
definition MAX_SPENT :: nat where "MAX_SPENT = 100000"
definition MAX_RESPONSE_BYTES :: nat where "MAX_RESPONSE_BYTES = 1048576"

datatype saml_error = Metadata string | Refused string

definition saml_error_text :: "saml_error \<Rightarrow> string" where
  "saml_error_text e = (case e of Metadata m \<Rightarrow> ''identity provider metadata: '' @ m | Refused w \<Rightarrow> w)"

definition refuse :: "string \<Rightarrow> saml_error + 'a" where
  "refuse why = Err (Refused why)"

record idp =
  i_entity_id :: string
  i_sso_url :: string
  i_certs :: "bytes list"

record verified =
  v_sid :: string
  v_name_id :: "string option"

record service_provider =
  sp_idp :: idp
  sp_entity_id :: string
  sp_acs_url :: string
  sp_sid_attribute :: string
  sp_skew :: int
  sp_flow_key :: bytes
  sp_spent :: "(string \<times> int) list"

definition is_el :: "xml_doc \<Rightarrow> nat \<Rightarrow> string \<Rightarrow> string \<Rightarrow> bool" where
  "is_el d n ns local =
     (case xd_kind d n of Some (XElement ns' l _) \<Rightarrow> l = local \<and> ns' = Some ns | _ \<Rightarrow> False)"

definition is_element :: "xml_doc \<Rightarrow> nat \<Rightarrow> bool" where
  "is_element d n = (case xd_kind d n of Some (XElement _ _ _) \<Rightarrow> True | _ \<Rightarrow> False)"

definition child_elements :: "xml_doc \<Rightarrow> nat \<Rightarrow> nat list" where
  "child_elements d n = filter (is_element d) (xd_children d n)"

definition children_named :: "xml_doc \<Rightarrow> nat \<Rightarrow> string \<Rightarrow> string \<Rightarrow> nat list" where
  "children_named d n ns local = filter (\<lambda>c. is_el d c ns local) (child_elements d n)"

definition one_child :: "xml_doc \<Rightarrow> nat \<Rightarrow> string \<Rightarrow> string \<Rightarrow> saml_error + nat option" where
  "one_child d n ns local =
     (case children_named d n ns local of
        [] \<Rightarrow> Ok None
      | [c] \<Rightarrow> Ok (Some c)
      | _ \<Rightarrow> refuse (''more than one '' @ local @ '' where one is allowed''))"

definition required_child :: "xml_doc \<Rightarrow> nat \<Rightarrow> string \<Rightarrow> string \<Rightarrow> saml_error + nat" where
  "required_child d n ns local =
     and_then (one_child d n ns local) (\<lambda>c. ok_or (Refused (''no '' @ local @ '' element'')) c)"

definition attr :: "xml_doc \<Rightarrow> nat \<Rightarrow> string \<Rightarrow> string option" where
  "attr d n name =
     (case xd_kind d n of
        Some (XElement _ _ as) \<Rightarrow>
          map_option xa_value (List.find (\<lambda>a. xa_ns a = None \<and> xa_local a = name) as)
      | _ \<Rightarrow> None)"

definition text_piece :: "xml_doc \<Rightarrow> nat \<Rightarrow> saml_error + string" where
  "text_piece d n =
     (case xd_kind d n of
        Some (XText t) \<Rightarrow> Ok t
      | Some (XCData t) \<Rightarrow> Ok t
      | _ \<Rightarrow> refuse ''an element holds more than text where text is expected'')"

definition node_text :: "xml_doc \<Rightarrow> nat \<Rightarrow> saml_error + string" where
  "node_text d n = and_then (each (text_piece d) (xd_children d n)) (\<lambda>ps. Ok (str_trim (concat ps)))"

definition not_plain :: "xml_doc \<Rightarrow> nat \<Rightarrow> bool" where
  "not_plain d n = (case xd_kind d n of Some (XComment _) \<Rightarrow> True | Some (XInstruction _) \<Rightarrow> True | _ \<Rightarrow> False)"

definition plain :: "xml_doc \<Rightarrow> saml_error + unit" where
  "plain d =
     guard (\<not> list_ex (not_plain d) (xd_descendants d (xd_root d)))
       (Refused ''the response carries comments or processing instructions'')"

definition escape_xml_char :: "char \<Rightarrow> string" where
  "escape_xml_char c =
     (if c = CHR ''&'' then ''&amp;'' else if c = CHR ''<'' then ''&lt;'' else if c = CHR ''>'' then ''&gt;''
      else if c = CHR 0x22 then ''&quot;'' else if c = CHR 0x27 then ''&apos;'' else [c])"

definition xml_escape :: "string \<Rightarrow> string" where
  "xml_escape s = concat (map escape_xml_char s)"

definition is_hexdigit :: "char \<Rightarrow> bool" where
  "is_hexdigit c \<longleftrightarrow> hex_val c \<noteq> None"

definition hex_bytes :: "string \<Rightarrow> bytes option" where
  "hex_bytes s = (if odd (length s) \<or> \<not> list_all is_hexdigit s then None else unhex_pairs s)"

definition time_attr :: "xml_doc \<Rightarrow> nat \<Rightarrow> string \<Rightarrow> saml_error + int option" where
  "time_attr d n name =
     (case attr d n name of
        None \<Rightarrow> Ok None
      | Some v \<Rightarrow>
          (case parse_instant v of
             Some t \<Rightarrow> Ok (Some t)
           | None \<Rightarrow> refuse (name @ '' '' @ debug_str v @ '' is not a SAML time'')))"

section \<open>Metadata\<close>

definition ascii_ws :: "char \<Rightarrow> bool" where
  "ascii_ws c \<longleftrightarrow> (of_char c :: nat) \<in> set [9, 10, 12, 13, 32]"

definition strip_bom :: "string \<Rightarrow> string" where
  "strip_bom s = concat (dropWhile (\<lambda>ch. map of_char ch = [0xEF, 0xBB, 0xBF :: nat]) (chars s))"

definition entities_of :: "xml_doc \<Rightarrow> nat \<Rightarrow> saml_error + nat list" where
  "entities_of d root =
     (if is_el d root NS_METADATA ''EntityDescriptor'' then Ok [root]
      else if is_el d root NS_METADATA ''EntitiesDescriptor''
      then Ok (children_named d root NS_METADATA ''EntityDescriptor'')
      else Err (Metadata ''not SAML metadata''))"

definition idps_of :: "xml_doc \<Rightarrow> nat list \<Rightarrow> (nat \<times> nat) list" where
  "idps_of d es = concat (map (\<lambda>e. map (Pair e) (children_named d e NS_METADATA ''IDPSSODescriptor'')) es)"

definition sso_url_of :: "xml_doc \<Rightarrow> nat \<Rightarrow> string option" where
  "sso_url_of d descriptor =
     (case find_map (\<lambda>s. attr d s ''Location'')
             (filter (\<lambda>s. attr d s ''Binding'' = Some BINDING_REDIRECT)
                (children_named d descriptor NS_METADATA ''SingleSignOnService'')) of
        Some l \<Rightarrow> if starts_with l ''https://'' \<or> starts_with l ''http://'' then Some l else None
      | None \<Rightarrow> None)"

definition cert_nodes :: "xml_doc \<Rightarrow> nat \<Rightarrow> nat list" where
  "cert_nodes d descriptor =
     concat (map (\<lambda>kd. concat (map (\<lambda>ki. concat (map (\<lambda>xd. children_named d xd NS_DSIG ''X509Certificate'')
         (children_named d ki NS_DSIG ''X509Data''))) (children_named d kd NS_DSIG ''KeyInfo'')))
       (filter (\<lambda>kd. attr d kd ''use'' \<in> {None, Some ''signing''})
          (children_named d descriptor NS_METADATA ''KeyDescriptor'')))"

definition read_cert :: "saml_lib \<Rightarrow> xml_doc \<Rightarrow> nat \<Rightarrow> saml_error + bytes" where
  "read_cert lib d c =
     and_then (map_err (\<lambda>e. Metadata (saml_error_text e)) (node_text d c)) (\<lambda>t.
     and_then (map_err (\<lambda>e. Metadata (''a signing certificate is not base64: '' @ e))
                 (xl_b64_decode lib (filter (\<lambda>ch. \<not> ascii_ws ch) t))) (\<lambda>der.
     and_then (map_err (\<lambda>e. Metadata (''a signing certificate cannot be read: '' @ e)) (xl_load_cert lib der)) (\<lambda>_.
     Ok der)))"

definition push_new :: "'a list \<Rightarrow> 'a \<Rightarrow> 'a list" where
  "push_new xs x = (if x \<in> set xs then xs else xs @ [x])"

definition parse_metadata :: "saml_lib \<Rightarrow> string \<Rightarrow> saml_error + idp" where
  "parse_metadata lib xml =
     and_then (map_err Metadata (xl_parse lib (strip_bom xml))) (\<lambda>d.
     and_then (ok_or (Metadata ''empty document'') (xd_document_element d)) (\<lambda>root.
     and_then (entities_of d root) (\<lambda>es.
     (case idps_of d es of
        [(entity, descriptor)] \<Rightarrow>
          and_then (case attr d entity ''entityID'' of
                      Some v \<Rightarrow> guard (str_trim v \<noteq> []) (Metadata ''the identity provider has no entityID'')
                    | None \<Rightarrow> Err (Metadata ''the identity provider has no entityID'')) (\<lambda>_.
          and_then (guard (NS_PROTOCOL \<in> set (split_whitespace
                      (case attr d descriptor ''protocolSupportEnumeration'' of Some p \<Rightarrow> p | None \<Rightarrow> '''')))
                      (Metadata ''the identity provider does not declare SAML 2.0'')) (\<lambda>_.
          and_then (ok_or (Metadata ''no SingleSignOnService for the HTTP-Redirect binding'') (sso_url_of d descriptor)) (\<lambda>sso.
          and_then (each (read_cert lib d) (cert_nodes d descriptor)) (\<lambda>ders.
          if ders = [] then Err (Metadata ''no signing certificate'')
          else Ok \<lparr> i_entity_id = the (attr d entity ''entityID''), i_sso_url = sso, i_certs = foldl push_new [] ders \<rparr>))))
      | found \<Rightarrow> Err (Metadata (show_nat (length found) @ '' identity provider descriptors; exactly one is needed''))))))"

section \<open>The service provider\<close>

definition sp_new :: "saml_config \<Rightarrow> idp \<Rightarrow> bytes \<Rightarrow> service_provider" where
  "sp_new cfg i key =
     \<lparr> sp_idp = i, sp_entity_id = entity_id_of cfg, sp_acs_url = acs_url_of cfg,
       sp_sid_attribute = sm_sid_attribute cfg, sp_skew = int (sm_clock_skew_secs cfg), sp_flow_key = key,
       sp_spent = [] \<rparr>"

definition sp_load :: "saml_lib \<Rightarrow> (string \<Rightarrow> string + string) \<Rightarrow> saml_config \<Rightarrow> bytes \<Rightarrow> saml_error + service_provider" where
  "sp_load lib read cfg key =
     and_then (map_err (\<lambda>e. Metadata (sm_idp_metadata cfg @ '': '' @ e)) (read (sm_idp_metadata cfg))) (\<lambda>xml.
     and_then (parse_metadata lib xml) (\<lambda>i. Ok (sp_new cfg i key)))"

definition quoted :: "string \<Rightarrow> string" where
  "quoted s = [CHR 0x22] @ s @ [CHR 0x22]"

definition sp_metadata :: "service_provider \<Rightarrow> string" where
  "sp_metadata sp =
     ''<?xml version='' @ quoted ''1.0'' @ '' encoding='' @ quoted ''UTF-8'' @ ''?>'' @ [CHR 0x0A] @
     ''<md:EntityDescriptor xmlns:md='' @ quoted NS_METADATA @ '' entityID='' @ quoted (xml_escape (sp_entity_id sp)) @ ''>'' @ [CHR 0x0A] @
     ''  <md:SPSSODescriptor AuthnRequestsSigned='' @ quoted ''false'' @ '' WantAssertionsSigned='' @ quoted ''true'' @
     '' protocolSupportEnumeration='' @ quoted NS_PROTOCOL @ ''>'' @ [CHR 0x0A] @
     ''    <md:AssertionConsumerService Binding='' @ quoted BINDING_POST @ '' Location='' @ quoted (xml_escape (sp_acs_url sp)) @
     '' index='' @ quoted ''0'' @ '' isDefault='' @ quoted ''true'' @ ''/>'' @ [CHR 0x0A] @
     ''  </md:SPSSODescriptor>'' @ [CHR 0x0A] @ ''</md:EntityDescriptor>'' @ [CHR 0x0A]"

definition flow_signed :: "string \<Rightarrow> int \<Rightarrow> bytes" where
  "flow_signed rid expires = bytes_of (rid @ ''.'' @ show_int expires)"

definition flow_mac :: "saml_lib \<Rightarrow> service_provider \<Rightarrow> string \<Rightarrow> int \<Rightarrow> string" where
  "flow_mac lib sp rid expires = hex (xl_hmac lib (sp_flow_key sp) (flow_signed rid expires))"

definition authn_request :: "service_provider \<Rightarrow> string \<Rightarrow> int \<Rightarrow> string" where
  "authn_request sp rid now =
     ''<samlp:AuthnRequest xmlns:samlp='' @ quoted NS_PROTOCOL @ '' xmlns:saml='' @ quoted NS_ASSERTION @ '' ID='' @ quoted rid @
     '' Version='' @ quoted ''2.0'' @ '' IssueInstant='' @ quoted (instant_text now) @ '' Destination='' @ quoted (xml_escape (i_sso_url (sp_idp sp))) @
     '' AssertionConsumerServiceURL='' @ quoted (xml_escape (sp_acs_url sp)) @ '' ProtocolBinding='' @ quoted BINDING_POST @ ''>'' @
     ''<saml:Issuer>'' @ xml_escape (sp_entity_id sp) @ ''</saml:Issuer></samlp:AuthnRequest>''"

text \<open>The token is \<open>random_token\<close>'s: 64 hexadecimal digits, of which the first 40 name the request.\<close>

definition saml_start :: "saml_lib \<Rightarrow> service_provider \<Rightarrow> string \<Rightarrow> int \<Rightarrow> string \<times> string" where
  "saml_start lib sp token now =
     (let rid = CHR ''_'' # take 40 token;
          expires = now + FLOW_SECS;
          flow = rid @ ''.'' @ show_int expires @ ''.'' @ flow_mac lib sp rid expires;
          encoded = xl_b64_encode lib (xl_deflate lib (bytes_of (authn_request sp rid now)));
          query = xl_form_pair lib ''SAMLRequest'' encoded;
          sep = (if CHR ''?'' \<in> set (i_sso_url (sp_idp sp)) then ''&'' else ''?'')
      in (i_sso_url (sp_idp sp) @ sep @ query, flow))"

definition LOST :: string where
  "LOST = ''this browser did not start the sign-in, or took longer than five minutes; start it again from this proxy's page''"

text \<open>\<open>rsplitn(3, '.')\<close> with all three parts present.\<close>

definition flow_parts :: "string \<Rightarrow> (string \<times> string \<times> string) option" where
  "flow_parts flow =
     (case rsplit_once CHR ''.'' flow of
        None \<Rightarrow> None
      | Some (rest, mac) \<Rightarrow> map_option (\<lambda>(rid, expires). (rid, expires, mac)) (rsplit_once CHR ''.'' rest))"

definition flow_request :: "saml_lib \<Rightarrow> service_provider \<Rightarrow> string option \<Rightarrow> int \<Rightarrow> saml_error + string" where
  "flow_request lib sp flow now =
     (case Option.bind flow flow_parts of
        None \<Rightarrow> refuse LOST
      | Some (rid, ex, mac) \<Rightarrow>
          (case (parse_i64 ex, hex_bytes mac) of
             (Some expires, Some tag) \<Rightarrow>
               if tag \<noteq> xl_hmac lib (sp_flow_key sp) (flow_signed rid expires) \<or> expires \<le> now then refuse LOST
               else Ok rid
           | _ \<Rightarrow> refuse LOST))"

section \<open>Checks on a response\<close>

definition opt_text :: "xml_doc \<Rightarrow> nat option \<Rightarrow> saml_error + string option" where
  "opt_text d n = (case n of None \<Rightarrow> Ok None | Some n \<Rightarrow> and_then (node_text d n) (\<lambda>t. Ok (Some t)))"

definition unwrap_or :: "'a \<Rightarrow> 'a option \<Rightarrow> 'a" where
  "unwrap_or x r = (case r of Some y \<Rightarrow> y | None \<Rightarrow> x)"

definition check_status :: "xml_doc \<Rightarrow> nat \<Rightarrow> saml_error + unit" where
  "check_status d root =
     and_then (required_child d root NS_PROTOCOL ''Status'') (\<lambda>status.
     and_then (required_child d status NS_PROTOCOL ''StatusCode'') (\<lambda>code.
     (let val = unwrap_or '''' (attr d code ''Value'')
      in if val = STATUS_SUCCESS then Ok ()
         else
           and_then (one_child d code NS_PROTOCOL ''StatusCode'') (\<lambda>sub.
           and_then (one_child d status NS_PROTOCOL ''StatusMessage'') (\<lambda>m.
           and_then (opt_text d m) (\<lambda>msg.
           (let why = after_last CHR '':'' val;
                why = (case sub of
                         Some s \<Rightarrow> why @ ''/'' @ after_last CHR '':'' (unwrap_or '''' (attr d s ''Value''))
                       | None \<Rightarrow> why);
                why = (case msg of Some t \<Rightarrow> why @ '': '' @ t | None \<Rightarrow> why)
            in refuse (''the identity provider refused the sign-in ('' @ why @ '')''))))))))"

definition SHAPE :: string where
  "SHAPE = ''a signature has a form this proxy does not accept''"

definition algorithm :: "xml_doc \<Rightarrow> nat \<Rightarrow> string" where
  "algorithm d n = unwrap_or '''' (attr d n ''Algorithm'')"

datatype info_part = PC14n | PMethod | PReference nat

definition info_part_of :: "xml_doc \<Rightarrow> nat \<Rightarrow> saml_error + info_part" where
  "info_part_of d c =
     (if is_el d c NS_DSIG ''CanonicalizationMethod'' \<and> algorithm d c = EXC_C14N then Ok PC14n
      else if is_el d c NS_DSIG ''SignatureMethod'' \<and> algorithm d c \<in> set SIGNATURE_METHODS \<and> child_elements d c = []
      then Ok PMethod
      else if is_el d c NS_DSIG ''Reference'' then Ok (PReference c)
      else refuse SHAPE)"

definition references_of :: "info_part list \<Rightarrow> nat list" where
  "references_of ps = List.map_filter (\<lambda>p. case p of PReference c \<Rightarrow> Some c | _ \<Rightarrow> None) ps"

definition uri_ok :: "string \<Rightarrow> bool" where
  "uri_ok uri =
     (let target = unwrap_or '''' (strip_prefix ''#'' uri)
      in target \<noteq> [] \<and>
         list_all (\<lambda>c. let n = (of_char c :: nat) in
           (48 \<le> n \<and> n \<le> 57) \<or> (65 \<le> n \<and> n \<le> 90) \<or> (97 \<le> n \<and> n \<le> 122) \<or> c \<in> set ''_-.'') target)"

text \<open>The children of a Reference: the Transforms node, and the numbers of digest methods and values.\<close>

fun reference_parts :: "xml_doc \<Rightarrow> nat option \<Rightarrow> nat \<Rightarrow> nat \<Rightarrow> nat list \<Rightarrow> saml_error + (nat option \<times> nat \<times> nat)" where
  "reference_parts d transforms digest val [] = Ok (transforms, digest, val)"
| "reference_parts d transforms digest val (c # cs) =
     (if is_el d c NS_DSIG ''Transforms'' \<and> transforms = None then reference_parts d (Some c) digest val cs
      else if is_el d c NS_DSIG ''DigestMethod'' \<and> algorithm d c \<in> set DIGEST_METHODS \<and> child_elements d c = []
      then reference_parts d transforms (digest + 1) val cs
      else if is_el d c NS_DSIG ''DigestValue'' then reference_parts d transforms digest (val + 1) cs
      else refuse SHAPE)"

definition transform_ok :: "xml_doc \<Rightarrow> nat \<Rightarrow> string \<Rightarrow> bool" where
  "transform_ok d t alg \<longleftrightarrow> is_el d t NS_DSIG ''Transform'' \<and> algorithm d t = alg"

definition check_reference :: "xml_doc \<Rightarrow> nat \<Rightarrow> saml_error + unit" where
  "check_reference d reference =
     and_then (guard (uri_ok (unwrap_or '''' (attr d reference ''URI''))) (Refused SHAPE)) (\<lambda>_.
     and_then (reference_parts d None 0 0 (child_elements d reference)) (\<lambda>(transforms, digest, val).
     and_then (ok_or (Refused SHAPE) transforms) (\<lambda>tr.
     (case child_elements d tr of
        [enveloped, exclusive] \<Rightarrow>
          guard (transform_ok d enveloped ENVELOPED \<and> child_elements d enveloped = [] \<and>
                 transform_ok d exclusive EXC_C14N \<and> digest = 1 \<and> val = 1) (Refused SHAPE)
      | _ \<Rightarrow> refuse SHAPE))))"

definition check_signature_shape :: "xml_doc \<Rightarrow> nat \<Rightarrow> saml_error + unit" where
  "check_signature_shape d sig =
     and_then (guard (list_all (\<lambda>c. is_el d c NS_DSIG ''SignedInfo'' \<or> is_el d c NS_DSIG ''SignatureValue'' \<or>
                                   is_el d c NS_DSIG ''KeyInfo'') (child_elements d sig)) (Refused SHAPE)) (\<lambda>_.
     and_then (required_child d sig NS_DSIG ''SignedInfo'') (\<lambda>info.
     and_then (each (info_part_of d) (child_elements d info)) (\<lambda>ps.
     (case references_of ps of
        [reference] \<Rightarrow>
          and_then (guard (count_list ps PC14n = 1 \<and> count_list ps PMethod = 1) (Refused SHAPE)) (\<lambda>_.
          check_reference d reference)
      | _ \<Rightarrow> refuse SHAPE))))"

text \<open>One signature's result counts when it is for that node, its digests match and its one reference is its parent.\<close>

definition sig_good :: "xml_doc \<Rightarrow> nat \<Rightarrow> verify_result \<Rightarrow> bool" where
  "sig_good d sig r =
     (case r of
        VInvalid \<Rightarrow> False
      | VValid node refs digests \<Rightarrow> node = sig \<and> digests \<and> (case refs of [x] \<Rightarrow> x = xd_parent d sig | _ \<Rightarrow> False))"

fun check_certs ::
  "saml_lib \<Rightarrow> xml_doc \<Rightarrow> nat list \<Rightarrow> nat \<Rightarrow> bool list \<Rightarrow> bool \<Rightarrow> bytes list \<Rightarrow> saml_error + (bool list \<times> bool)" where
  "check_certs lib d sigs assertion valid covers [] = Ok (valid, covers)"
| "check_certs lib d sigs assertion valid covers (cert # certs) =
     and_then (map_err (\<lambda>e. Refused (''a pinned certificate: '' @ e)) (xl_load_cert lib cert)) (\<lambda>key.
     and_then (map_err (\<lambda>e. Refused (''the signature cannot be checked: '' @ e)) (xl_verify_all lib key d)) (\<lambda>results.
     and_then (guard (length results = length sigs)
                 (Refused ''the signatures found differ from the signatures checked'')) (\<lambda>_.
     check_certs lib d sigs assertion
       (map2 (\<or>) valid (map2 (sig_good d) sigs results))
       (covers \<or> list_ex (\<lambda>(s, r). sig_good d s r \<and> xd_parent d s = Some assertion) (zip sigs results))
       certs)))"

definition check_placement :: "xml_doc \<Rightarrow> nat \<Rightarrow> nat \<Rightarrow> nat \<Rightarrow> saml_error + unit" where
  "check_placement d root assertion s =
     and_then (check_signature_shape d s) (\<lambda>_.
     guard (xd_parent d s = Some root \<or> xd_parent d s = Some assertion)
       (Refused ''a signature is somewhere other than the Response or the Assertion''))"

definition check_signatures :: "saml_lib \<Rightarrow> service_provider \<Rightarrow> xml_doc \<Rightarrow> nat \<Rightarrow> nat \<Rightarrow> saml_error + unit" where
  "check_signatures lib sp d root assertion =
     (let sigs = filter (\<lambda>n. is_el d n NS_DSIG ''Signature'') (xd_descendants d root)
      in and_then (guard (sigs \<noteq> []) (Refused ''the assertion is not signed'')) (\<lambda>_.
         and_then (each (check_placement d root assertion) sigs) (\<lambda>_.
         and_then (check_certs lib d sigs assertion (replicate (length sigs) False) False (i_certs (sp_idp sp))) (\<lambda>(valid, covers).
         and_then (guard (list_all id valid)
                     (Refused ''a signature did not verify against the identity provider's certificates'')) (\<lambda>_.
         guard covers (Refused ''the assertion is not signed''))))))"

section \<open>Checks on the assertion\<close>

definition check_issuer :: "service_provider \<Rightarrow> xml_doc \<Rightarrow> nat \<Rightarrow> int \<Rightarrow> saml_error + string" where
  "check_issuer sp d a now =
     and_then (guard (attr d a ''Version'' = Some ''2.0'') (Refused ''the assertion is not SAML 2.0'')) (\<lambda>_.
     (case attr d a ''ID'' of
        None \<Rightarrow> refuse ''the assertion has no ID''
      | Some aid \<Rightarrow>
          and_then (guard (aid \<noteq> []) (Refused ''the assertion has no ID'')) (\<lambda>_.
          and_then (required_child d a NS_ASSERTION ''Issuer'') (\<lambda>issuer.
          and_then (node_text d issuer) (\<lambda>t.
          and_then (guard (t = i_entity_id (sp_idp sp)) (Refused ''the assertion is from a different identity provider'')) (\<lambda>_.
          and_then (time_attr d a ''IssueInstant'') (\<lambda>at.
          (case at of
             None \<Rightarrow> refuse ''the assertion has no IssueInstant''
           | Some t \<Rightarrow>
               and_then (guard (t \<le> now + sp_skew sp)
                 (Refused ''the assertion was issued in the future; check the clocks of this proxy and the identity provider'')) (\<lambda>_.
               Ok aid)))))))))"

definition confirm_one :: "service_provider \<Rightarrow> xml_doc \<Rightarrow> string \<Rightarrow> int \<Rightarrow> nat \<Rightarrow> saml_error + int option" where
  "confirm_one sp d rid now sc =
     (if attr d sc ''Method'' \<noteq> Some BEARER then Ok None
      else and_then (one_child d sc NS_ASSERTION ''SubjectConfirmationData'') (\<lambda>data.
        (case data of
           None \<Rightarrow> Ok None
         | Some n \<Rightarrow>
             and_then (time_attr d n ''NotOnOrAfter'') (\<lambda>until.
             Ok (if attr d n ''Recipient'' = Some (sp_acs_url sp) \<and> attr d n ''InResponseTo'' = Some rid \<and>
                    attr d n ''NotBefore'' = None \<and> (case until of Some u \<Rightarrow> now < u + sp_skew sp | None \<Rightarrow> False)
                 then until else None)))))"

definition max_opt :: "int option \<Rightarrow> int option \<Rightarrow> int option" where
  "max_opt a b = (case (a, b) of (None, _) \<Rightarrow> b | (_, None) \<Rightarrow> a | (Some x, Some y) \<Rightarrow> Some (max x y))"

definition check_subject :: "service_provider \<Rightarrow> xml_doc \<Rightarrow> nat \<Rightarrow> string \<Rightarrow> int \<Rightarrow> saml_error + (string option \<times> int)" where
  "check_subject sp d a rid now =
     and_then (required_child d a NS_ASSERTION ''Subject'') (\<lambda>subject.
     and_then (one_child d subject NS_ASSERTION ''NameID'') (\<lambda>n.
     and_then (opt_text d n) (\<lambda>name_id.
     and_then (each (confirm_one sp d rid now) (children_named d subject NS_ASSERTION ''SubjectConfirmation'')) (\<lambda>us.
     and_then (ok_or (Refused ''the assertion is not addressed to this proxy's sign-in, or it has expired'')
                 (foldl max_opt None us)) (\<lambda>until.
     Ok (name_id, until))))))"

definition check_condition :: "service_provider \<Rightarrow> xml_doc \<Rightarrow> nat \<Rightarrow> saml_error + bool" where
  "check_condition sp d c =
     (if is_el d c NS_ASSERTION ''AudienceRestriction''
      then and_then (each (node_text d) (children_named d c NS_ASSERTION ''Audience'')) (\<lambda>ts.
           and_then (guard (sp_entity_id sp \<in> set ts)
                       (Refused (''the assertion is for another relying party, not '' @ sp_entity_id sp))) (\<lambda>_.
           Ok True))
      else if is_el d c NS_ASSERTION ''OneTimeUse'' \<or> is_el d c NS_ASSERTION ''ProxyRestriction'' then Ok False
      else refuse ''the assertion carries a condition this proxy does not understand'')"

definition check_conditions :: "service_provider \<Rightarrow> xml_doc \<Rightarrow> nat \<Rightarrow> int \<Rightarrow> saml_error + int option" where
  "check_conditions sp d a now =
     and_then (required_child d a NS_ASSERTION ''Conditions'') (\<lambda>conditions.
     and_then (time_attr d conditions ''NotBefore'') (\<lambda>from.
     and_then (guard (case from of Some t \<Rightarrow> \<not> now + sp_skew sp < t | None \<Rightarrow> True)
                 (Refused ''the assertion is not valid yet; check the clocks'')) (\<lambda>_.
     and_then (time_attr d conditions ''NotOnOrAfter'') (\<lambda>until.
     and_then (guard (case until of Some t \<Rightarrow> \<not> now \<ge> t + sp_skew sp | None \<Rightarrow> True)
                 (Refused ''the assertion has expired'')) (\<lambda>_.
     and_then (each (check_condition sp d) (child_elements d conditions)) (\<lambda>cs.
     and_then (guard (True \<in> set cs) (Refused ''the assertion names no audience'')) (\<lambda>_.
     Ok until)))))))"

definition check_session :: "xml_doc \<Rightarrow> int \<Rightarrow> nat \<Rightarrow> saml_error + unit" where
  "check_session d now s =
     and_then (time_attr d s ''SessionNotOnOrAfter'') (\<lambda>t.
     guard (case t of Some t \<Rightarrow> \<not> t \<le> now | None \<Rightarrow> True)
       (Refused ''the identity provider's session has ended; sign in again''))"

definition check_statements :: "xml_doc \<Rightarrow> nat \<Rightarrow> int \<Rightarrow> saml_error + unit" where
  "check_statements d a now =
     (let statements = children_named d a NS_ASSERTION ''AuthnStatement''
      in and_then (guard (statements \<noteq> []) (Refused ''the assertion has no AuthnStatement'')) (\<lambda>_.
         and_then (each (check_session d now) statements) (\<lambda>_. Ok ())))"

definition sid_attributes :: "service_provider \<Rightarrow> xml_doc \<Rightarrow> nat \<Rightarrow> nat list" where
  "sid_attributes sp d a =
     concat (map (\<lambda>st. filter (\<lambda>at. attr d at ''Name'' = Some (sp_sid_attribute sp))
                         (children_named d st NS_ASSERTION ''Attribute''))
               (children_named d a NS_ASSERTION ''AttributeStatement''))"

definition read_sid :: "service_provider \<Rightarrow> xml_doc \<Rightarrow> nat \<Rightarrow> saml_error + string" where
  "read_sid sp d a =
     (case sid_attributes sp d a of
        [at] \<Rightarrow>
          (case children_named d at NS_ASSERTION ''AttributeValue'' of
             [v] \<Rightarrow>
               and_then (node_text d v) (\<lambda>raw.
               ok_or (Refused (''the '' @ sp_sid_attribute sp @ '' attribute holds '' @ debug_str raw @ '', which is not a SID''))
                 (canonical_sid raw))
           | _ \<Rightarrow> refuse (''the '' @ sp_sid_attribute sp @ '' attribute must hold one value''))
      | _ \<Rightarrow> refuse (''the assertion must carry the '' @ sp_sid_attribute sp @ '' attribute once''))"

definition check_assertion ::
  "service_provider \<Rightarrow> xml_doc \<Rightarrow> nat \<Rightarrow> string \<Rightarrow> int \<Rightarrow> saml_error + (verified \<times> string \<times> int)" where
  "check_assertion sp d a rid now =
     and_then (check_issuer sp d a now) (\<lambda>aid.
     and_then (check_subject sp d a rid now) (\<lambda>(name_id, confirmed).
     and_then (check_conditions sp d a now) (\<lambda>until.
     and_then (check_statements d a now) (\<lambda>_.
     and_then (read_sid sp d a) (\<lambda>sid.
     Ok (\<lparr> v_sid = sid, v_name_id = name_id \<rparr>, aid,
         (case until of Some c \<Rightarrow> max c confirmed | None \<Rightarrow> confirmed)))))))"

section \<open>Accepting a response\<close>

definition decode_response :: "saml_lib \<Rightarrow> string \<Rightarrow> saml_error + xml_doc" where
  "decode_response lib saml_response =
     (let compact = filter (\<lambda>c. \<not> ascii_ws c) saml_response
      in and_then (guard (length compact \<le> MAX_RESPONSE_BYTES div 3 * 4 + 4)
                     (Refused ''the identity provider's response is too large'')) (\<lambda>_.
         and_then (map_err (\<lambda>_. Refused ''the identity provider's response is not base64'') (xl_b64_decode lib compact)) (\<lambda>bs.
         and_then (ok_or (Refused ''the identity provider's response is not UTF-8'') (from_utf8 bs)) (\<lambda>xml.
         and_then (map_err (\<lambda>e. Refused (''the identity provider's response is refused: '' @ e)) (xl_parse lib xml)) (\<lambda>d.
         and_then (plain d) (\<lambda>_. Ok d))))))"

definition check_root :: "service_provider \<Rightarrow> xml_doc \<Rightarrow> string \<Rightarrow> saml_error + nat" where
  "check_root sp d rid =
     and_then (ok_or (Refused ''the identity provider's response is empty'') (xd_document_element d)) (\<lambda>root.
     and_then (guard (is_el d root NS_PROTOCOL ''Response'' \<and> attr d root ''Version'' = Some ''2.0'')
                 (Refused ''the identity provider did not send a SAML 2.0 Response'')) (\<lambda>_.
     and_then (case attr d root ''InResponseTo'' of
                 None \<Rightarrow> refuse ''the identity provider sent a sign-in this proxy did not ask for; start the sign-in from this proxy's page''
               | Some irt \<Rightarrow>
                   guard (irt = rid)
                     (Refused ''the response answers a different sign-in than this browser started; start again'')) (\<lambda>_.
     and_then (case attr d root ''Destination'' of
                 None \<Rightarrow> Ok ()
               | Some dest \<Rightarrow>
                   guard (dest = sp_acs_url sp)
                     (Refused (''the response is addressed to '' @ dest @ '', not '' @ sp_acs_url sp))) (\<lambda>_.
     and_then (one_child d root NS_ASSERTION ''Issuer'') (\<lambda>issuer.
     and_then (opt_text d issuer) (\<lambda>t.
     and_then (guard (t = None \<or> t = Some (i_entity_id (sp_idp sp)))
                 (Refused ''the response is from a different identity provider'')) (\<lambda>_.
     and_then (check_status d root) (\<lambda>_. Ok root))))))))"

definition the_assertion :: "xml_doc \<Rightarrow> nat \<Rightarrow> saml_error + nat" where
  "the_assertion d root =
     and_then (guard (children_named d root NS_ASSERTION ''EncryptedAssertion'' = [])
       (Refused ''the identity provider encrypted the assertion; ask IT to send it signed and unencrypted to this relying party'')) (\<lambda>_.
     (case (children_named d root NS_ASSERTION ''Assertion'',
            filter (\<lambda>n. is_el d n NS_ASSERTION ''Assertion'') (xd_descendants d root)) of
        ([a], [_]) \<Rightarrow> Ok a
      | _ \<Rightarrow> refuse ''the response must carry exactly one assertion''))"

text \<open>Everything \<open>accept\<close> checks before it touches the table of spent identifiers.\<close>

definition check_response ::
  "saml_lib \<Rightarrow> service_provider \<Rightarrow> string \<Rightarrow> string option \<Rightarrow> int \<Rightarrow> saml_error + (verified \<times> string \<times> string \<times> int)" where
  "check_response lib sp saml_response flow now =
     and_then (flow_request lib sp flow now) (\<lambda>rid.
     and_then (decode_response lib saml_response) (\<lambda>d.
     and_then (check_root sp d rid) (\<lambda>root.
     and_then (the_assertion d root) (\<lambda>a.
     and_then (check_signatures lib sp d root a) (\<lambda>_.
     and_then (check_assertion sp d a rid now) (\<lambda>(v, aid, expires).
     Ok (v, rid, aid, expires)))))))"

text \<open>The critical section under the lock of \<open>spent\<close>.\<close>

definition spend :: "service_provider \<Rightarrow> string \<Rightarrow> string \<Rightarrow> int \<Rightarrow> int \<Rightarrow> (saml_error + unit) \<times> service_provider" where
  "spend sp rid aid expires now =
     (let spent = filter (\<lambda>(_, until). until > now) (sp_spent sp);
          request_key = ''r:'' @ rid;
          assertion_key = ''a:'' @ aid
      in if request_key \<in> set (map fst spent) \<or> assertion_key \<in> set (map fst spent)
         then (refuse ''this sign-in was already used; start again'', sp\<lparr>sp_spent := spent\<rparr>)
         else if length spent + 2 > MAX_SPENT
         then (refuse ''too many sign-ins in the last few minutes; try again shortly'', sp\<lparr>sp_spent := spent\<rparr>)
         else (Ok (), sp\<lparr>sp_spent :=
                 AList.update assertion_key (max expires (now + FLOW_SECS) + sp_skew sp)
                   (AList.update request_key (now + FLOW_SECS + sp_skew sp) spent)\<rparr>))"

definition saml_accept ::
  "saml_lib \<Rightarrow> service_provider \<Rightarrow> string \<Rightarrow> string option \<Rightarrow> int \<Rightarrow> (saml_error + verified) \<times> service_provider" where
  "saml_accept lib sp saml_response flow now =
     (case check_response lib sp saml_response flow now of
        Err e \<Rightarrow> (Err e, sp)
      | Ok (v, rid, aid, expires) \<Rightarrow>
          (case spend sp rid aid expires now of
             (Err e, sp') \<Rightarrow> (Err e, sp')
           | (Ok _, sp') \<Rightarrow> (Ok v, sp')))"

end
