(* ===== verification/WA_App.thy ===== *)
theory WA_App
  imports WA_Handler WA_Saml WA_Settings WA_Policy WA_Auth WA_Live WA_Notices
begin

text \<open>
  \<open>app.rs\<close>: everything a request handler works on, and what the process does with it at start. The
  state of the running proxy is one record; a handler is an \<open>act\<close> on it. Locks only make each
  step atomic, so they have no field; the gate's exclusion appears as where one step ends and the
  next begins. The libraries the program calls are the fields of \<open>libs\<close>; clock readings and random
  values are arguments, one reading of the clock for a step.
\<close>

section \<open>The state\<close>

record libs =
  l_lower :: "string \<Rightarrow> string"
  l_sha256 :: "bytes \<Rightarrow> bytes"
  l_crypto :: crypto
  l_saml :: saml_lib
  l_from_json :: "bytes \<Rightarrow> settings option"
  l_to_json :: "settings \<Rightarrow> bytes"

record revocation_health =
  rh_last_run :: "unix_time option"
  rh_last_ok :: "unix_time option"
  rh_error :: "string option"
  rh_checked :: nat
  rh_unread :: "string list"

record pending_import =
  pi_blob :: bytes
  pi_uploaded :: instant

record app =
  app_cfg :: config
  app_store :: store
  app_vault :: vault
  app_directory :: "directory option"
  app_saml :: "service_provider option"
  app_tickets :: tickets
  app_live :: live_sessions
  app_secure_cookies :: bool
  app_host_name :: string
  app_imports :: "(string \<times> pending_import) list"
  app_generation :: "64 word"
  app_throttle :: throttle
  app_address_throttle :: throttle
  app_revocation :: revocation_health
  app_scan :: "scan_service option"
  app_notices :: notices

definition META_DIRECTORY_PASSWORD :: string where "META_DIRECTORY_PASSWORD = ''directory_password''"
definition AAD_DIRECTORY_PASSWORD :: bytes where "AAD_DIRECTORY_PASSWORD = bytes_of ''directory service password''"
definition META_FROZEN :: string where "META_FROZEN = ''frozen''"
definition META_FREEZE_PENDING :: string where "META_FREEZE_PENDING = ''freeze_pending''"
definition META_INSTANCE :: string where "META_INSTANCE = ''instance''"
definition META_SEEDED :: string where "META_SEEDED = ''seeded_from_config''"

definition revocation_new :: revocation_health where
  "revocation_new = \<lparr> rh_last_run = None, rh_last_ok = None, rh_error = None, rh_checked = 0, rh_unread = [] \<rparr>"

definition from_parts ::
  "config \<Rightarrow> store \<Rightarrow> vault \<Rightarrow> directory option \<Rightarrow> string \<Rightarrow> bool \<Rightarrow> scan_service option \<Rightarrow> app" where
  "from_parts cfg st v d host secure scan =
     \<lparr> app_cfg = cfg, app_store = st, app_vault = v, app_directory = d, app_saml = None,
       app_tickets = (\<lambda>_. None), app_live = live_new, app_secure_cookies = secure, app_host_name = host,
       app_imports = [], app_generation = 0, app_throttle = throttle_new THROTTLE_FAILURES,
       app_address_throttle =
         throttle_new (case cf_directory cfg of Some dc \<Rightarrow> dc_failed_signins_per_address dc | None \<Rightarrow> 0),
       app_revocation = revocation_new, app_scan = scan, app_notices = notices_new \<rparr>"

section \<open>Operations on the store from a handler\<close>

definition st_op :: "(store_error \<Rightarrow> 'e) \<Rightarrow> (store \<Rightarrow> store_error + ('a \<times> store)) \<Rightarrow> (app, 'e, 'a) act" where
  "st_op conv f = (\<lambda>a. case f (app_store a) of
     Err e \<Rightarrow> (Err (conv e), a)
   | Ok (x, s) \<Rightarrow> (Ok x, a\<lparr>app_store := s\<rparr>))"

definition st_read :: "(store_error \<Rightarrow> 'e) \<Rightarrow> (store \<Rightarrow> store_error + 'a) \<Rightarrow> (app, 'e, 'a) act" where
  "st_read conv f = act_read (\<lambda>a. map_err conv (f (app_store a)))"

definition log_audit :: "unix_time \<Rightarrow> string \<Rightarrow> string \<Rightarrow> string \<Rightarrow> (app, 'e, unit) act" where
  "log_audit now actor action detail = act_mod (\<lambda>a. a\<lparr>app_store := audit (app_store a) now actor action detail\<rparr>)"

definition live_op :: "(live_sessions \<Rightarrow> 'a \<times> live_sessions) \<Rightarrow> (app, 'e, 'a) act" where
  "live_op f = (\<lambda>a. let (x, l) = f (app_live a) in (Ok x, a\<lparr>app_live := l\<rparr>))"

section \<open>Text that need not be UTF-8\<close>

text \<open>\<open>String::from_utf8_lossy\<close>: a well-formed sequence stays, a maximal broken one becomes U+FFFD.\<close>

definition broken_len :: "nat \<Rightarrow> nat list \<Rightarrow> nat" where
  "broken_len b bs =
     (case extra_bytes b of
        None \<Rightarrow> 1
      | Some n \<Rightarrow>
          if bs = [] \<or> \<not> second_ok b (hd bs) then 1
          else 1 + length (takeWhile cont_byte (take (n - 1) bs)))"

definition replacement :: "nat list" where "replacement = [0xEF, 0xBF, 0xBD]"

definition well_formed_at :: "nat \<Rightarrow> nat list \<Rightarrow> bool" where
  "well_formed_at b bs =
     (case extra_bytes b of
        None \<Rightarrow> False
      | Some n \<Rightarrow> n \<le> length bs \<and> (n > 0 \<longrightarrow> second_ok b (hd bs)) \<and> list_all cont_byte (take n bs))"

function lossy :: "nat list \<Rightarrow> nat list" where
  "lossy [] = []"
| "lossy (b # bs) =
     (if well_formed_at b bs
      then b # take (the (extra_bytes b)) bs @ lossy (drop (the (extra_bytes b)) bs)
      else replacement @ lossy (drop (broken_len b bs - 1) bs))"
  by pat_completeness auto
termination by (relation "measure length") auto

definition from_utf8_lossy :: "bytes \<Rightarrow> string" where
  "from_utf8_lossy bs = map char_of (lossy (map unat bs))"

section \<open>Start\<close>

definition instance_of :: "app \<Rightarrow> string" where
  "instance_of a =
     (case meta_get (app_store a) META_INSTANCE of Ok (Some v) \<Rightarrow> from_utf8_lossy v | _ \<Rightarrow> [])"

definition new_instance :: "string \<Rightarrow> store \<Rightarrow> store_error + (unit \<times> store)" where
  "new_instance token s = meta_set s META_INSTANCE (take 32 (bytes_of token))"

definition lift_stranded_freeze :: "unix_time \<Rightarrow> (app, store_error, bool) act" where
  "lift_stranded_freeze now =
     act_bind (st_read id (\<lambda>s. flag s META_FREEZE_PENDING)) (\<lambda>pending.
     if \<not> pending then act_ret False
     else
       act_bind (st_op id (\<lambda>s. set_flag s META_FROZEN False)) (\<lambda>_.
       act_bind (st_op id (\<lambda>s. set_flag s META_FREEZE_PENDING False)) (\<lambda>_.
       act_bind (log_audit now ''system'' ''unfreeze'' ''the export that froze this proxy did not finish'') (\<lambda>_.
       act_ret True))))"

definition bump_generation :: "app \<Rightarrow> app" where
  "bump_generation a = a\<lparr>app_generation := app_generation a + 1\<rparr>"

definition seed_rows :: "config \<Rightarrow> import_row list" where
  "seed_rows cfg =
     map (\<lambda>t. \<lparr> ir_name = t_id t, ir_host = t_host t, ir_port = Some (of_nat (t_port t)),
               ir_group = Some (Some ''Imported''), ir_domain = None \<rparr>) (cf_target cfg)"

text \<open>\<open>rnd\<close> gives SQLite's \<open>random()\<close> for each new row.\<close>

definition seed_from_config :: "unix_time \<Rightarrow> (int \<Rightarrow> int) \<Rightarrow> (app, store_error, unit) act" where
  "seed_from_config now rnd =
     act_bind (act_get (\<lambda>a. cf_target (app_cfg a) = [])) (\<lambda>none.
     if none then act_ret ()
     else act_bind (st_read id (\<lambda>s. flag s META_SEEDED)) (\<lambda>seeded.
     if seeded then act_ret ()
     else act_bind (st_read id servers_empty) (\<lambda>empt.
     if \<not> empt then act_ret ()
     else
       act_bind (act_get (\<lambda>a. seed_rows (app_cfg a))) (\<lambda>rows.
       act_bind (st_op id (\<lambda>s. servers_import s rnd rows)) (\<lambda>(created, _).
       act_bind (st_op id (\<lambda>s. set_flag s META_SEEDED True)) (\<lambda>_.
       log_audit now ''system'' ''servers.seed'' (show_nat created @ '' server(s) from config.toml'')))))))"

definition frozen :: "app \<Rightarrow> bool" where
  "frozen a = (case flag (app_store a) META_FROZEN of Ok b \<Rightarrow> b | Err _ \<Rightarrow> False)"

definition directory_password :: "crypto \<Rightarrow> app \<Rightarrow> vault_error + string option" where
  "directory_password cr a =
     and_then (vstore (meta_get (app_store a) META_DIRECTORY_PASSWORD)) (\<lambda>b.
     (case b of
        None \<Rightarrow> Ok None
      | Some blob \<Rightarrow>
          and_then (vault_open_value cr (app_vault a) AAD_DIRECTORY_PASSWORD blob) (\<lambda>p.
          Ok (Some (from_utf8_lossy p)))))"

definition set_directory_password :: "crypto \<Rightarrow> bytes option \<Rightarrow> string \<Rightarrow> (app, vault_error, unit) act" where
  "set_directory_password cr rnd pw =
     act_bind (act_read (\<lambda>a. vault_seal_value cr rnd (app_vault a) AAD_DIRECTORY_PASSWORD (bytes_of pw))) (\<lambda>blob.
     st_op VaultStore (\<lambda>s. meta_set s META_DIRECTORY_PASSWORD blob))"

definition directory_password_set :: "app \<Rightarrow> bool" where
  "directory_password_set a = (case meta_get (app_store a) META_DIRECTORY_PASSWORD of Ok (Some _) \<Rightarrow> True | _ \<Rightarrow> False)"

definition reset_credential_store :: "bytes option \<Rightarrow> (app, vault_error, nat) act" where
  "reset_credential_store rnd = (\<lambda>a.
     case vault_reset rnd (app_vault a) [META_DIRECTORY_PASSWORD] (app_store a) of
       Err e \<Rightarrow> (Err e, a)
     | Ok (n, v, s) \<Rightarrow> (Ok n, a\<lparr>app_vault := v, app_store := s\<rparr>))"

definition is_admin :: "libs \<Rightarrow> app \<Rightarrow> user \<Rightarrow> bool" where
  "is_admin lib a u \<longleftrightarrow> u_is_admin u \<or> is_bootstrap_admin (l_lower lib) (app_cfg a) (u_username u)"

definition lookup_directory :: "app \<Rightarrow> directory option" where
  "lookup_directory a =
     (case app_directory a of Some d \<Rightarrow> if has_service_account d then Some d else None | None \<Rightarrow> None)"

section \<open>What the start does\<close>

lemmas act_defs = st_op_def st_read_def log_audit_def live_op_def

lemma st_op_Ok: "st_op conv f a = (Ok x, a') \<longleftrightarrow> (\<exists>s. f (app_store a) = Ok (x, s) \<and> a' = a\<lparr>app_store := s\<rparr>)"
  by (auto simp: st_op_def split: sum.splits)

lemma st_read_Ok: "st_read conv f a = (Ok x, a') \<longleftrightarrow> f (app_store a) = Ok x \<and> a' = a"
  by (auto simp: st_read_def)

lemma log_audit_Ok:
  "log_audit now w x y a = (Ok u, a') \<longleftrightarrow> a' = a\<lparr>app_store := audit (app_store a) now w x y\<rparr>"
  by (auto simp: log_audit_def)

lemma live_op_Ok: "live_op f a = (Ok x, a') \<longleftrightarrow> (\<exists>l. f (app_live a) = (x, l) \<and> a' = a\<lparr>app_live := l\<rparr>)"
  by (auto simp: live_op_def split: prod.splits)

lemmas step_Ok = st_op_Ok st_read_Ok log_audit_Ok live_op_Ok

lemmas act_Ok = act_bind_Ok step_Ok

text \<open>What the steps of a handler keep.\<close>

lemma keeps_st_op:
  "(\<And>a x s. P a \<Longrightarrow> f (app_store a) = Ok (x, s) \<Longrightarrow> P (a\<lparr>app_store := s\<rparr>)) \<Longrightarrow> keeps P (st_op conv f)"
  by (auto simp: keeps_def st_op_def split: sum.splits)

lemma keeps_st_read [keeps_intros]: "keeps P (st_read conv f)"
  by (simp add: st_read_def keeps_pure)

lemma keeps_log_audit:
  "(\<And>a. P a \<Longrightarrow> P (a\<lparr>app_store := audit (app_store a) now w x y\<rparr>)) \<Longrightarrow> keeps P (log_audit now w x y)"
  by (simp add: log_audit_def keeps_mod)

lemma audit_meta [simp]: "meta (audit s now w x y) = meta s" "sql_fault (audit s now w x y) = sql_fault s"
  "users (audit s now w x y) = users s" "sessions (audit s now w x y) = sessions s" "servers (audit s now w x y) = servers s"
  "credentials (audit s now w x y) = credentials s" "assignments (audit s now w x y) = assignments s"
  "server_groups (audit s now w x y) = server_groups s" "session_log (audit s now w x y) = session_log s"
  by (simp_all add: audit_def split: option.split)

lemma flag_audit [simp]: "flag (audit s now w x y) k = flag s k"
  by (simp add: flag_def meta_get_def stmt_def)

lemma flag_set_flag: "set_flag s k b = Ok (u, s') \<Longrightarrow> flag s' k' = (if k' = k then (case sql_fault s ''meta_get'' of Some e \<Rightarrow> Err (Sql e) | None \<Rightarrow> Ok b) else flag s k')"
  by (auto simp: set_flag_def flag_def meta_get_def meta_set_def meta_delete_def stmt_def split: option.splits if_splits)

lemma meta_keys_distinct:
  "META_FROZEN \<noteq> META_FREEZE_PENDING" "META_FREEZE_PENDING \<noteq> META_FROZEN"
  by (simp_all add: META_FROZEN_def META_FREEZE_PENDING_def)

text \<open>
  A freeze whose export never finished does not outlive a restart: when the service starts and
  the store answers, the pending mark and the freeze it belongs to are gone; a freeze without the
  mark stays.
\<close>

theorem stranded_freeze_lifted:
  assumes "lift_stranded_freeze now a = (Ok lifted, a')"
  shows "(lifted \<longleftrightarrow> flag (app_store a) META_FREEZE_PENDING = Ok True) \<and>
     flag (app_store a') META_FREEZE_PENDING = Ok False \<and> (if lifted then \<not> frozen a' else a' = a)"
proof -
  have f: "is_ok (flag s k) \<Longrightarrow> sql_fault s ''meta_get'' = None" for s k
    by (auto simp: flag_def meta_get_def stmt_def split: option.splits)
  consider (no) "flag (app_store a) META_FREEZE_PENDING = Ok False" "a' = a" "\<not> lifted"
    | (yes) s1 s2 where "flag (app_store a) META_FREEZE_PENDING = Ok True" "lifted"
        "set_flag (app_store a) META_FROZEN False = Ok ((), s1)" "set_flag s1 META_FREEZE_PENDING False = Ok ((), s2)"
        "a' = a\<lparr>app_store := audit s2 now ''system'' ''unfreeze'' ''the export that froze this proxy did not finish''\<rparr>"
    using assms by (auto simp: lift_stranded_freeze_def act_Ok split: if_splits)
  then show ?thesis
  proof cases
    case yes
    have "sql_fault (app_store a) ''meta_get'' = None"
      by (rule f [of "app_store a" META_FREEZE_PENDING]) (simp add: yes(1))
    moreover have "sql_fault s1 = sql_fault (app_store a)"
      using yes(3) by (auto simp: set_flag_def meta_set_def meta_delete_def stmt_def split: option.splits if_splits)
    ultimately show ?thesis
      using yes flag_set_flag [OF yes(3)] flag_set_flag [OF yes(4)] by (simp add: frozen_def meta_keys_distinct)
  qed simp
qed

lemma well_formed_utf8: "utf8_ok (b # bs) \<Longrightarrow> well_formed_at b bs \<and> utf8_ok (drop (the (extra_bytes b)) bs)"
  by (auto simp: well_formed_at_def split: option.splits)

lemma lossy_utf8: "utf8_ok bs \<Longrightarrow> lossy bs = bs"
proof (induction bs rule: lossy.induct)
  case (2 b bs)
  then show ?case using well_formed_utf8 [of b bs] by simp
qed simp

lemma lossy_text: "utf8_ok (map of_char s) \<Longrightarrow> from_utf8_lossy (bytes_of s) = s"
proof -
  have u: "map unat (bytes_of s) = map of_char s"
    using unat_of_nat [where 'a = 8, of "of_char _"] by (simp add: bytes_of_def of_nat_of_char)
  show "utf8_ok (map of_char s) \<Longrightarrow> from_utf8_lossy (bytes_of s) = s"
    unfolding from_utf8_lossy_def u by (simp add: lossy_utf8 comp_def)
qed

end
