(* ===== verification/WA_Web.thy ===== *)
theory WA_Web
  imports WA_App
begin

text \<open>
  \<open>web.rs\<close>: what every request passes before its handler. Errors as the client sees them, who is
  asking, the origin check, the routes that take the gate themselves, the check that a page and the
  database belong together, and the static files. A request is a record of its method, path and the
  headers that are readable text.
\<close>

section \<open>Errors\<close>

record api_error =
  ae_status :: nat
  ae_message :: string

definition api_error_of :: "nat \<Rightarrow> string \<Rightarrow> api_error" where
  "api_error_of status m = \<lparr> ae_status = status, ae_message = m \<rparr>"

definition bad_request :: "string \<Rightarrow> api_error" where "bad_request m = api_error_of 400 m"
definition not_found :: api_error where "not_found = api_error_of 404 ''not found''"
definition conflict :: "string \<Rightarrow> api_error" where "conflict m = api_error_of 409 m"
definition internal :: api_error where "internal = api_error_of 500 ''the proxy could not complete that request''"

definition api_of_store :: "store_error \<Rightarrow> api_error" where
  "api_of_store e =
     (case e of
        NotFound \<Rightarrow> not_found
      | Conflict m \<Rightarrow> conflict m
      | Invalid m \<Rightarrow> bad_request m
      | _ \<Rightarrow> internal)"

definition api_of_vault :: "vault_error \<Rightarrow> api_error" where
  "api_of_vault e =
     (case e of
        Locked \<Rightarrow> conflict ''the credential store is locked; an administrator must unlock it with the recovery passphrase''
      | NoRecovery \<Rightarrow> conflict ''no recovery passphrase has been set''
      | WrongPassphrase \<Rightarrow> bad_request ''the passphrase is not correct''
      | Weak \<Rightarrow> bad_request (''the passphrase must be at least '' @ show_nat MIN_PASSPHRASE @ '' characters'')
      | VaultStore s \<Rightarrow> api_of_store s
      | _ \<Rightarrow> internal)"

definition api_of_dir :: "dir_error \<Rightarrow> api_error" where
  "api_of_dir e =
     (case e of
        InvalidCredentials \<Rightarrow> api_error_of 401 (dir_error_text e)
      | OtherDomain _ \<Rightarrow> api_error_of 401 (dir_error_text e)
      | DirRefused _ \<Rightarrow> api_error_of 401 (dir_error_text e)
      | Unreachable _ \<Rightarrow> api_error_of 503 ''the directory could not be reached; try again shortly''
      | _ \<Rightarrow> internal)"

definition api_of_policy :: "policy_error \<Rightarrow> api_error" where
  "api_of_policy e = (case e of Denied _ \<Rightarrow> not_found | PolicyStore s \<Rightarrow> api_of_store s)"

type_synonym 'a handler = "(app, api_error, 'a) act"

abbreviation store_do :: "(store \<Rightarrow> store_error + ('a \<times> store)) \<Rightarrow> 'a handler" where
  "store_do \<equiv> st_op api_of_store"

abbreviation store_ask :: "(store \<Rightarrow> store_error + 'a) \<Rightarrow> 'a handler" where
  "store_ask \<equiv> st_read api_of_store"

section \<open>Who is asking\<close>

record http_request =
  rq_method :: string
  rq_path :: string
  rq_host :: "string option"
  rq_origin :: "string option"
  rq_cookies :: "string list"
  rq_instance :: "string option"
  rq_upgrade :: "string option"
  rq_ws_key :: "string option"
  rq_accept_encoding :: "string list"
  rq_if_none_match :: "string list"
  rq_body_length :: nat

record current_user =
  cu_user :: user
  cu_token_hash :: bytes

definition session_of :: "app \<Rightarrow> unix_time \<Rightarrow> bytes \<Rightarrow> api_error + user" where
  "session_of a now th =
     and_then (map_err api_of_store (session_user (app_store a) th now)) (\<lambda>u. ok_or (api_error_of 401 ''sign in'') u)"

definition current_of :: "libs \<Rightarrow> unix_time \<Rightarrow> http_request \<Rightarrow> app \<Rightarrow> api_error + current_user" where
  "current_of lib now rq a =
     and_then (ok_or (api_error_of 401 ''sign in'') (find_map (\<lambda>h. cookie_value h COOKIE) (rq_cookies rq))) (\<lambda>token.
     (let th = token_hash (l_sha256 lib) token
      in and_then (session_of a now th) (\<lambda>u. Ok \<lparr> cu_user = u, cu_token_hash = th \<rparr>)))"

definition admin_only :: "libs \<Rightarrow> app \<Rightarrow> user \<Rightarrow> api_error + user" where
  "admin_only lib a u = (if is_admin lib a u then Ok u else Err (api_error_of 403 ''administrators only''))"

definition admin_of :: "libs \<Rightarrow> unix_time \<Rightarrow> http_request \<Rightarrow> app \<Rightarrow> api_error + user" where
  "admin_of lib now rq a = and_then (current_of lib now rq a) (\<lambda>c. admin_only lib a (cu_user c))"

definition admin_token_of :: "libs \<Rightarrow> unix_time \<Rightarrow> http_request \<Rightarrow> app \<Rightarrow> api_error + bytes" where
  "admin_token_of lib now rq a =
     and_then (current_of lib now rq a) (\<lambda>c. and_then (admin_only lib a (cu_user c)) (\<lambda>_. Ok (cu_token_hash c)))"

definition revalidate_admin :: "libs \<Rightarrow> unix_time \<Rightarrow> bytes \<Rightarrow> app \<Rightarrow> api_error + user" where
  "revalidate_admin lib now th a = and_then (session_of a now th) (admin_only lib a)"

section \<open>Where the request comes from\<close>

fun split_once_str :: "string \<Rightarrow> string \<Rightarrow> (string \<times> string) option" where
  "split_once_str p [] = (if p = [] then Some ([], []) else None)"
| "split_once_str p (c # cs) =
     (if starts_with (c # cs) p then Some ([], drop (length p) (c # cs))
      else map_option (\<lambda>(a, b). (c # a, b)) (split_once_str p cs))"

definition same_origin :: "http_request \<Rightarrow> bool" where
  "same_origin rq =
     (case (rq_host rq, rq_origin rq) of
        (Some host, Some origin) \<Rightarrow>
          (case split_once_str ''://'' origin of
             Some (_, rest) \<Rightarrow> eq_ignore_ascii_case (trim_end_slashes rest) host
           | None \<Rightarrow> False)
      | _ \<Rightarrow> False)"

definition SSO_POST :: string where "SSO_POST = ''/api/saml/acs''"

definition safe_method :: "string \<Rightarrow> bool" where
  "safe_method m \<longleftrightarrow> m \<in> set [''GET'', ''HEAD'', ''OPTIONS'']"

definition origin_guard :: "http_request \<Rightarrow> api_error + unit" where
  "origin_guard rq =
     guard (safe_method (rq_method rq) \<or> (rq_method rq = ''POST'' \<and> rq_path rq = SSO_POST) \<or> same_origin rq)
       (api_error_of 403 ''cross-origin request refused'')"

definition HSTS :: string where "HSTS = ''max-age=31536000''"

definition single_quoted :: "string \<Rightarrow> string" where
  "single_quoted s = CHR 0x27 # s @ [CHR 0x27]"

definition CSP :: string where
  "CSP = ''default-src '' @ single_quoted ''self'' @ ''; script-src '' @ single_quoted ''self'' @ '' '' @ single_quoted ''wasm-unsafe-eval'' @
     ''; connect-src '' @ single_quoted ''self'' @ ''; img-src '' @ single_quoted ''self'' @ '' data: blob:; frame-ancestors '' @
     single_quoted ''none'' @ ''; base-uri '' @ single_quoted ''none'' @ ''; form-action '' @ single_quoted ''self''"

definition set_header :: "string \<Rightarrow> string \<Rightarrow> (string \<times> string) list \<Rightarrow> (string \<times> string) list" where
  "set_header k v hs = filter (\<lambda>h. fst h \<noteq> k) hs @ [(k, v)]"

definition security_headers :: "app \<Rightarrow> (string \<times> string) list \<Rightarrow> (string \<times> string) list" where
  "security_headers a hs0 =
     (let hs1 = (if app_secure_cookies a then set_header ''strict-transport-security'' HSTS hs0 else hs0);
          hs2 = set_header ''x-content-type-options'' ''nosniff'' hs1;
          hs3 = set_header ''referrer-policy'' ''no-referrer'' hs2;
          hs4 = set_header ''x-frame-options'' ''DENY'' hs3;
          hs5 = set_header ''content-security-policy'' CSP hs4
      in if ''cache-control'' \<in> set (map fst hs5) then hs5 else hs5 @ [(''cache-control'', ''no-store'')])"

section \<open>The gate\<close>

definition SELF_GATED_ROUTES :: "(string \<times> string) list" where
  "SELF_GATED_ROUTES =
     [(''POST'', ''/api/login''), (''POST'', SSO_POST), (''POST'', ''/api/admin/users''),
      (''POST'', ''/api/admin/settings/directory-password''), (''POST'', ''/api/admin/migration/export''),
      (''POST'', ''/api/admin/migration/import''), (''POST'', ''/api/admin/migration/import/'')]"

definition MIGRATION_ROUTES :: "(string \<times> string) list" where
  "MIGRATION_ROUTES =
     [(''POST'', ''/api/admin/migration/export''), (''POST'', ''/api/admin/migration/import''),
      (''POST'', ''/api/admin/migration/import/'')]"

definition route_in :: "(string \<times> string) list \<Rightarrow> string \<Rightarrow> string \<Rightarrow> bool" where
  "route_in routes m path =
     list_ex (\<lambda>(rm, p). rm = m \<and> (if ends_with p ''/'' then starts_with path p else path = p)) routes"

definition GATED_BODY_LIMIT :: nat where "GATED_BODY_LIMIT = 2 * 1024 * 1024"

definition needs_instance :: "string \<Rightarrow> string \<Rightarrow> bool" where
  "needs_instance m path \<longleftrightarrow>
     \<not> safe_method m \<and> starts_with path ''/api/'' \<and> path \<noteq> ''/api/logout'' \<and>
     \<not> starts_with path ''/api/admin/migration/''"

text \<open>Whether a request reaches its handler, decided when the shared hold is taken.\<close>

definition gate_requests :: "http_request \<Rightarrow> app \<Rightarrow> api_error + unit" where
  "gate_requests rq a =
     (if route_in SELF_GATED_ROUTES (rq_method rq) (rq_path rq) then Ok ()
      else if rq_body_length rq > GATED_BODY_LIMIT then Err (api_error_of 413 ''the request body is too large'')
      else if needs_instance (rq_method rq) (rq_path rq) \<and>
              (instance_of a = [] \<or> rq_instance rq \<noteq> Some (instance_of a))
      then Err (conflict ''this proxy's data changed after the page was loaded; reload the page'')
      else Ok ())"

definition header_text :: "string \<Rightarrow> bool" where
  "header_text = list_all (\<lambda>c. (32 \<le> (of_char c :: nat) \<and> of_char c \<noteq> (127 :: nat)) \<or> of_char c = (9 :: nat))"

definition stamp_instance :: "app \<Rightarrow> (string \<times> string) list \<Rightarrow> (string \<times> string) list" where
  "stamp_instance a hs = (if header_text (instance_of a) then set_header ''x-data-instance'' (instance_of a) hs else hs)"

definition REQUEST_DEADLINE :: nat where "REQUEST_DEADLINE = secs 120"
definition MIGRATION_DEADLINE :: nat where "MIGRATION_DEADLINE = secs (30 * 60)"

definition deadline_of :: "http_request \<Rightarrow> nat" where
  "deadline_of rq = (if route_in MIGRATION_ROUTES (rq_method rq) (rq_path rq) then MIGRATION_DEADLINE else REQUEST_DEADLINE)"

text \<open>The two guards in the order the layers run them, then the handler.\<close>

definition serve_request :: "http_request \<Rightarrow> 'a handler \<Rightarrow> 'a handler" where
  "serve_request rq h =
     act_bind (act_res (origin_guard rq)) (\<lambda>_. act_bind (act_read (gate_requests rq)) (\<lambda>_. h))"

section \<open>Static files\<close>

text \<open>\<open>q_zero\<close> says of the text after \<open>q=\<close> that it reads as the number zero.\<close>

definition takes_gzip :: "(string \<Rightarrow> bool) \<Rightarrow> http_request \<Rightarrow> bool" where
  "takes_gzip q_zero rq =
     list_ex (\<lambda>coding.
       (case map str_trim (split_on CHR '';'' coding) of
          [] \<Rightarrow> False
        | name # params \<Rightarrow>
            eq_ignore_ascii_case name ''gzip'' \<and>
            \<not> list_ex (\<lambda>p. case strip_prefix ''q='' p of Some q \<Rightarrow> q_zero q | None \<Rightarrow> False) params))
       (concat (map (split_on CHR '','') (rq_accept_encoding rq)))"

record asset =
  as_path :: string
  as_type :: string
  as_body :: bytes

record packed_file =
  pk_file :: string
  pk_gz :: bytes
  pk_etag :: string
  pk_gz_etag :: string

definition packed_name :: "string \<Rightarrow> string option" where
  "packed_name path =
     (if path = ''/'' then Some ''index.html'' else if path = ''/admin'' then Some ''admin.html''
      else if path = ''/notices'' then Some ''notices.html''
      else if path = ''/notices-client'' then Some ''notices-client.html'' else strip_prefix ''/'' path)"

definition packed :: "packed_file list \<Rightarrow> string \<Rightarrow> packed_file option" where
  "packed table path = Option.bind (packed_name path) (\<lambda>f. List.find (\<lambda>k. pk_file k = f) table)"

datatype static_answer =
    MethodNotAllowed
  | NoSuchFile
  | NotModified string
  | Content string "string option" bytes bool

fun trim_start_weak :: "string \<Rightarrow> string" where
  "trim_start_weak (a # b # cs) = (if a = CHR ''W'' \<and> b = CHR ''/'' then trim_start_weak cs else a # b # cs)"
| "trim_start_weak s = s"

text \<open>\<open>Content type etag body gzipped\<close>; the files and their packed forms are made by the build.\<close>

definition static_asset :: "(string \<Rightarrow> bool) \<Rightarrow> asset list \<Rightarrow> packed_file list \<Rightarrow> http_request \<Rightarrow> static_answer" where
  "static_asset q_zero assets table rq =
     (if rq_method rq \<noteq> ''GET'' \<and> rq_method rq \<noteq> ''HEAD'' then MethodNotAllowed
      else (case List.find (\<lambda>f. as_path f = rq_path rq) assets of
              None \<Rightarrow> NoSuchFile
            | Some f \<Rightarrow>
                (case packed table (as_path f) of
                   None \<Rightarrow> Content (as_type f) None (as_body f) False
                 | Some k \<Rightarrow>
                     (let gzip = takes_gzip q_zero rq;
                          tag = (if gzip then pk_gz_etag k else pk_etag k);
                          current = list_ex (\<lambda>t. trim_start_weak (str_trim t) = tag)
                                      (concat (map (split_on CHR '','') (rq_if_none_match rq)))
                      in if current then NotModified tag
                         else if gzip then Content (as_type f) (Some (pk_gz_etag k)) (pk_gz k) True
                         else Content (as_type f) (Some (pk_etag k)) (as_body f) False))))"

end
