(* ===== verification/WA_Signin.thy ===== *)
theory WA_Signin
  imports WA_Web
begin

text \<open>
  Signing in and out, \<open>web.rs\<close>. A password is checked without holding the gate, so a sign-in is
  three steps: what to check against is read, the check runs, the result is recorded. Between the
  steps the rest of the proxy may do anything, an import included; \<open>login\<close> takes what happens there
  as two arbitrary functions on the state. The directory answers through the \<open>ldap\<close> record of
  \<open>WA_Directory\<close>.
\<close>

section \<open>What the page is told\<close>

record me_info =
  me_username :: string
  me_display_name :: "string option"
  me_is_admin :: bool
  me_remaining_secs :: "int option"
  me_renew_below_secs :: int
  me_max_file_bytes :: "64 word option"
  me_scanning :: bool

definition me_of :: "libs \<Rightarrow> unix_time \<Rightarrow> app \<Rightarrow> user \<Rightarrow> unix_time option \<Rightarrow> api_error + me_info" where
  "me_of lib now a u expires =
     and_then (map_err api_of_store (settings_read (l_from_json lib) (app_store a))) (\<lambda>st.
     Ok \<lparr> me_username = u_username u, me_display_name = u_display_name u, me_is_admin = is_admin lib a u,
          me_remaining_secs = map_option (\<lambda>e. max (e - now) 0) expires,
          me_renew_below_secs = renew_below_secs st, me_max_file_bytes = max_file_bytes st,
          me_scanning = (app_scan a \<noteq> None) \<rparr>)"

definition REFUSED :: string where
  "REFUSED = ''the username or password is not correct, or the account cannot sign in''"

definition CHANGED :: string where "CHANGED = ''the account changed during sign-in''"
definition THROTTLED :: string where
  "THROTTLED = ''too many failed sign-ins; refused without checking the password''"
definition THROTTLED_ADDRESS :: string where
  "THROTTLED_ADDRESS = ''too many failed sign-ins from this address; refused without asking the directory''"

definition refused :: "unix_time \<Rightarrow> string \<Rightarrow> string \<Rightarrow> 'a handler" where
  "refused now username why =
     act_bind (log_audit now username ''signin.refused'' why) (\<lambda>_. act_fail (api_error_of 401 REFUSED))"

definition told :: "refusal \<Rightarrow> string" where
  "told r = (if proves_password r then refusal_text r else REFUSED)"

datatype checked =
    CheckedLocal int int string
  | CheckedDirectory account
  | CheckedRefused string
  | CheckedTold refusal

text \<open>What a sign-in reads from outside: the clocks and the random values.\<close>

record signin_inputs =
  si_now :: unix_time
  si_blocked_first :: instant
  si_blocked_again :: instant
  si_counted :: instant
  si_token :: string
  si_sid_token :: string
  si_incarnation :: int

section \<open>Reading what to check against\<close>

definition login_lookup :: "string \<Rightarrow> (64 word \<times> (int \<times> int \<times> string) option) handler" where
  "login_lookup username =
     act_bind (store_ask (\<lambda>s. user_by_name s username)) (\<lambda>u.
     act_bind
       (case u of
          Some u \<Rightarrow>
            if u_local u
            then act_bind (store_ask (\<lambda>s. local_hash s (u_id u))) (\<lambda>h.
                 act_ret (Some (u_id u, u_incarnation u, case h of Some x \<Rightarrow> x | None \<Rightarrow> [])))
            else act_ret None
        | None \<Rightarrow> act_ret None) (\<lambda>local.
     act_bind (act_get app_generation) (\<lambda>g. act_ret (g, local))))"

section \<open>The check\<close>

definition throttle_blocked :: "string \<Rightarrow> instant \<Rightarrow> bool handler" where
  "throttle_blocked name t = (\<lambda>a. let (b, th) = blocked_at (app_throttle a) name t in (Ok b, a\<lparr>app_throttle := th\<rparr>))"

definition check_local :: "libs \<Rightarrow> signin_inputs \<Rightarrow> string \<Rightarrow> int \<Rightarrow> int \<Rightarrow> string \<Rightarrow> string \<Rightarrow> checked handler" where
  "check_local lib si username user_id inc hsh pw =
     act_bind (act_get (\<lambda>a. cf_allow_local_accounts (app_cfg a))) (\<lambda>allowed.
     if \<not> allowed then act_ret (CheckedRefused ''local accounts are not allowed by config.toml'')
     else act_bind (throttle_blocked username (si_blocked_first si)) (\<lambda>b.
     if b then act_ret (CheckedRefused THROTTLED)
     else act_bind (throttle_blocked username (si_blocked_again si)) (\<lambda>b.
     if b then act_ret (CheckedRefused THROTTLED)
     else
       (let ok = verify_password (l_crypto lib) pw hsh
        in act_bind (act_mod (\<lambda>a. a\<lparr>app_throttle :=
               (if ok then throttle_clear (app_throttle a) username
                else fail_at (app_throttle a) username (si_counted si))\<rparr>)) (\<lambda>_.
           act_ret (if ok then CheckedLocal user_id inc hsh
                    else CheckedRefused ''local password did not match''))))))"

datatype ip_addr = IPv4 byte byte byte byte | IPv6 "16 word list"

text \<open>An IPv4 address written inside IPv6 counts as the IPv4 address.\<close>

definition to_canonical :: "ip_addr \<Rightarrow> ip_addr" where
  "to_canonical ip =
     (case ip of
        IPv4 a b c d \<Rightarrow> IPv4 a b c d
      | IPv6 s \<Rightarrow>
          (if length s = 8 \<and> take 6 s = [0, 0, 0, 0, 0, 0xFFFF]
           then IPv4 (ucast (drop_bit 8 (s ! 6))) (ucast (s ! 6)) (ucast (drop_bit 8 (s ! 7))) (ucast (s ! 7))
           else IPv6 s))"

fun show_hex :: "nat \<Rightarrow> string" where
  "show_hex n = (if n < 16 then [hex_char n] else show_hex (n div 16) @ [hex_char (n mod 16)])"

definition client_key :: "ip_addr option \<Rightarrow> string" where
  "client_key peer =
     (case map_option to_canonical peer of
        Some (IPv4 a b c d) \<Rightarrow>
          show_nat (unat a) @ ''.'' @ show_nat (unat b) @ ''.'' @ show_nat (unat c) @ ''.'' @ show_nat (unat d)
      | Some (IPv6 s) \<Rightarrow>
          show_hex (unat (s ! 0)) @ '':'' @ show_hex (unat (s ! 1)) @ '':'' @ show_hex (unat (s ! 2)) @ '':'' @
          show_hex (unat (s ! 3)) @ ''::/64''
      | None \<Rightarrow> ''unknown'')"

definition guessed_wrong :: "dir_error + account \<Rightarrow> bool" where
  "guessed_wrong r =
     (case r of
        Err InvalidCredentials \<Rightarrow> True
      | Err (DirRefused e) \<Rightarrow> \<not> proves_password e
      | _ \<Rightarrow> False)"

definition address_take :: "string \<Rightarrow> instant \<Rightarrow> bool handler" where
  "address_take client t = (\<lambda>a.
     let (b, th) = take_at (app_address_throttle a) client t in (Ok b, a\<lparr>app_address_throttle := th\<rparr>))"

definition ask_directory :: "libs \<Rightarrow> ldap \<Rightarrow> unix_time \<Rightarrow> directory \<Rightarrow> string \<Rightarrow> string \<Rightarrow> (dir_error + account) handler" where
  "ask_directory lib ld now d typed pw = (\<lambda>a.
     let (r, d') = authenticate (l_lower lib) ld now d typed pw in (Ok r, a\<lparr>app_directory := Some d'\<rparr>))"

definition check_directory :: "libs \<Rightarrow> ldap \<Rightarrow> signin_inputs \<Rightarrow> string \<Rightarrow> string \<Rightarrow> string \<Rightarrow> checked handler" where
  "check_directory lib ld si client typed pw =
     act_bind (act_get app_directory) (\<lambda>dir.
     (case dir of
        None \<Rightarrow> act_ret (CheckedRefused ''no directory is configured'')
      | Some d \<Rightarrow>
          act_bind (address_take client (si_counted si)) (\<lambda>free.
          if \<not> free then act_ret (CheckedRefused THROTTLED_ADDRESS)
          else
            act_bind (ask_directory lib ld (si_now si) d typed pw) (\<lambda>r.
            act_bind (act_mod (\<lambda>a. if guessed_wrong r then a
                                   else a\<lparr>app_address_throttle := refund (app_address_throttle a) client\<rparr>)) (\<lambda>_.
            (case r of
               Ok acc \<Rightarrow> act_ret (CheckedDirectory acc)
             | Err InvalidCredentials \<Rightarrow> act_ret (CheckedRefused ''directory refused the credentials'')
             | Err (DirRefused e) \<Rightarrow> act_ret (CheckedTold e)
             | Err (OtherDomain _) \<Rightarrow> act_ret (CheckedRefused ''the account is not in the configured domain'')
             | Err e \<Rightarrow> act_fail (api_of_dir e)))))))"

section \<open>Recording the result\<close>

definition finish_local :: "signin_inputs \<Rightarrow> string \<Rightarrow> int \<Rightarrow> int \<Rightarrow> string \<Rightarrow> user handler" where
  "finish_local si username user_id inc hsh =
     act_bind (store_ask (\<lambda>s. user_by_id s user_id)) (\<lambda>found.
     act_bind (store_ask (\<lambda>s. local_hash s user_id)) (\<lambda>current.
     (case found of
        Some u \<Rightarrow>
          if u_local u \<and> u_incarnation u = inc \<and> current = Some hsh
          then
            (let sid = (case u_sid u of Some s \<Rightarrow> s | None \<Rightarrow> ''local:'' @ take 32 (si_sid_token si))
             in act_bind (store_do (\<lambda>s. user_record_login s (si_now si) (u_id u) (u_incarnation u) sid None)) (\<lambda>ok.
                if ok then act_ret u else refused (si_now si) username CHANGED))
          else refused (si_now si) username CHANGED
      | None \<Rightarrow> refused (si_now si) username CHANGED)))"

definition sid_mismatch :: "unix_time \<Rightarrow> user \<Rightarrow> account \<Rightarrow> string \<Rightarrow> 'a handler" where
  "sid_mismatch now u acc bound =
     act_bind (store_do (\<lambda>s. user_flag_mismatch s (u_id u))) (\<lambda>_.
     act_bind (log_audit now (a_username acc) ''signin.refused''
       (''account SID '' @ a_sid acc @ '' does not match the registered '' @ bound)) (\<lambda>_.
     act_fail (api_error_of 403
       ''this account does not match the one registered here; an administrator must confirm it'')))"

definition directory_row :: "signin_inputs \<Rightarrow> account \<Rightarrow> user handler" where
  "directory_row si acc =
     act_bind (store_ask (\<lambda>s. user_by_name s (a_username acc))) (\<lambda>named.
     (case named of
        Some u \<Rightarrow> act_ret u
      | None \<Rightarrow>
          act_bind (store_ask (\<lambda>s. directory_user_by_sid s (a_sid acc))) (\<lambda>old.
          (case old of
             Some o' \<Rightarrow>
               act_bind (store_do (\<lambda>s. user_rename s (u_id o') (u_incarnation o') (a_sid acc) (a_username acc))) (\<lambda>ok.
               if \<not> ok then refused (si_now si) (a_username acc) CHANGED
               else
                 act_bind (log_audit (si_now si) (a_username acc) ''user.renamed''
                   (''renamed in the directory from '' @ u_username o')) (\<lambda>_.
                 act_bind (store_ask (\<lambda>s. user_by_id s (u_id o'))) (\<lambda>again.
                 (case again of
                    Some u \<Rightarrow>
                      if u_incarnation u = u_incarnation o' then act_ret u
                      else refused (si_now si) (a_username acc) CHANGED
                  | None \<Rightarrow> refused (si_now si) (a_username acc) CHANGED))))
           | None \<Rightarrow>
               store_do (\<lambda>s. user_create_returning s (si_now si) (si_incarnation si) (a_username acc) (a_display_name acc))))))"

definition finish_directory :: "signin_inputs \<Rightarrow> account \<Rightarrow> user handler" where
  "finish_directory si acc =
     act_bind (directory_row si acc) (\<lambda>u.
     if u_local u then refused (si_now si) (a_username acc) ''a local account holds this name''
     else
       act_bind (case u_sid u of
                   Some bound \<Rightarrow> if bound \<noteq> a_sid acc then sid_mismatch (si_now si) u acc bound else act_ret ()
                 | None \<Rightarrow> act_ret ()) (\<lambda>_.
       act_bind (store_do (\<lambda>s. user_record_login s (si_now si) (u_id u) (u_incarnation u) (a_sid acc) (a_display_name acc))) (\<lambda>ok.
       if ok then act_ret u
       else
         act_bind (store_ask (\<lambda>s. user_by_id s (u_id u))) (\<lambda>again.
         (case Option.bind again (\<lambda>v. if u_incarnation v = u_incarnation u then u_sid v else None) of
            Some bound \<Rightarrow>
              if bound \<noteq> a_sid acc then sid_mismatch (si_now si) u acc bound
              else refused (si_now si) (a_username acc) CHANGED
          | None \<Rightarrow> refused (si_now si) (a_username acc) CHANGED)))))"

definition start_session :: "libs \<Rightarrow> signin_inputs \<Rightarrow> user \<Rightarrow> (string \<times> unix_time \<times> int) handler" where
  "start_session lib si u =
     act_bind (store_ask (settings_read (l_from_json lib))) (\<lambda>st.
     (let lasts = signin_secs st; expires = si_now si + lasts
      in act_bind (store_do (\<lambda>s. session_create s (si_now si) (token_hash (l_sha256 lib) (si_token si))
                                   (u_id u) (u_incarnation u) expires)) (\<lambda>ok.
         if ok then act_ret (si_token si, expires, lasts)
         else refused (si_now si) (u_username u) CHANGED)))"

text \<open>The purge's own failure is ignored.\<close>

definition purge_sessions :: "unix_time \<Rightarrow> unit handler" where
  "purge_sessions now = act_mod (\<lambda>a.
     case sessions_purge (app_store a) now of Ok (_, s) \<Rightarrow> a\<lparr>app_store := s\<rparr> | Err _ \<Rightarrow> a)"

definition signed_in :: "libs \<Rightarrow> signin_inputs \<Rightarrow> user \<Rightarrow> (string \<times> me_info) handler" where
  "signed_in lib si u =
     act_bind (start_session lib si u) (\<lambda>(token, expires, lasts).
     act_bind (purge_sessions (si_now si)) (\<lambda>_.
     act_bind (log_audit (si_now si) (u_username u) ''signin'' (if u_local u then ''local account'' else [])) (\<lambda>_.
     act_bind (store_ask (\<lambda>s. user_by_id s (u_id u))) (\<lambda>again.
     act_bind (act_res (ok_or not_found again)) (\<lambda>v.
     act_bind (act_read (\<lambda>a. me_of lib (si_now si) a v (Some expires))) (\<lambda>m.
     act_bind (act_get app_secure_cookies) (\<lambda>secure.
     act_ret (session_cookie token lasts secure, m))))))))"

definition finish_check :: "signin_inputs \<Rightarrow> string \<Rightarrow> checked \<Rightarrow> user handler" where
  "finish_check si username c =
     (case c of
        CheckedRefused why \<Rightarrow> refused (si_now si) username why
      | CheckedTold r \<Rightarrow>
          act_bind (log_audit (si_now si) username ''signin.refused''
            (''directory: '' @ refusal_text r @ '' (data '' @ refusal_code r @ '')'')) (\<lambda>_.
          act_fail (api_error_of 401 (told r)))
      | CheckedLocal i inc hsh \<Rightarrow> finish_local si username i inc hsh
      | CheckedDirectory acc \<Rightarrow> finish_directory si acc)"

definition REPLACED :: api_error where
  "REPLACED = api_error_of 503 ''the proxy's data was replaced while you signed in; sign in again''"

definition login_finish :: "libs \<Rightarrow> signin_inputs \<Rightarrow> string \<Rightarrow> 64 word \<Rightarrow> checked \<Rightarrow> (string \<times> me_info) handler" where
  "login_finish lib si username generation c =
     act_bind (act_get app_generation) (\<lambda>g.
     act_bind (act_guard (g = generation) REPLACED) (\<lambda>_.
     act_bind (finish_check si username c) (\<lambda>u.
     signed_in lib si u)))"

definition login_check ::
  "libs \<Rightarrow> ldap \<Rightarrow> signin_inputs \<Rightarrow> ip_addr option \<Rightarrow> string \<Rightarrow> string \<Rightarrow> string \<Rightarrow>
   (int \<times> int \<times> string) option \<Rightarrow> checked handler" where
  "login_check lib ld si peer typed username pw local =
     (case local of
        Some (i, inc, hsh) \<Rightarrow> check_local lib si username i inc hsh pw
      | None \<Rightarrow> check_directory lib ld si (client_key peer) typed pw)"

definition login ::
  "libs \<Rightarrow> ldap \<Rightarrow> signin_inputs \<Rightarrow> (app \<Rightarrow> app) \<Rightarrow> (app \<Rightarrow> app) \<Rightarrow> ip_addr option \<Rightarrow> string \<Rightarrow> string \<Rightarrow>
   (string \<times> me_info) handler" where
  "login lib ld si mid1 mid2 peer typed pw =
     act_bind (act_res (ok_or (bad_request ''enter your username'') (normalize_username (l_lower lib) typed))) (\<lambda>username.
     act_bind (act_guard (length pw \<le> 1024) (bad_request ''that password is too long'')) (\<lambda>_.
     act_bind (login_lookup username) (\<lambda>(generation, local).
     act_bind (act_mod mid1) (\<lambda>_.
     act_bind (login_check lib ld si peer typed username pw local) (\<lambda>c.
     act_bind (act_mod mid2) (\<lambda>_.
     login_finish lib si username generation c))))))"

section \<open>Signing out\<close>

definition logout :: "unix_time \<Rightarrow> current_user \<Rightarrow> string handler" where
  "logout now c =
     act_bind (store_do (\<lambda>s. session_delete s (cu_token_hash c))) (\<lambda>_.
     act_bind (live_op (\<lambda>l. end_session l (cu_token_hash c))) (\<lambda>_.
     act_bind (log_audit now (u_username (cu_user c)) ''signout'' []) (\<lambda>_.
     act_bind (act_get app_secure_cookies) (\<lambda>secure. act_ret (clear_cookie secure)))))"

definition me_page :: "libs \<Rightarrow> unix_time \<Rightarrow> current_user \<Rightarrow> me_info handler" where
  "me_page lib now c =
     act_bind (store_ask (\<lambda>s. session_expires s (cu_token_hash c))) (\<lambda>expires.
     act_read (\<lambda>a. me_of lib now a (cu_user c) expires))"

definition my_notices :: "current_user \<Rightarrow> nat \<Rightarrow> (notice list \<times> nat) handler" where
  "my_notices c seen = act_get (\<lambda>a. notices_since (u_id (cu_user c)) seen (app_notices a))"

end
