(* ===== verification/WA_Connect.thy ===== *)
theory WA_Connect
  imports WA_Signin
begin

text \<open>
  What a signed-in user does, \<open>web.rs\<close>: the list of their servers, opening one, the saved
  credentials, and the WebSocket that will carry the connection. \<open>conn_inputs\<close> holds what a request
  reads from outside.
\<close>

record conn_inputs =
  ci_now :: unix_time
  ci_instant :: instant
  ci_token :: string
  ci_nonce :: "bytes option"

section \<open>The user's servers\<close>

record listed_item =
  li_id :: int
  li_name :: string
  li_host :: string
  li_domain :: "string option"
  li_saved :: bool
  li_connected :: bool
  li_reconnect :: bool

record listed_group =
  lg_name :: "string option"
  lg_servers :: "listed_item list"

definition item_of :: "int set \<Rightarrow> int set \<Rightarrow> int set \<Rightarrow> server \<Rightarrow> listed_item" where
  "item_of saved connected recent s =
     \<lparr> li_id = s_id s, li_name = s_name s, li_host = s_host s, li_domain = s_domain s,
       li_saved = (s_id s \<in> saved), li_connected = (s_id s \<in> connected),
       li_reconnect = (s_id s \<in> recent \<and> s_id s \<notin> connected) \<rparr>"

definition group_push :: "string option \<Rightarrow> listed_item \<Rightarrow> listed_group list \<Rightarrow> listed_group list" where
  "group_push gname item gs =
     (if gs \<noteq> [] \<and> lg_name (last gs) = gname
      then butlast gs @ [(last gs)\<lparr>lg_servers := lg_servers (last gs) @ [item]\<rparr>]
      else gs @ [\<lparr> lg_name = gname, lg_servers = [item] \<rparr>])"

definition groups_of :: "(server \<Rightarrow> listed_item) \<Rightarrow> listed_server list \<Rightarrow> listed_group list" where
  "groups_of mk listed = foldl (\<lambda>gs l. group_push (ls_group_name l) (mk (ls_server l)) gs) [] listed"

definition my_servers :: "libs \<Rightarrow> unix_time \<Rightarrow> current_user \<Rightarrow> listed_group list handler" where
  "my_servers lib now c =
     (let i = u_id (cu_user c)
      in act_bind (act_read (\<lambda>a. map_err api_of_policy (permitted (app_store a) i))) (\<lambda>listed.
         act_bind (store_ask (\<lambda>s. saved_server_ids s i)) (\<lambda>saved.
         act_bind (act_get (\<lambda>a. servers_for (app_live a) i)) (\<lambda>connected.
         act_bind (store_ask (settings_read (l_from_json lib))) (\<lambda>st.
         act_bind (store_ask (\<lambda>s. recent_ends s i (now - signin_secs st))) (\<lambda>recent.
         act_ret (groups_of (item_of saved connected (set (map fst recent))) listed)))))))"

section \<open>Opening a server\<close>

record opened_credential =
  oc_username :: string
  oc_domain :: "string option"
  oc_password :: string

record connect_reply =
  cn_ticket :: string
  cn_server_id :: int
  cn_server_name :: string
  cn_credential :: "opened_credential option"

definition open_saved :: "libs \<Rightarrow> app \<Rightarrow> user \<Rightarrow> int \<Rightarrow> stored_credential option \<Rightarrow> opened_credential option" where
  "open_saved lib a u server_id stored =
     (case (stored, u_sid u) of
        (Some k, Some sid) \<Rightarrow>
          if is_unlocked (app_vault a)
          then (case vault_open (l_crypto lib) (app_vault a) (credential_aad sid server_id) (sc_nonce k) (sc_secret k) of
                  Ok pw \<Rightarrow> Some \<lparr> oc_username = sc_username k, oc_domain = sc_domain k, oc_password = from_utf8_lossy pw \<rparr>
                | Err _ \<Rightarrow> None)
          else None
      | _ \<Rightarrow> None)"

definition issue_ticket :: "conn_inputs \<Rightarrow> int \<Rightarrow> int \<Rightarrow> string handler" where
  "issue_ticket ci i j = (\<lambda>a.
     let (t, ts) = issue (app_tickets a) (ci_instant ci) (ci_token ci) i j in (Ok t, a\<lparr>app_tickets := ts\<rparr>))"

definition connect :: "libs \<Rightarrow> conn_inputs \<Rightarrow> current_user \<Rightarrow> int \<Rightarrow> connect_reply handler" where
  "connect lib ci c server_id =
     (let u = cu_user c
      in act_bind (act_read (\<lambda>a. map_err api_of_policy (resolve (app_store a) (u_id u) (show_int server_id)))) (\<lambda>sv.
         act_bind (issue_ticket ci (u_id u) (s_id sv)) (\<lambda>t.
         act_bind (store_ask (\<lambda>s. credential_get s (u_id u) (s_id sv))) (\<lambda>stored.
         act_bind (act_get (\<lambda>a. open_saved lib a u (s_id sv) stored)) (\<lambda>cred.
         act_ret \<lparr> cn_ticket = t, cn_server_id = s_id sv, cn_server_name = s_name sv, cn_credential = cred \<rparr>)))))"

section \<open>Saved credentials\<close>

definition saving_blocked :: "app \<Rightarrow> string option" where
  "saving_blocked a =
     (if frozen a then Some ''saving is paused while this proxy is being migrated''
      else if recovery_set (app_store a) \<noteq> Ok True
      then Some ''saving credentials is not yet enabled on this proxy; an administrator must set the recovery passphrase''
      else if \<not> is_unlocked (app_vault a)
      then Some ''the credential store is locked; an administrator must unlock it''
      else None)"

record save_request =
  sv_username :: string
  sv_domain :: "string option"
  sv_password :: string

definition save_fields :: "save_request \<Rightarrow> api_error + (string \<times> string option)" where
  "save_fields req =
     (let name = str_trim (sv_username req);
          domain = Option.bind (map_option str_trim (sv_domain req)) (\<lambda>d. if d = [] then None else Some d)
      in if name = [] \<or> length name > 256 \<or> sv_password req = [] \<or> length (sv_password req) > 1024 \<or>
            (case domain of Some d \<Rightarrow> length d > 256 | None \<Rightarrow> False)
         then Err (bad_request ''a username and password are required'')
         else Ok (name, domain))"

definition save_credential :: "libs \<Rightarrow> conn_inputs \<Rightarrow> current_user \<Rightarrow> int \<Rightarrow> save_request \<Rightarrow> unit handler" where
  "save_credential lib ci c server_id req =
     (let u = cu_user c
      in act_bind (act_read (\<lambda>a. case saving_blocked a of Some why \<Rightarrow> Err (conflict why) | None \<Rightarrow> Ok ())) (\<lambda>_.
         act_bind (act_read (\<lambda>a. map_err api_of_policy (resolve (app_store a) (u_id u) (show_int server_id)))) (\<lambda>sv.
         act_bind (act_res (save_fields req)) (\<lambda>(name, domain).
         act_bind (act_res (ok_or (conflict ''sign in again before saving'') (u_sid u))) (\<lambda>sid.
         act_bind (act_read (\<lambda>a. map_err api_of_vault (vault_seal (l_crypto lib) (ci_nonce ci) (app_vault a)
                     (credential_aad sid (s_id sv)) (bytes_of (sv_password req))))) (\<lambda>(nonce, secret).
         act_bind (store_do (\<lambda>s. credential_put s (ci_now ci) (u_id u) (s_id sv)
                     \<lparr> sc_username = name, sc_domain = domain, sc_nonce = nonce, sc_secret = secret \<rparr>)) (\<lambda>_.
         log_audit (ci_now ci) (u_username u) ''credential.save'' (s_name sv))))))))"

definition forget_credential :: "conn_inputs \<Rightarrow> current_user \<Rightarrow> int \<Rightarrow> unit handler" where
  "forget_credential ci c server_id =
     (let u = cu_user c
      in act_bind (act_read (\<lambda>a. guard (\<not> frozen a) (conflict ''changes are paused while this proxy is being migrated''))) (\<lambda>_.
         act_bind (act_read (\<lambda>a. map_err api_of_policy (resolve (app_store a) (u_id u) (show_int server_id)))) (\<lambda>sv.
         act_bind (store_do (\<lambda>s. credential_delete s (u_id u) (s_id sv))) (\<lambda>gone.
         if gone then log_audit (ci_now ci) (u_username u) ''credential.forget'' (s_name sv) else act_ret ()))))"

section \<open>The WebSocket\<close>

text \<open>\<open>accept_key\<close> is the WebSocket library's \<open>derive_accept_key\<close>.\<close>

definition ws_upgrade :: "(string \<Rightarrow> string) \<Rightarrow> http_request \<Rightarrow> current_user \<Rightarrow> (string \<times> 64 word) handler" where
  "ws_upgrade accept_key rq c =
     act_bind (act_guard (same_origin rq) (api_error_of 403 ''cross-origin request refused'')) (\<lambda>_.
     act_bind
       (act_res (case (rq_upgrade rq, rq_ws_key rq) of
                   (Some v, Some k) \<Rightarrow>
                     if eq_ignore_ascii_case v ''websocket'' then Ok (accept_key k)
                     else Err (bad_request ''expected a WebSocket upgrade'')
                 | _ \<Rightarrow> Err (bad_request ''expected a WebSocket upgrade''))) (\<lambda>accept.
     act_bind (act_get app_generation) (\<lambda>g.
     act_bind (live_op (\<lambda>l. register l (u_id (cu_user c)) (cu_token_hash c) g)) (\<lambda>live_id.
     act_ret (accept, live_id)))))"

end
