(* ===== verification/WA_Sso.thy ===== *)
theory WA_Sso
  imports WA_Signin
begin

text \<open>
  The single sign-on routes, \<open>sso.rs\<close>. \<open>WA_Saml\<close> checks the protocol; here the account it vouches
  for is read from the directory and signed in the way a password sign-in is. As there, the slow
  part runs without the gate, and what the rest of the proxy does meanwhile is two arbitrary
  functions on the state.
\<close>

definition FLOW_COOKIE :: string where "FLOW_COOKIE = ''wa_saml''"

definition WHO :: string where "WHO = ''(single sign-on)''"

definition methods :: "app \<Rightarrow> bool" where "methods a \<longleftrightarrow> app_saml a \<noteq> None"

definition flow_cookie :: "string \<Rightarrow> int \<Rightarrow> string" where
  "flow_cookie value_s max_age =
     FLOW_COOKIE @ ''='' @ value_s @ ''; Path=/api/saml; Max-Age='' @ show_int max_age @
     ''; HttpOnly; Secure; SameSite=None''"

text \<open>The redirect's address and the cookie set with it.\<close>

definition sso_start :: "libs \<Rightarrow> string \<Rightarrow> unix_time \<Rightarrow> (string \<times> string) handler" where
  "sso_start lib token now =
     act_bind (act_read (\<lambda>a. ok_or not_found (app_saml a))) (\<lambda>sp.
     (let (url, flow) = saml_start (l_saml lib) sp token now in act_ret (url, flow_cookie flow FLOW_SECS)))"

definition sso_metadata :: "string handler" where
  "sso_metadata = act_bind (act_read (\<lambda>a. ok_or not_found (app_saml a))) (\<lambda>sp. act_ret (sp_metadata sp))"

definition html_escape :: "string \<Rightarrow> string" where
  "html_escape s =
     replace_char CHR 0x22 ''&quot;'' (replace_char CHR ''>'' ''&gt;''
       (replace_char CHR ''<'' ''&lt;'' (replace_char CHR ''&'' ''&amp;'' s)))"

definition nl :: string where "nl = [CHR 0x0A]"

definition page :: "string \<Rightarrow> string" where
  "page body =
     ''<!DOCTYPE html>'' @ nl @ ''<html lang='' @ quoted ''en'' @ ''>'' @ nl @ ''<head>'' @ nl @
     ''<meta charset='' @ quoted ''utf-8'' @ ''>'' @ nl @
     ''<meta name='' @ quoted ''viewport'' @ '' content='' @ quoted ''width=device-width, initial-scale=1'' @ ''>'' @ nl @
     ''<title>web-access</title>'' @ nl @ ''<link rel='' @ quoted ''stylesheet'' @ '' href='' @ quoted ''/app.css'' @ ''>'' @ nl @
     ''<script src='' @ quoted ''/theme.js'' @ ''></script>'' @ nl @ ''</head>'' @ nl @ ''<body>'' @ nl @ ''<main>'' @ nl @
     ''<section class='' @ quoted ''card signin-card'' @ ''>'' @ nl @ body @ nl @ ''</section>'' @ nl @ ''</main>'' @ nl @
     ''</body>'' @ nl @ ''</html>'' @ nl"

definition sso_refuse :: "unix_time \<Rightarrow> string \<Rightarrow> nat \<Rightarrow> string \<Rightarrow> 'a handler" where
  "sso_refuse now who status why =
     act_bind (log_audit now who ''signin.refused'' (''single sign-on: '' @ why)) (\<lambda>_.
     act_fail (api_error_of status why))"

text \<open>Accepting a response spends it, whatever follows.\<close>

definition accept_response :: "libs \<Rightarrow> unix_time \<Rightarrow> service_provider \<Rightarrow> string \<Rightarrow> string option \<Rightarrow> (saml_error + verified) handler" where
  "accept_response lib now sp resp flow = (\<lambda>a.
     let (r, sp') = saml_accept (l_saml lib) sp resp flow now in (Ok r, a\<lparr>app_saml := Some sp'\<rparr>))"

definition ask_sid :: "libs \<Rightarrow> ldap \<Rightarrow> unix_time \<Rightarrow> directory \<Rightarrow> string \<Rightarrow> string \<Rightarrow> (dir_error + account option) handler" where
  "ask_sid lib ld now d pw sid = (\<lambda>a.
     let (r, d') = lookup_by_sid (l_lower lib) ld now d pw sid in (Ok r, a\<lparr>app_directory := Some d'\<rparr>))"

text \<open>The account the directory has under the SID, in use.\<close>

definition vouched_account :: "libs \<Rightarrow> ldap \<Rightarrow> unix_time \<Rightarrow> string \<Rightarrow> string \<Rightarrow> vault_error + string option \<Rightarrow> account handler" where
  "vouched_account lib ld now who sid password =
     act_bind (act_read (\<lambda>a. ok_or (api_error_of 503 ''single sign-on needs the directory's service account'')
                               (lookup_directory a))) (\<lambda>d.
     act_bind (act_res (map_err api_of_vault password)) (\<lambda>set_pw.
     act_bind (act_res (ok_or (api_error_of 503
         ''the directory service account's password is not set; an administrator sets it on the Migration page'') set_pw)) (\<lambda>pw.
     act_bind (ask_sid lib ld now d pw sid) (\<lambda>r.
     (case r of
        Ok (Some acc) \<Rightarrow>
          if usable acc then act_ret acc
          else sso_refuse now who 403 (''the directory account with SID '' @ sid @ '' is disabled or expired'')
      | Ok None \<Rightarrow>
          sso_refuse now who 403
            (''no account in the directory has the SID '' @ sid @ '' the identity provider sent'')
      | Err e \<Rightarrow> act_fail (api_of_dir e))))))"

text \<open>From the verified response on; \<open>mid2\<close> is what happens while the directory answers.\<close>

definition sso_finish ::
  "libs \<Rightarrow> ldap \<Rightarrow> signin_inputs \<Rightarrow> (app \<Rightarrow> app) \<Rightarrow> 64 word \<Rightarrow> vault_error + string option \<Rightarrow> verified \<Rightarrow> string handler" where
  "sso_finish lib ld si mid2 generation password v =
     (let who = (case v_name_id v of Some n \<Rightarrow> n | None \<Rightarrow> v_sid v)
      in act_bind (vouched_account lib ld (si_now si) who (v_sid v) password) (\<lambda>acc.
         act_bind (act_mod mid2) (\<lambda>_.
         act_bind (act_get app_generation) (\<lambda>g.
         act_bind (act_guard (g = generation) REPLACED) (\<lambda>_.
         act_bind (finish_directory si acc) (\<lambda>u.
         act_bind (start_session lib si u) (\<lambda>(token, _, lasts).
         act_bind (purge_sessions (si_now si)) (\<lambda>_.
         act_bind (log_audit (si_now si) (u_username u) ''signin'' (''single sign-on as '' @ who)) (\<lambda>_.
         act_bind (act_get app_secure_cookies) (\<lambda>secure.
         act_ret (session_cookie token lasts secure)))))))))))"

definition sso_sign_in ::
  "libs \<Rightarrow> ldap \<Rightarrow> signin_inputs \<Rightarrow> (app \<Rightarrow> app) \<Rightarrow> (app \<Rightarrow> app) \<Rightarrow> http_request \<Rightarrow> string \<Rightarrow> string handler" where
  "sso_sign_in lib ld si mid1 mid2 rq resp =
     act_bind (act_read (\<lambda>a. ok_or not_found (app_saml a))) (\<lambda>_.
     (let flow = find_map (\<lambda>h. cookie_value h FLOW_COOKIE) (rq_cookies rq)
      in act_bind (act_get (\<lambda>a. (app_generation a, directory_password (l_crypto lib) a))) (\<lambda>(generation, password).
         act_bind (act_mod mid1) (\<lambda>_.
         act_bind (act_read (\<lambda>a. ok_or not_found (app_saml a))) (\<lambda>sp.
         act_bind (accept_response lib (si_now si) sp resp flow) (\<lambda>r.
         (case r of
            Err e \<Rightarrow> sso_refuse (si_now si) WHO 401 (saml_error_text e)
          | Ok v \<Rightarrow> sso_finish lib ld si mid2 generation password v)))))))"

text \<open>The status, the cookies and the page the browser gets.\<close>

definition acs ::
  "libs \<Rightarrow> ldap \<Rightarrow> signin_inputs \<Rightarrow> (app \<Rightarrow> app) \<Rightarrow> (app \<Rightarrow> app) \<Rightarrow> http_request \<Rightarrow> string \<Rightarrow> app \<Rightarrow>
   (nat \<times> string list \<times> string) \<times> app" where
  "acs lib ld si mid1 mid2 rq resp a =
     (case sso_sign_in lib ld si mid1 mid2 rq resp a of
        (Ok session, a') \<Rightarrow>
          ((200, [session, flow_cookie [] 0],
            page (''<h2>Signed in</h2>'' @ nl @ ''<p><a href='' @ quoted ''/'' @ ''>Continue to your servers</a></p>'' @ nl @
                  ''<script src='' @ quoted ''/saml-done.js'' @ ''></script>'')), a')
      | (Err e, a') \<Rightarrow>
          ((ae_status e, [flow_cookie [] 0],
            page (''<h2>Single sign-on did not sign you in</h2>'' @ nl @ ''<p class='' @ quoted ''error'' @ ''>'' @
                  html_escape (ae_message e) @ ''</p>'' @ nl @ ''<p><a href='' @ quoted ''/api/saml/start'' @
                  ''>Try again</a> or <a href='' @ quoted ''/'' @ ''>sign in with your password</a></p>'')), a'))"

end
