(* ===== verification/WA_Sample.thy ===== *)
theory WA_Sample
  imports WA_App WA_Store_Props
begin

text \<open>
  One running proxy, for evaluating the handlers: the database of \<open>WA_Store_Props\<close> with a local
  account and a recovery passphrase added, the cipher of \<open>WA_Vault\<close> and the directory of
  \<open>WA_Directory\<close>.
\<close>

definition sample_config :: config where
  "sample_config =
     \<lparr> cf_listen = ''0.0.0.0:8443'', cf_https = None, cf_tls = \<lparr> tc_verify = Insecure, tc_ca_bundle = None \<rparr>,
       cf_directory = Some (d_cfg sample_directory), cf_saml = None, cf_admins = [''alice''],
       cf_allow_local_accounts = True, cf_data_dir = None, cf_max_connections = 1024, cf_audit_days = 90,
       cf_target = [],
       cf_scan = \<lparr> sc_scanner = Off, sc_command = [], sc_clean_exit_codes = [0], sc_detected_exit_codes = [],
                   sc_timeout_secs = 60, sc_max_staged_mb = 512, sc_check_every_mins = 10 \<rparr>,
       cf_unknown = [] \<rparr>"

definition sample_libs :: libs where
  "sample_libs =
     \<lparr> l_lower = to_ascii_lowercase, l_sha256 = (\<lambda>b. b), l_crypto = sample_crypto,
       l_saml = \<lparr> xl_parse = (\<lambda>_. Err []), xl_b64_decode = (\<lambda>_. Ok []), xl_b64_encode = (\<lambda>_. []), xl_deflate = (\<lambda>b. b),
                  xl_form_pair = (\<lambda>k v. k @ ''='' @ v), xl_load_cert = (\<lambda>_. Ok 0),
                  xl_verify_all = (\<lambda>_ _. Ok []), xl_hmac = (\<lambda>_ _. [7]) \<rparr>,
       l_from_json = (\<lambda>_. None), l_to_json = (\<lambda>_. []) \<rparr>"

text \<open>The hash of the password \<open>secret\<close>.\<close>

definition sample_hash :: string where
  "sample_hash = (case hash_password sample_crypto (Some (replicate SALT_LEN 3)) ''secret'' of Ok h \<Rightarrow> h | Err _ \<Rightarrow> [])"

definition sample_app_store :: store where
  "sample_app_store =
     sample_store\<lparr>
       users := users sample_store @ [(sample_user 3 ''carol'')\<lparr>ur_sid := Some ''local:1'', ur_local_hash := Some sample_hash\<rparr>],
       users_seq := 3, meta := meta sample_recovered\<rparr>"

definition sample_app :: app where
  "sample_app = from_parts sample_config sample_app_store sample_vault (Some sample_directory) ''proxy'' True None"

end
