(* ===== verification/WA_Signin_Props.thy ===== *)
theory WA_Signin_Props
  imports WA_Connect WA_Sso WA_Sample
begin

text \<open>
  What signing in guarantees. A session is made for the row whose password or directory account
  was checked, whatever the rest of the proxy did between the check and its recording; a row bound
  to a SID keeps it; signing out ends the sign-in and every connection opened under it.
\<close>

section \<open>Steps that came to their end\<close>

lemma refused_Ok [simp]: "refused now w y a = (Ok x, a') \<longleftrightarrow> False"
  by (simp add: refused_def act_Ok)

lemma sid_mismatch_Ok [simp]: "sid_mismatch now u acc b a = (Ok x, a') \<longleftrightarrow> False"
  by (simp add: sid_mismatch_def act_Ok)

lemma sso_refuse_Ok [simp]: "sso_refuse now w n y a = (Ok x, a') \<longleftrightarrow> False"
  by (simp add: sso_refuse_def act_Ok)

text \<open>The rows of \<open>users\<close> and the sign-ins a step leaves.\<close>

definition row_of :: "store \<Rightarrow> int \<Rightarrow> (user_row \<Rightarrow> bool) \<Rightarrow> bool" where
  "row_of s i P \<longleftrightarrow> (\<exists>r \<in> set (users s). ur_id r = i \<and> P r)"

definition session_for :: "store \<Rightarrow> bytes \<Rightarrow> int \<Rightarrow> unix_time \<Rightarrow> bool" where
  "session_for s th i at \<longleftrightarrow>
     (\<exists>e \<in> set (sessions s). se_token_hash e = th \<and> se_user_id e = i \<and> se_expires e > at)"

lemma row_of_audit [simp]: "row_of (audit s n w x y) i P = row_of s i P"
  by (simp add: row_of_def)

lemma session_for_audit [simp]: "session_for (audit s n w x y) th i t = session_for s th i t"
  by (simp add: session_for_def)

definition bind_row :: "unix_time \<Rightarrow> int \<Rightarrow> int \<Rightarrow> string \<Rightarrow> string option \<Rightarrow> user_row \<Rightarrow> user_row" where
  "bind_row now i inc sid disp r =
     (if ur_id r = i \<and> ur_incarnation r = inc \<and> (ur_sid r = None \<or> ur_sid r = Some sid)
      then r\<lparr>ur_sid := coalesce (ur_sid r) (Some sid), ur_display_name := coalesce disp (ur_display_name r),
             ur_last_login := Some now\<rparr> else r)"

lemma bind_row_simps [simp]:
  "ur_id (bind_row now i inc sid disp r) = ur_id r" "ur_incarnation (bind_row now i inc sid disp r) = ur_incarnation r"
  "ur_local_hash (bind_row now i inc sid disp r) = ur_local_hash r"
  by (simp_all add: bind_row_def)

lemma record_login_users:
  "user_record_login s now i inc sid disp = Ok (b, s') \<Longrightarrow>
     s' = s\<lparr>users := map (bind_row now i inc sid disp) (users s)\<rparr> \<and>
     (b \<longrightarrow> (\<exists>r \<in> set (users s). ur_id r = i \<and> ur_incarnation r = inc \<and> (ur_sid r = None \<or> ur_sid r = Some sid)))"
  by (auto simp: user_record_login_def stmt_Ok Let_def update_where_def bind_row_def [abs_def] count_where_def filter_empty_conv)

lemma record_login_row:
  assumes "user_record_login s now i inc sid disp = Ok (True, s')"
  shows "row_of s' i (\<lambda>r. ur_incarnation r = inc \<and> ur_sid r = Some sid)"
proof -
  obtain r where r: "r \<in> set (users s)" "ur_id r = i" "ur_incarnation r = inc" "ur_sid r = None \<or> ur_sid r = Some sid"
    using record_login_users [OF assms] by blast
  then have "ur_sid (bind_row now i inc sid disp r) = Some sid"
    by (auto simp: bind_row_def coalesce_def)
  then show ?thesis using r record_login_users [OF assms] by (auto simp: row_of_def)
qed

lemma record_login_local:
  "user_record_login s now i inc sid disp = Ok (b, s') \<Longrightarrow>
     row_of s' j (\<lambda>r. ur_incarnation r = k \<and> ur_local_hash r = h) = row_of s j (\<lambda>r. ur_incarnation r = k \<and> ur_local_hash r = h)"
  by (drule record_login_users) (simp add: row_of_def)

lemma finish_local_Ok:
  assumes "finish_local si name i inc h a = (Ok u, a')"
  shows "u_id u = i \<and> u_incarnation u = inc \<and> app_generation a' = app_generation a \<and>
    row_of (app_store a') i (\<lambda>r. ur_incarnation r = inc \<and> ur_local_hash r = Some h)"
proof -
  obtain sid s' where u: "user_by_id (app_store a) i = Ok (Some u)" "local_hash (app_store a) i = Ok (Some h)"
      "u_incarnation u = inc" "user_record_login (app_store a) (si_now si) (u_id u) inc sid None = Ok (True, s')"
      "a' = a\<lparr>app_store := s'\<rparr>"
    using assms by (auto simp: finish_local_def step_Ok Let_def elim!: act_bind_OkE split: option.splits if_splits)
  obtain r where f: "List.find (\<lambda>r. ur_id r = i) (users (app_store a)) = Some r" "u = user_from r" "ur_local_hash r = Some h"
    using u(1,2) by (auto simp: user_by_id_def local_hash_def stmt_Ok)
  have r: "r \<in> set (users (app_store a))" "ur_id r = i" using find_Some_set [OF f(1)] by simp_all
  have "row_of (app_store a) i (\<lambda>r. ur_incarnation r = inc \<and> ur_local_hash r = Some h)"
    using r f u(3) by (auto simp: row_of_def user_from_def)
  then show ?thesis
    using u r f record_login_local [OF u(4)] by (simp add: user_from_def)
qed

lemma directory_row_Ok: "directory_row si acc a = (Ok u, a') \<Longrightarrow> app_generation a' = app_generation a"
  by (auto simp: directory_row_def step_Ok elim!: act_bind_OkE split: option.splits if_splits)

lemma finish_directory_Ok:
  assumes "finish_directory si acc a = (Ok u, a')"
  shows "app_generation a' = app_generation a \<and>
    row_of (app_store a') (u_id u) (\<lambda>r. ur_incarnation r = u_incarnation u \<and> ur_sid r = Some (a_sid acc))"
proof -
  obtain a1 s' where d: "directory_row si acc a = (Ok u, a1)" "a' = a1\<lparr>app_store := s'\<rparr>"
      "user_record_login (app_store a1) (si_now si) (u_id u) (u_incarnation u) (a_sid acc) (a_display_name acc) = Ok (True, s')"
    using assms by (auto simp: finish_directory_def step_Ok elim!: act_bind_OkE split: option.splits if_splits)
  then show ?thesis using directory_row_Ok [OF d(1)] record_login_row [OF d(3)] by simp
qed

lemma start_session_Ok:
  assumes "start_session lib si u a = (Ok (t, e, l), a')"
  shows "t = si_token si \<and> users (app_store a') = users (app_store a) \<and> app_generation a' = app_generation a \<and>
    session_for (app_store a') (token_hash (l_sha256 lib) (si_token si)) (u_id u) (si_now si) \<and>
    user_is (app_store a) (u_id u) (u_incarnation u)"
proof -
  have "\<exists>st s'. settings_read (l_from_json lib) (app_store a) = Ok st \<and>
      session_create (app_store a) (si_now si) (token_hash (l_sha256 lib) (si_token si)) (u_id u) (u_incarnation u)
         (si_now si + signin_secs st) = Ok (True, s') \<and> a' = a\<lparr>app_store := s'\<rparr> \<and> t = si_token si"
    using assms unfolding start_session_def Let_def
    by (elim act_bind_OkE) (auto simp: step_Ok split: if_splits)
  then obtain st s' where s: "settings_read (l_from_json lib) (app_store a) = Ok st"
      "session_create (app_store a) (si_now si) (token_hash (l_sha256 lib) (si_token si)) (u_id u) (u_incarnation u)
         (si_now si + signin_secs st) = Ok (True, s')" "a' = a\<lparr>app_store := s'\<rparr>" "t = si_token si"
    by blast
  have "signin_secs st > 0" using settings_read_checked [OF s(1)] by linarith
  moreover have "s' = (app_store a)\<lparr>sessions := sessions (app_store a) @ [\<lparr> se_token_hash = token_hash (l_sha256 lib) (si_token si),
        se_user_id = u_id u, se_created = si_now si, se_expires = si_now si + signin_secs st \<rparr>]\<rparr>"
      "user_is (app_store a) (u_id u) (u_incarnation u)"
    using s(2) by (auto simp: session_create_def stmt_Ok split: if_splits)
  ultimately show ?thesis using s(3,4) by (simp add: session_for_def)
qed

lemma purge_keeps:
  "purge_sessions now a = (Ok x, a') \<Longrightarrow> users (app_store a') = users (app_store a) \<and> app_generation a' = app_generation a \<and>
     (session_for (app_store a) th i now \<longrightarrow> session_for (app_store a') th i now)"
  by (auto simp: purge_sessions_def sessions_purge_def stmt_def session_for_def split: sum.splits option.splits)

lemma row_of_users: "users s = users s' \<Longrightarrow> row_of s i P = row_of s' i P"
  by (simp add: row_of_def)

lemma signed_in_Ok:
  assumes "signed_in lib si u a = (Ok r, a')"
  shows "users (app_store a') = users (app_store a) \<and> app_generation a' = app_generation a \<and>
    session_for (app_store a') (token_hash (l_sha256 lib) (si_token si)) (u_id u) (si_now si)"
proof -
  obtain t e l a1 a2 where s: "start_session lib si u a = (Ok (t, e, l), a1)"
      "purge_sessions (si_now si) a1 = (Ok (), a2)"
      "a' = a2\<lparr>app_store := audit (app_store a2) (si_now si) (u_username u) ''signin'' (if u_local u then ''local account'' else [])\<rparr>"
    using assms by (auto simp: signed_in_def step_Ok elim!: act_bind_OkE)
  show ?thesis
    using start_session_Ok [OF s(1)] purge_keeps [OF s(2)] s(3) by auto
qed

section \<open>A session only for what was checked\<close>

lemma check_local_Ok:
  "check_local lib si name i inc h pw a = (Ok c, a') \<Longrightarrow> c = CheckedLocal i' inc' h' \<Longrightarrow>
     i' = i \<and> inc' = inc \<and> h' = h \<and> verify_password (l_crypto lib) pw h \<and> cf_allow_local_accounts (app_cfg a)"
  by (auto simp: check_local_def step_Ok Let_def throttle_blocked_def elim!: act_bind_OkE split: if_splits prod.splits)

lemma check_local_not_directory:
  "check_local lib si name i inc h pw a = (Ok (CheckedDirectory acc), a') \<longleftrightarrow> False"
  by (auto simp: check_local_def step_Ok Let_def throttle_blocked_def elim!: act_bind_OkE split: if_splits prod.splits)

lemma ask_directory_Ok:
  "ask_directory lib ld now d typed pw a = (Ok r, a') \<longleftrightarrow>
     fst (authenticate (l_lower lib) ld now d typed pw) = r \<and>
     a' = a\<lparr>app_directory := Some (snd (authenticate (l_lower lib) ld now d typed pw))\<rparr>"
  by (auto simp: ask_directory_def split: prod.splits)

lemma check_directory_Ok:
  "check_directory lib ld si client typed pw a = (Ok c, a') \<Longrightarrow>
     (case c of
        CheckedDirectory acc \<Rightarrow> \<exists>d. app_directory a = Some d \<and> fst (authenticate (l_lower lib) ld (si_now si) d typed pw) = Ok acc
      | CheckedLocal _ _ _ \<Rightarrow> False
      | _ \<Rightarrow> True)"
  by (auto simp: check_directory_def ask_directory_Ok address_take_def elim!: act_bind_OkE split: option.splits if_splits sum.splits dir_error.splits prod.splits)

lemma finish_check_Ok:
  assumes "finish_check si name c a = (Ok u, a')"
  shows "app_generation a' = app_generation a \<and>
    (case c of
       CheckedLocal i inc h \<Rightarrow> u_id u = i \<and> row_of (app_store a') i (\<lambda>r. ur_incarnation r = inc \<and> ur_local_hash r = Some h)
     | CheckedDirectory acc \<Rightarrow> row_of (app_store a') (u_id u) (\<lambda>r. ur_sid r = Some (a_sid acc))
     | _ \<Rightarrow> False)"
  using assms finish_local_Ok finish_directory_Ok
  by (cases c) (fastforce simp: finish_check_def row_of_def act_Ok)+

text \<open>What a password sign-in rests on: a hash the password matches, or the directory's answer.\<close>

definition proven_by :: "libs \<Rightarrow> ldap \<Rightarrow> signin_inputs \<Rightarrow> app \<Rightarrow> string \<Rightarrow> string \<Rightarrow> user_row \<Rightarrow> bool" where
  "proven_by lib ld si a typed pw r \<longleftrightarrow>
     (cf_allow_local_accounts (app_cfg a) \<and> (\<exists>h. ur_local_hash r = Some h \<and> verify_password (l_crypto lib) pw h)) \<or>
     (\<exists>d acc. app_directory a = Some d \<and> fst (authenticate (l_lower lib) ld (si_now si) d typed pw) = Ok acc \<and>
        ur_sid r = Some (a_sid acc))"

lemma login_check_Ok:
  assumes "login_check lib ld si peer typed name pw local a = (Ok c, a1)" and "finish_check si name c a2 = (Ok u, a')"
  shows "row_of (app_store a') (u_id u) (proven_by lib ld si a typed pw)"
proof (cases c)
  case (CheckedLocal i inc h)
  then have "cf_allow_local_accounts (app_cfg a) \<and> verify_password (l_crypto lib) pw h"
    using assms(1) check_local_Ok check_directory_Ok [of lib ld si _ typed pw a c a1]
    by (fastforce simp: login_check_def split: option.splits prod.splits)
  then show ?thesis
    using finish_check_Ok [OF assms(2)] CheckedLocal by (auto simp: row_of_def proven_by_def)
next
  case (CheckedDirectory acc)
  then obtain d where "app_directory a = Some d" "fst (authenticate (l_lower lib) ld (si_now si) d typed pw) = Ok acc"
    using assms(1) check_directory_Ok [of lib ld si _ typed pw a c a1]
    by (auto simp: login_check_def check_local_not_directory split: option.splits)
  then show ?thesis
    using finish_check_Ok [OF assms(2)] CheckedDirectory by (fastforce simp: row_of_def proven_by_def)
qed (use finish_check_Ok [OF assms(2)] in auto)

lemma login_lookup_Ok: "login_lookup name a = (Ok (g, l), a') \<Longrightarrow> a' = a \<and> g = app_generation a"
  unfolding login_lookup_def by (elim act_bind_OkE) (auto simp: step_Ok elim!: act_bind_OkE split: option.splits if_splits)

text \<open>
  C1: A password sign-in that succeeds has made a session only for an account the password was
  proven for: a local account whose stored hash at that moment is the one the password matched
  (and local accounts are allowed), or a row bound to the SID of the account the directory
  authenticated. This holds whatever the rest of the proxy did between reading the account,
  checking the password and recording the result, and the database is still the one the sign-in
  began with.
\<close>

theorem login_sound:
  assumes "login lib ld si mid1 mid2 peer typed pw a = (Ok (cookie, m), a')"
  shows "app_generation a' = app_generation a \<and>
    (\<exists>i. session_for (app_store a') (token_hash (l_sha256 lib) (si_token si)) i (si_now si) \<and>
         row_of (app_store a') i (proven_by lib ld si (mid1 a) typed pw))"
proof -
  have "\<exists>name local c a1 u a2.
      login_check lib ld si peer typed name pw local (mid1 a) = (Ok c, a1) \<and> app_generation (mid2 a1) = app_generation a \<and>
      finish_check si name c (mid2 a1) = (Ok u, a2) \<and> signed_in lib si u a2 = (Ok (cookie, m), a')"
    using assms unfolding login_def login_finish_def
    by (elim act_bind_OkE) (clarsimp dest!: login_lookup_Ok elim!: act_bind_OkE, blast)
  then obtain name local c a1 u a2 where l:
      "login_check lib ld si peer typed name pw local (mid1 a) = (Ok c, a1)" "app_generation (mid2 a1) = app_generation a"
      "finish_check si name c (mid2 a1) = (Ok u, a2)" "signed_in lib si u a2 = (Ok (cookie, m), a')"
    by blast
  show ?thesis
    using login_check_Ok [OF l(1,3)] signed_in_Ok [OF l(4)] finish_check_Ok [OF l(3)] l(2)
    by (auto simp: row_of_def)
qed

definition sample_signin :: signin_inputs where
  "sample_signin = \<lparr> si_now = 1000, si_blocked_first = 5, si_blocked_again = 6, si_counted = 7, si_token = ''tok'',
     si_sid_token = ''sid'', si_incarnation = 74 \<rparr>"

lemma sample_login: "is_ok (fst (login sample_libs sample_ldap sample_signin id id None ''Carol'' ''secret'' sample_app))"
  by code_simp

theorem login_sound_witness:
  "\<exists>i. session_for (app_store (snd (login sample_libs sample_ldap sample_signin id id None ''Carol'' ''secret'' sample_app)))
         (token_hash (l_sha256 sample_libs) ''tok'') i 1000"
proof -
  obtain c m a' where l: "login sample_libs sample_ldap sample_signin id id None ''Carol'' ''secret'' sample_app = (Ok (c, m), a')"
    using sample_login by (auto simp: is_ok_iff) (metis prod.collapse)
  show ?thesis using login_sound [OF l] l by (auto simp: sample_signin_def)
qed

section \<open>A bound row stays bound\<close>

definition bound_row :: "int \<Rightarrow> int \<Rightarrow> string \<Rightarrow> app \<Rightarrow> bool" where
  "bound_row i inc sid a \<longleftrightarrow> row_of (app_store a) i (\<lambda>r. ur_incarnation r = inc \<and> ur_sid r = Some sid)"

lemma bound_row_map:
  assumes "row_of s i (\<lambda>r. ur_incarnation r = inc \<and> ur_sid r = Some sid)" and "users s' = map f (users s)"
    and "\<And>r. ur_id (f r) = ur_id r \<and> ur_incarnation (f r) = ur_incarnation r \<and> (\<forall>x. ur_sid r = Some x \<longrightarrow> ur_sid (f r) = Some x)"
  shows "row_of s' i (\<lambda>r. ur_incarnation r = inc \<and> ur_sid r = Some sid)"
  using assms by (auto simp: row_of_def)

lemma keeps_bound_users:
  "(\<And>s x s'. f s = Ok (x, s') \<Longrightarrow> users s' = users s) \<Longrightarrow> keeps (bound_row i inc sid) (st_op conv f)"
  by (rule keeps_st_op) (simp add: bound_row_def row_of_def)

lemma keeps_bound_update:
  assumes "\<And>s x s'. f s = Ok (x, s') \<Longrightarrow> users s' = update_where (hit s) g (users s)"
    and "\<And>s r. hit s r \<Longrightarrow> ur_id (g r) = ur_id r \<and> ur_incarnation (g r) = ur_incarnation r \<and> (\<forall>x. ur_sid r = Some x \<longrightarrow> ur_sid (g r) = Some x)"
  shows "keeps (bound_row i inc sid) (st_op conv f)"
proof (rule keeps_st_op)
  fix a x s assume b: "bound_row i inc sid a" and "f (app_store a) = Ok (x, s)"
  then have "users s = map (\<lambda>r. if hit (app_store a) r then g r else r) (users (app_store a))"
    using assms(1) by (simp add: update_where_def)
  then show "bound_row i inc sid (a\<lparr>app_store := s\<rparr>)"
    using b bound_row_map [of "app_store a" i inc sid s "\<lambda>r. if hit (app_store a) r then g r else r"] assms(2) [of "app_store a"]
    by (simp add: bound_row_def)
qed

lemma keeps_bound_audit [keeps_intros]: "keeps (bound_row i inc sid) (log_audit now w x y)"
  by (rule keeps_log_audit) (simp add: bound_row_def)

lemma keeps_bound_other [keeps_intros]:
  "keeps (bound_row i inc sid) (throttle_blocked name t)"
  "keeps (bound_row i inc sid) (address_take name t)"
  "keeps (bound_row i inc sid) (ask_directory lib ld now d typed pw)"
  by (simp_all add: keeps_def bound_row_def throttle_blocked_def address_take_def ask_directory_def split: prod.splits)

lemma keeps_bound_purge [keeps_intros]: "keeps (bound_row i inc sid) (purge_sessions now)"
  by (simp add: keeps_def bound_row_def row_of_def purge_sessions_def sessions_purge_def stmt_def split: option.splits)

lemma keeps_bound_record [keeps_intros]: "keeps (bound_row i inc sid) (st_op conv (\<lambda>s. user_record_login s now j inc' sid' disp))"
  by (rule keeps_bound_update, (auto simp: user_record_login_def stmt_Ok Let_def) [1]) (auto simp: coalesce_def)

lemma keeps_bound_flag [keeps_intros]: "keeps (bound_row i inc sid) (st_op conv (\<lambda>s. user_flag_mismatch s j))"
  by (rule keeps_bound_update, (auto simp: user_flag_mismatch_def stmt_Ok) [1]) simp

lemma keeps_bound_rename [keeps_intros]: "keeps (bound_row i inc sid) (st_op conv (\<lambda>s. user_rename s j inc' sid' name))"
  by (rule keeps_bound_update, (auto simp: user_rename_def stmt_Ok Let_def) [1]) simp

lemma keeps_bound_create [keeps_intros]: "keeps (bound_row i inc sid) (st_op conv (\<lambda>s. user_create_returning s now rnd name disp))"
  by (rule keeps_st_op)
     (auto simp: user_create_returning_def stmt_Ok bound_row_def row_of_def Let_def split: if_splits sum.splits)

lemma keeps_bound_session [keeps_intros]: "keeps (bound_row i inc sid) (st_op conv (\<lambda>s. session_create s now th j inc' e))"
  by (rule keeps_bound_users) (auto simp: session_create_def stmt_Ok split: if_splits)

lemma keeps_bound_throttles [keeps_intros]:
  "keeps (bound_row i inc sid) (act_mod (\<lambda>a. a\<lparr>app_throttle := f a\<rparr>))"
  "keeps (bound_row i inc sid) (act_mod (\<lambda>a. if b then a else a\<lparr>app_address_throttle := g a\<rparr>))"
  by (auto intro!: keeps_mod simp: bound_row_def)

lemma keeps_bound_refused [keeps_intros]: "keeps (bound_row i inc sid) (refused now w y)"
  unfolding refused_def by (intro keeps_intros)

lemma keeps_bound_mismatch [keeps_intros]: "keeps (bound_row i inc sid) (sid_mismatch now u acc b)"
  unfolding sid_mismatch_def by (intro keeps_intros)

lemma keeps_bound_local [keeps_intros]: "keeps (bound_row i inc sid) (finish_local si name j inc' h)"
  unfolding finish_local_def by (intro keeps_intros)

lemma keeps_bound_directory_row [keeps_intros]: "keeps (bound_row i inc sid) (directory_row si acc)"
  unfolding directory_row_def by (intro keeps_intros)

lemma keeps_bound_directory [keeps_intros]: "keeps (bound_row i inc sid) (finish_directory si acc)"
  unfolding finish_directory_def by (intro keeps_intros)

lemma keeps_bound_check [keeps_intros]: "keeps (bound_row i inc sid) (finish_check si name c)"
  unfolding finish_check_def by (cases c) (auto intro!: keeps_intros)

lemma keeps_bound_start [keeps_intros]: "keeps (bound_row i inc sid) (start_session lib si u)"
  unfolding start_session_def by (intro keeps_intros)

lemma keeps_bound_signed_in [keeps_intros]: "keeps (bound_row i inc sid) (signed_in lib si u)"
  unfolding signed_in_def by (intro keeps_intros)

lemma keeps_bound_login_check [keeps_intros]: "keeps (bound_row i inc sid) (login_check lib ld si peer typed name pw local)"
  unfolding login_check_def check_local_def check_directory_def
  by (intro keeps_intros) (simp add: keeps_pure split: dir_error.split)



section \<open>Signing out\<close>

text \<open>
  C20: Signing out takes effect whenever the database answers: the sign-in is gone, every
  connection opened under it has been told to end, and neither anyone else's sign-in nor anyone
  else's connection is touched.
\<close>

theorem logout_ends_everything:
  assumes "sql_fault (app_store a) ''session_delete'' = None"
  shows "\<exists>a'. logout now c a = (Ok (clear_cookie (app_secure_cookies a)), a') \<and>
    sessions (app_store a') = filter (\<lambda>e. se_token_hash e \<noteq> cu_token_hash c) (sessions (app_store a)) \<and>
    map fst (inner (app_live a')) = map fst (inner (app_live a)) \<and>
    list_all2 (\<lambda>(_, l) (_, l'). l' = (if lv_token_hash l = cu_token_hash c then l\<lparr>lv_cancel := False\<rparr> else l))
      (inner (app_live a)) (inner (app_live a'))"
  using assms
  by (simp add: logout_def act_bind_def act_defs session_delete_def stmt_def end_session_def end_where_def split_def
      list_all2_map2 list.rel_refl comp_def)

theorem logout_ends_everything_witness:
  "\<exists>a'. logout 50 \<lparr> cu_user = user_from (sample_user 1 ''alice''), cu_token_hash = [7] \<rparr> sample_app =
        (Ok (clear_cookie True), a') \<and> sessions (app_store a') = []"
  using logout_ends_everything [of sample_app 50 "\<lparr> cu_user = user_from (sample_user 1 ''alice''), cu_token_hash = [7] \<rparr>"]
  by (auto simp: sample_app_def sample_app_store_def from_parts_def sample_defs)

end
