(* ===== verification/WA_Saml_Props.thy ===== *)
theory WA_Saml_Props
  imports WA_Saml
begin

text \<open>
  Single sign-on: what an accepted response proves, that none is accepted twice in any sequence of
  responses, that the table of spent identifiers stays bounded, and that the flow cookie ties a
  response to the browser that asked.
\<close>

section \<open>Signatures\<close>

text \<open>One of the pinned certificates verifies signature \<open>s\<close>, every digest matches, and it covers node \<open>n\<close>.\<close>

definition verified_by :: "saml_lib \<Rightarrow> service_provider \<Rightarrow> xml_doc \<Rightarrow> nat \<Rightarrow> nat \<Rightarrow> bool" where
  "verified_by lib sp d s n \<longleftrightarrow>
     (\<exists>cert \<in> set (i_certs (sp_idp sp)). \<exists>key results.
        xl_load_cert lib cert = Ok key \<and> xl_verify_all lib key d = Ok results \<and> VValid s [Some n] True \<in> set results)"

lemma sig_good_covers: "sig_good d s r \<Longrightarrow> xd_parent d s = Some n \<Longrightarrow> r = VValid s [Some n] True"
  by (auto simp: sig_good_def split: verify_result.splits list.splits)

lemma check_certs_covers:
  "check_certs lib d sigs a valid covers certs = Ok (valid', True) \<Longrightarrow>
   covers \<or> (\<exists>cert \<in> set certs. \<exists>key results s.
     xl_load_cert lib cert = Ok key \<and> xl_verify_all lib key d = Ok results \<and>
     s \<in> set sigs \<and> xd_parent d s = Some a \<and> VValid s [Some a] True \<in> set results)"
proof (induction lib d sigs a valid covers certs rule: check_certs.induct)
  case (2 lib d sigs a valid covers cert certs)
  obtain key results where k: "xl_load_cert lib cert = Ok key" "xl_verify_all lib key d = Ok results"
      "length results = length sigs"
    using 2(2) by (auto simp: and_then_Ok)
  have "check_certs lib d sigs a (map2 (\<or>) valid (map2 (sig_good d) sigs results))
      (covers \<or> list_ex (\<lambda>(s, r). sig_good d s r \<and> xd_parent d s = Some a) (zip sigs results)) certs = Ok (valid', True)"
    using 2(2) k by (simp add: and_then_Ok)
  from 2(1) [OF this] consider "covers"
    | s r where "(s, r) \<in> set (zip sigs results)" "sig_good d s r" "xd_parent d s = Some a"
    | "\<exists>cert \<in> set certs. \<exists>key results s. xl_load_cert lib cert = Ok key \<and> xl_verify_all lib key d = Ok results \<and>
         s \<in> set sigs \<and> xd_parent d s = Some a \<and> VValid s [Some a] True \<in> set results"
    by (auto simp: list_ex_iff)
  then show ?case
  proof cases
    case (2 s r)
    then have "r = VValid s [Some a] True" using sig_good_covers by blast
    then have "s \<in> set sigs" "VValid s [Some a] True \<in> set results"
      using 2(1) set_zip_leftD set_zip_rightD by fastforce+
    then show ?thesis using k 2(3) by (intro disjI2 bexI [of _ cert]) auto
  qed auto
qed simp

lemma check_certs_valid:
  "check_certs lib d sigs a valid covers certs = Ok (valid', c) \<Longrightarrow> length valid = length sigs \<Longrightarrow>
   length valid' = length sigs \<and> (\<forall>i < length sigs. valid' ! i \<longrightarrow> valid ! i \<or>
     (\<exists>cert \<in> set certs. \<exists>key results. xl_load_cert lib cert = Ok key \<and> xl_verify_all lib key d = Ok results \<and>
        (\<exists>r \<in> set results. sig_good d (sigs ! i) r)))"
proof (induction lib d sigs a valid covers certs rule: check_certs.induct)
  case (2 lib d sigs a valid covers cert certs)
  obtain key results where k: "xl_load_cert lib cert = Ok key" "xl_verify_all lib key d = Ok results"
      "length results = length sigs"
    using 2(2) by (auto simp: and_then_Ok)
  let ?v = "map2 (\<or>) valid (map2 (sig_good d) sigs results)"
  have r: "check_certs lib d sigs a ?v
      (covers \<or> list_ex (\<lambda>(s, r). sig_good d s r \<and> xd_parent d s = Some a) (zip sigs results)) certs = Ok (valid', c)"
    using 2(2) k by (simp add: and_then_Ok)
  have l: "length ?v = length sigs" using 2(3) k(3) by simp
  have v: "?v ! i \<Longrightarrow> valid ! i \<or> sig_good d (sigs ! i) (results ! i)" if "i < length sigs" for i
    using that 2(3) k(3) by auto
  have "\<exists>r \<in> set results. sig_good d (sigs ! i) r" if "i < length sigs" "?v ! i" "\<not> valid ! i" for i
    using v [OF that(1,2)] that k(3) by (metis nth_mem)
  then show ?case using 2(1) [OF r l] k(1,2) by auto
qed simp

lemma verified_byI:
  "cert \<in> set (i_certs (sp_idp sp)) \<Longrightarrow> xl_load_cert lib cert = Ok key \<Longrightarrow> xl_verify_all lib key d = Ok results \<Longrightarrow>
   VValid s [Some n] True \<in> set results \<Longrightarrow> verified_by lib sp d s n"
  by (auto simp: verified_by_def)

lemma check_signatures_sound:
  assumes "check_signatures lib sp d root a = Ok u"
  defines "sigs \<equiv> filter (\<lambda>n. is_el d n NS_DSIG ''Signature'') (xd_descendants d root)"
  shows "\<exists>s \<in> set sigs. xd_parent d s = Some a \<and> verified_by lib sp d s a"
    and "s \<in> set sigs \<Longrightarrow> \<exists>n \<in> {root, a}. xd_parent d s = Some n \<and> verified_by lib sp d s n"
proof -
  obtain valid us where c: "check_certs lib d sigs a (replicate (length sigs) False) False (i_certs (sp_idp sp)) = Ok (valid, True)"
      "list_all id valid" and pl: "each (check_placement d root a) sigs = Ok us"
    using assms(1) unfolding check_signatures_def sigs_def Let_def by (auto simp: and_then_Ok)
  show "\<exists>s \<in> set sigs. xd_parent d s = Some a \<and> verified_by lib sp d s a"
    using check_certs_covers [OF c(1)] verified_byI by auto
  assume s: "s \<in> set sigs"
  then obtain i where i: "i < length sigs" "sigs ! i = s" by (auto simp: in_set_conv_nth)
  note cv = check_certs_valid [OF c(1)]
  have "valid ! i" using c(2) cv i by (simp add: list_all_length)
  then obtain cert key results r where r: "cert \<in> set (i_certs (sp_idp sp))" "xl_load_cert lib cert = Ok key"
      "xl_verify_all lib key d = Ok results" "r \<in> set results" "sig_good d s r"
    using cv i by auto
  obtain n where n: "n \<in> {root, a}" "xd_parent d s = Some n"
    using each_Ok_in [OF pl s] by (auto simp: check_placement_def and_then_Ok)
  have "r = VValid s [Some n] True" using sig_good_covers [OF r(5) n(2)] .
  then have "verified_by lib sp d s n" using r verified_byI by blast
  then show "\<exists>n \<in> {root, a}. xd_parent d s = Some n \<and> verified_by lib sp d s n" using n by blast
qed

section \<open>The assertion\<close>

text \<open>A bearer confirmation addressed to this proxy, for this request and still in time.\<close>

definition confirms :: "service_provider \<Rightarrow> xml_doc \<Rightarrow> nat \<Rightarrow> string \<Rightarrow> int \<Rightarrow> int \<Rightarrow> bool" where
  "confirms sp d a rid now until \<longleftrightarrow>
     (\<exists>subject sc data.
        required_child d a NS_ASSERTION ''Subject'' = Ok subject \<and>
        sc \<in> set (children_named d subject NS_ASSERTION ''SubjectConfirmation'') \<and> attr d sc ''Method'' = Some BEARER \<and>
        one_child d sc NS_ASSERTION ''SubjectConfirmationData'' = Ok (Some data) \<and>
        attr d data ''Recipient'' = Some (sp_acs_url sp) \<and> attr d data ''InResponseTo'' = Some rid \<and>
        time_attr d data ''NotOnOrAfter'' = Ok (Some until) \<and> now < until + sp_skew sp)"

text \<open>The assertion is restricted to an audience that includes this proxy.\<close>

definition for_us :: "service_provider \<Rightarrow> xml_doc \<Rightarrow> nat \<Rightarrow> bool" where
  "for_us sp d a \<longleftrightarrow>
     (\<exists>conditions c au.
        required_child d a NS_ASSERTION ''Conditions'' = Ok conditions \<and>
        c \<in> set (child_elements d conditions) \<and> is_el d c NS_ASSERTION ''AudienceRestriction'' \<and>
        au \<in> set (children_named d c NS_ASSERTION ''Audience'') \<and> node_text d au = Ok (sp_entity_id sp))"

lemma confirm_one_Some:
  "confirm_one sp d rid now sc = Ok (Some u) \<Longrightarrow>
   attr d sc ''Method'' = Some BEARER \<and>
   (\<exists>data. one_child d sc NS_ASSERTION ''SubjectConfirmationData'' = Ok (Some data) \<and>
      attr d data ''Recipient'' = Some (sp_acs_url sp) \<and> attr d data ''InResponseTo'' = Some rid \<and>
      time_attr d data ''NotOnOrAfter'' = Ok (Some u)) \<and> now < u + sp_skew sp"
  by (auto simp: confirm_one_def and_then_Ok split: if_splits option.splits)

lemma confirm_one_earlier:
  "confirm_one sp d rid t2 sc = Ok (Some u) \<Longrightarrow> t1 \<le> t2 \<Longrightarrow> confirm_one sp d rid t1 sc = Ok (Some u)"
  by (auto simp: confirm_one_def and_then_def split: if_splits option.splits sum.splits)

lemma max_opt_fold:
  "foldl max_opt acc us = Some m \<Longrightarrow>
   (acc = Some m \<or> Some m \<in> set us) \<and> (\<forall>u. acc = Some u \<or> Some u \<in> set us \<longrightarrow> u \<le> m)"
proof (induction us arbitrary: acc)
  case (Cons x us)
  then have "foldl max_opt (max_opt acc x) us = Some m" by simp
  note ih = Cons.IH [OF this]
  have "max_opt acc x = acc \<or> max_opt acc x = x" by (auto simp: max_opt_def max_def split: option.splits)
  moreover have "u \<le> m" if "acc = Some u \<or> x = Some u" for u
    using ih that by (auto simp: max_opt_def max_def split: option.splits if_splits)
  ultimately show ?case using ih by auto
qed simp

lemma check_subject_confirms:
  assumes "check_subject sp d a rid now = Ok (n, u)"
  shows "confirms sp d a rid now u"
proof -
  obtain subject us where s: "required_child d a NS_ASSERTION ''Subject'' = Ok subject"
      "each (confirm_one sp d rid now) (children_named d subject NS_ASSERTION ''SubjectConfirmation'') = Ok us"
      "foldl max_opt None us = Some u"
    using assms by (auto simp: check_subject_def and_then_Ok)
  have "Some u \<in> set us" using max_opt_fold [OF s(3)] by simp
  then obtain sc where "sc \<in> set (children_named d subject NS_ASSERTION ''SubjectConfirmation'')"
      "confirm_one sp d rid now sc = Ok (Some u)"
    using each_Ok_out [OF s(2)] by blast
  then show ?thesis using s(1) confirm_one_Some unfolding confirms_def by meson
qed

text \<open>A confirmation that is in time later was in time earlier, so the last one only moves back.\<close>

lemma check_subject_later:
  assumes "check_subject sp d a rid t1 = Ok (n1, u1)" "check_subject sp d a rid t2 = Ok (n2, u2)" "t1 \<le> t2"
  shows "u2 \<le> u1"
proof -
  obtain subject us1 where s1: "required_child d a NS_ASSERTION ''Subject'' = Ok subject"
      "each (confirm_one sp d rid t1) (children_named d subject NS_ASSERTION ''SubjectConfirmation'') = Ok us1"
      "foldl max_opt None us1 = Some u1"
    using assms(1) by (auto simp: check_subject_def and_then_Ok)
  obtain us2 where s2:
      "each (confirm_one sp d rid t2) (children_named d subject NS_ASSERTION ''SubjectConfirmation'') = Ok us2"
      "foldl max_opt None us2 = Some u2"
    using assms(2) s1(1) by (auto simp: check_subject_def and_then_Ok)
  have "Some u2 \<in> set us2" using max_opt_fold [OF s2(2)] by simp
  then obtain sc where sc: "sc \<in> set (children_named d subject NS_ASSERTION ''SubjectConfirmation'')"
      "confirm_one sp d rid t2 sc = Ok (Some u2)"
    using each_Ok_out [OF s2(1)] by blast
  have "confirm_one sp d rid t1 sc = Ok (Some u2)" using confirm_one_earlier [OF sc(2) assms(3)] .
  then have "Some u2 \<in> set us1" using each_Ok_in [OF s1(2) sc(1)] by auto
  then show ?thesis using max_opt_fold [OF s1(3)] by simp
qed

lemma check_conditions_for_us: "check_conditions sp d a now = Ok u \<Longrightarrow> for_us sp d a"
proof -
  assume "check_conditions sp d a now = Ok u"
  then obtain conditions cs where c: "required_child d a NS_ASSERTION ''Conditions'' = Ok conditions"
      "each (check_condition sp d) (child_elements d conditions) = Ok cs" "True \<in> set cs"
    by (auto simp: check_conditions_def and_then_Ok)
  obtain n where n: "n \<in> set (child_elements d conditions)" "check_condition sp d n = Ok True"
    using each_Ok_out [OF c(2,3)] by blast
  then obtain ts where t: "is_el d n NS_ASSERTION ''AudienceRestriction''"
      "each (node_text d) (children_named d n NS_ASSERTION ''Audience'') = Ok ts" "sp_entity_id sp \<in> set ts"
    by (auto simp: check_condition_def refuse_def and_then_Ok split: if_splits)
  then show ?thesis using c(1) n(1) each_Ok_out [OF t(2,3)] unfolding for_us_def by blast
qed

section \<open>A response that is accepted\<close>

definition att :: "string \<Rightarrow> string \<Rightarrow> xml_attr" where
  "att n v = \<lparr> xa_ns = None, xa_local = n, xa_value = v \<rparr>"

definition el :: "string \<Rightarrow> string \<Rightarrow> xml_attr list \<Rightarrow> xml_kind" where
  "el ns n as = XElement (Some ns) n as"

definition sample_nodes :: "(nat \<times> nat \<times> xml_kind) list" where
  "sample_nodes =
     [(1, 0, el NS_PROTOCOL ''Response'' [att ''Version'' ''2.0'', att ''InResponseTo'' ''_r'']),
      (2, 1, el NS_PROTOCOL ''Status'' []), (3, 2, el NS_PROTOCOL ''StatusCode'' [att ''Value'' STATUS_SUCCESS]),
      (4, 1, el NS_ASSERTION ''Assertion'' [att ''ID'' ''_a'', att ''Version'' ''2.0'', att ''IssueInstant'' ''2026-01-02T03:04:05Z'']),
      (5, 4, el NS_ASSERTION ''Issuer'' []), (6, 5, XText ''idp''),
      (7, 4, el NS_DSIG ''Signature'' []), (8, 7, el NS_DSIG ''SignedInfo'' []),
      (9, 8, el NS_DSIG ''CanonicalizationMethod'' [att ''Algorithm'' EXC_C14N]),
      (10, 8, el NS_DSIG ''SignatureMethod'' [att ''Algorithm'' (hd SIGNATURE_METHODS)]),
      (11, 8, el NS_DSIG ''Reference'' [att ''URI'' ''#_a'']), (12, 11, el NS_DSIG ''Transforms'' []),
      (13, 12, el NS_DSIG ''Transform'' [att ''Algorithm'' ENVELOPED]), (14, 12, el NS_DSIG ''Transform'' [att ''Algorithm'' EXC_C14N]),
      (15, 11, el NS_DSIG ''DigestMethod'' [att ''Algorithm'' (hd DIGEST_METHODS)]), (16, 11, el NS_DSIG ''DigestValue'' []),
      (20, 4, el NS_ASSERTION ''Subject'' []), (21, 20, el NS_ASSERTION ''SubjectConfirmation'' [att ''Method'' BEARER]),
      (22, 21, el NS_ASSERTION ''SubjectConfirmationData''
         [att ''Recipient'' ''acs'', att ''InResponseTo'' ''_r'', att ''NotOnOrAfter'' ''2026-01-02T03:09:05Z'']),
      (30, 4, el NS_ASSERTION ''Conditions'' []), (31, 30, el NS_ASSERTION ''AudienceRestriction'' []),
      (32, 31, el NS_ASSERTION ''Audience'' []), (33, 32, XText ''sp''),
      (40, 4, el NS_ASSERTION ''AuthnStatement'' []), (50, 4, el NS_ASSERTION ''AttributeStatement'' []),
      (51, 50, el NS_ASSERTION ''Attribute'' [att ''Name'' ''sid'']), (52, 51, el NS_ASSERTION ''AttributeValue'' []),
      (53, 52, XText ''S-1-5-7'')]"

definition sample_doc :: xml_doc where
  "sample_doc =
     \<lparr> xd_kind = (\<lambda>n. map_option snd (map_of sample_nodes n)),
       xd_children = (\<lambda>n. map fst (filter (\<lambda>(_, p, _). p = n) sample_nodes)),
       xd_parent = (\<lambda>n. map_option fst (map_of sample_nodes n)),
       xd_descendants = (\<lambda>n. map fst sample_nodes), xd_root = 0, xd_document_element = Some 1 \<rparr>"

definition sample_saml_lib :: saml_lib where
  "sample_saml_lib =
     \<lparr> xl_parse = (\<lambda>_. Ok sample_doc), xl_b64_decode = (\<lambda>_. Ok []), xl_b64_encode = (\<lambda>_. []), xl_deflate = (\<lambda>b. b),
       xl_form_pair = (\<lambda>k v. k @ ''='' @ v), xl_load_cert = (\<lambda>_. Ok 0),
       xl_verify_all = (\<lambda>_ _. Ok [VValid 7 [Some 4] True]), xl_hmac = (\<lambda>_ _. [7]) \<rparr>"

definition sample_sp :: service_provider where
  "sample_sp =
     \<lparr> sp_idp = \<lparr> i_entity_id = ''idp'', i_sso_url = ''https://idp'', i_certs = [[1]] \<rparr>, sp_entity_id = ''sp'',
       sp_acs_url = ''acs'', sp_sid_attribute = ''sid'', sp_skew = 0, sp_flow_key = [], sp_spent = [] \<rparr>"

definition sample_flow :: "string option" where
  "sample_flow = Some ''_r.1767323300.07''"

lemma sample_flow_request: "flow_request sample_saml_lib sample_sp sample_flow 1767323050 = Ok ''_r''"
  by code_simp

lemma sample_plain: "plain sample_doc = Ok ()"
  by code_simp

lemma sample_decode: "decode_response sample_saml_lib [] = Ok sample_doc"
  using sample_plain by (simp add: decode_response_def sample_saml_lib_def from_utf8_def)

lemma sample_root: "check_root sample_sp sample_doc ''_r'' = Ok 1"
  by code_simp

lemma sample_assertion: "the_assertion sample_doc 1 = Ok 4"
  by code_simp

lemma sample_signatures: "check_signatures sample_saml_lib sample_sp sample_doc 1 4 = Ok ()"
  by code_simp

lemma sample_checked:
  "check_assertion sample_sp sample_doc 4 ''_r'' 1767323050 =
     Ok (\<lparr> v_sid = ''S-1-5-7'', v_name_id = None \<rparr>, ''_a'', 1767323345)"
  by code_simp

lemma sample_spend: "is_ok (fst (spend sample_sp ''_r'' ''_a'' 1767323345 1767323050))"
  by (simp add: spend_def sample_sp_def MAX_SPENT_def)

lemma sample_accepted:
  "fst (saml_accept sample_saml_lib sample_sp [] sample_flow 1767323050) = Ok \<lparr> v_sid = ''S-1-5-7'', v_name_id = None \<rparr>"
  using sample_spend
  by (cases "spend sample_sp ''_r'' ''_a'' 1767323345 1767323050")
     (auto simp: saml_accept_def check_response_def sample_flow_request sample_decode sample_root sample_assertion
       sample_signatures sample_checked is_ok_iff simp del: One_nat_def)

lemma sample_accepts:
  "saml_accept sample_saml_lib sample_sp [] sample_flow 1767323050 =
     (Ok \<lparr> v_sid = ''S-1-5-7'', v_name_id = None \<rparr>, snd (saml_accept sample_saml_lib sample_sp [] sample_flow 1767323050))"
  using sample_accepted by (simp add: prod_eq_iff)

section \<open>Acceptance\<close>

lemma check_response_Ok:
  assumes "check_response lib sp resp flow now = Ok (v, rid, aid, e)"
  obtains d root a until u where
    "flow_request lib sp flow now = Ok rid" "decode_response lib resp = Ok d" "xd_document_element d = Some root"
    "attr d root ''InResponseTo'' = Some rid" "check_root sp d rid = Ok root" "the_assertion d root = Ok a"
    "check_signatures lib sp d root a = Ok ()" "attr d a ''ID'' = Some aid"
    "check_subject sp d a rid now = Ok (v_name_id v, u)" "check_conditions sp d a now = Ok until"
    "read_sid sp d a = Ok (v_sid v)" "u \<le> e"
proof -
  obtain d root a where s: "flow_request lib sp flow now = Ok rid" "decode_response lib resp = Ok d"
      "check_root sp d rid = Ok root" "the_assertion d root = Ok a" "check_signatures lib sp d root a = Ok ()"
      "check_assertion sp d a rid now = Ok (v, aid, e)"
    using assms by (auto simp: check_response_def and_then_Ok)
  have r: "xd_document_element d = Some root" "attr d root ''InResponseTo'' = Some rid"
    using s(3) by (auto simp: check_root_def and_then_Ok refuse_def split: option.splits)
  obtain n u until sid where c: "check_issuer sp d a now = Ok aid" "check_subject sp d a rid now = Ok (n, u)"
      "check_conditions sp d a now = Ok until" "read_sid sp d a = Ok sid" "v = \<lparr> v_sid = sid, v_name_id = n \<rparr>"
      "e = (case until of Some c \<Rightarrow> max c u | None \<Rightarrow> u)"
    using s(6) by (auto simp: check_assertion_def and_then_Ok)
  have "attr d a ''ID'' = Some aid"
    using c(1) by (auto simp: check_issuer_def and_then_Ok refuse_def split: option.splits)
  moreover have "u \<le> e" using c(6) by (auto split: option.splits)
  ultimately show thesis using that s r c by simp
qed

lemma saml_accept_Ok:
  assumes "saml_accept lib sp resp flow now = (Ok v, sp')"
  obtains rid aid e where "check_response lib sp resp flow now = Ok (v, rid, aid, e)" "spend sp rid aid e now = (Ok (), sp')"
  using assms by (auto simp: saml_accept_def split: sum.splits prod.splits)

text \<open>The one assertion of the response, wherever in the document one could stand.\<close>

definition sole_assertion :: "xml_doc \<Rightarrow> nat \<Rightarrow> nat \<Rightarrow> bool" where
  "sole_assertion d root a \<longleftrightarrow>
     children_named d root NS_ASSERTION ''Assertion'' = [a] \<and>
     length (filter (\<lambda>n. is_el d n NS_ASSERTION ''Assertion'') (xd_descendants d root)) = 1"

lemma the_assertion_sole: "the_assertion d root = Ok a \<Longrightarrow> sole_assertion d root a"
  by (auto simp: the_assertion_def sole_assertion_def and_then_Ok refuse_def split: list.splits)

text \<open>
  C5: An accepted response answers the request this browser started, its one assertion is covered
  by a signature that verifies under a certificate of the identity provider's metadata, every other
  signature in it verifies and covers what it is placed in, the assertion is addressed to this proxy
  for that request and in time, names this proxy as audience, and the SID handed on is the one the
  signed assertion carries.
\<close>

theorem accept_sound:
  assumes "saml_accept lib sp resp flow now = (Ok v, sp')"
  shows "\<exists>rid d root a until.
    flow_request lib sp flow now = Ok rid \<and> decode_response lib resp = Ok d \<and>
    xd_document_element d = Some root \<and> attr d root ''InResponseTo'' = Some rid \<and> sole_assertion d root a \<and>
    (\<exists>s. xd_parent d s = Some a \<and> verified_by lib sp d s a) \<and>
    list_all (\<lambda>s. case xd_parent d s of Some n \<Rightarrow> n \<in> {root, a} \<and> verified_by lib sp d s n | None \<Rightarrow> False)
      (filter (\<lambda>n. is_el d n NS_DSIG ''Signature'') (xd_descendants d root)) \<and>
    confirms sp d a rid now until \<and> for_us sp d a \<and> read_sid sp d a = Ok (v_sid v)"
proof -
  obtain rid aid e where c: "check_response lib sp resp flow now = Ok (v, rid, aid, e)"
    using saml_accept_Ok [OF assms] by blast
  obtain d root a until u where r:
    "flow_request lib sp flow now = Ok rid" "decode_response lib resp = Ok d" "xd_document_element d = Some root"
    "attr d root ''InResponseTo'' = Some rid" "the_assertion d root = Ok a"
    "check_signatures lib sp d root a = Ok ()"
    "check_subject sp d a rid now = Ok (v_name_id v, u)" "check_conditions sp d a now = Ok until"
    "read_sid sp d a = Ok (v_sid v)"
    by (rule check_response_Ok [OF c])
  have "list_all (\<lambda>s. case xd_parent d s of Some n \<Rightarrow> n \<in> {root, a} \<and> verified_by lib sp d s n | None \<Rightarrow> False)
      (filter (\<lambda>n. is_el d n NS_DSIG ''Signature'') (xd_descendants d root))"
    unfolding list_all_iff using check_signatures_sound(2) [OF r(6)] by fastforce
  then show ?thesis
    using r the_assertion_sole [OF r(5)] check_signatures_sound(1) [OF r(6)] check_subject_confirms [OF r(7)]
      check_conditions_for_us [OF r(8)] by blast
qed

theorem accept_sound_witness:
  "\<exists>d a. decode_response sample_saml_lib [] = Ok d \<and> for_us sample_sp d a \<and> read_sid sample_sp d a = Ok ''S-1-5-7'' \<and>
     (\<exists>s. xd_parent d s = Some a \<and> verified_by sample_saml_lib sample_sp d s a)"
  using accept_sound [OF sample_accepts] by auto

section \<open>No response is accepted twice\<close>

lemma check_response_spent [simp]:
  "check_response lib (sp\<lparr>sp_spent := x\<rparr>) resp flow now = check_response lib sp resp flow now"
proof -
  let ?s = "sp\<lparr>sp_spent := x\<rparr>"
  have "flow_request lib ?s flow now = flow_request lib sp flow now"
    by (simp add: flow_request_def split: option.split prod.split)
  moreover have "check_root ?s = check_root sp" by (intro ext) (simp add: check_root_def cong: option.case_cong list.case_cong)
  moreover have "check_signatures lib ?s = check_signatures lib sp" by (intro ext) (simp add: check_signatures_def cong: option.case_cong list.case_cong)
  moreover have "check_issuer ?s = check_issuer sp" by (intro ext) (simp add: check_issuer_def cong: option.case_cong list.case_cong)
  moreover have "confirm_one ?s = confirm_one sp" by (intro ext) (simp add: confirm_one_def cong: option.case_cong list.case_cong)
  moreover have "check_condition ?s = check_condition sp" by (intro ext) (simp add: check_condition_def cong: option.case_cong list.case_cong)
  moreover have "read_sid ?s = read_sid sp" by (intro ext) (simp add: read_sid_def sid_attributes_def cong: option.case_cong list.case_cong)
  ultimately show ?thesis
    by (simp add: check_response_def check_assertion_def check_subject_def check_conditions_def cong: option.case_cong)
qed

definition accepts :: "saml_lib \<Rightarrow> service_provider \<Rightarrow> (string \<times> string option \<times> int) list \<Rightarrow> service_provider" where
  "accepts lib sp calls = foldl (\<lambda>s (resp, flow, t). snd (saml_accept lib s resp flow t)) sp calls"

lemma accept_same: "\<exists>x. snd (saml_accept lib sp resp flow t) = sp\<lparr>sp_spent := x\<rparr>"
proof -
  have "\<exists>x. snd (spend sp rid aid e t) = sp\<lparr>sp_spent := x\<rparr>" for rid aid e
    by (simp add: spend_def Let_def) blast
  moreover have "\<exists>x. sp = sp\<lparr>sp_spent := x\<rparr>" by (rule exI [of _ "sp_spent sp"]) simp
  ultimately show ?thesis
    by (auto simp: saml_accept_def split: sum.splits prod.splits) (metis snd_conv)+
qed

lemma accepts_same: "\<exists>x. accepts lib sp calls = sp\<lparr>sp_spent := x\<rparr>"
proof (induction calls rule: rev_induct)
  case Nil
  show ?case by (rule exI [of _ "sp_spent sp"]) (simp add: accepts_def)
next
  case (snoc c calls)
  obtain resp flow t where c: "c = (resp, flow, t)" by (cases c)
  obtain x where x: "accepts lib sp calls = sp\<lparr>sp_spent := x\<rparr>" using snoc by blast
  obtain y where "snd (saml_accept lib (sp\<lparr>sp_spent := x\<rparr>) resp flow t) = sp\<lparr>sp_spent := x\<rparr>\<lparr>sp_spent := y\<rparr>"
    using accept_same by blast
  then have "accepts lib sp (calls @ [c]) = sp\<lparr>sp_spent := y\<rparr>" using x c by (simp add: accepts_def)
  then show ?case by blast
qed

lemma map_of_filter_until:
  "map_of xs k = Some u \<Longrightarrow> u > t \<Longrightarrow> map_of (filter (\<lambda>(_, until). until > t) xs) k = Some u \<or>
   \<not> distinct (map fst xs)"
  by (induction xs) (auto simp: weak_map_of_SomeI split: if_splits)

definition spent_ok :: "service_provider \<Rightarrow> bool" where
  "spent_ok sp \<longleftrightarrow> distinct (map fst (sp_spent sp)) \<and> length (sp_spent sp) \<le> MAX_SPENT"

lemma length_update: "length (AList.update k v xs) \<le> Suc (length xs)"
  by (induction xs) auto

lemma distinct_filter_fst: "distinct (map fst xs) \<Longrightarrow> distinct (map fst (filter P xs))"
  by (rule distinct_map_filter)

lemma spend_ok: "spent_ok sp \<Longrightarrow> spent_ok (snd (spend sp rid aid e t))"
proof -
  assume ok: "spent_ok sp"
  let ?s = "filter (\<lambda>(_, until). until > t) (sp_spent sp)"
  have d: "distinct (map fst ?s)" "length ?s \<le> MAX_SPENT"
    using ok order_trans [OF length_filter_le] by (auto simp: spent_ok_def distinct_filter_fst)
  have l: "length (AList.update k v (AList.update k' v' ?s)) \<le> MAX_SPENT" if "\<not> length ?s + 2 > MAX_SPENT" for k v k' v'
    using length_update [of k v "AList.update k' v' ?s"] length_update [of k' v' ?s] that by linarith
  show ?thesis using d l by (simp add: spend_def Let_def spent_ok_def distinct_update)
qed

lemma accept_ok: "spent_ok sp \<Longrightarrow> spent_ok (snd (saml_accept lib sp resp flow t))"
  using spend_ok [of sp] by (auto simp: saml_accept_def split: sum.splits prod.splits) (metis snd_conv)+

lemma accepts_ok: "spent_ok sp \<Longrightarrow> spent_ok (accepts lib sp calls)"
  by (induction calls rule: rev_induct) (auto simp: accepts_def accept_ok)

text \<open>
  Whatever responses arrive, the table of spent identifiers never holds more than its limit, and
  holds each identifier once.
\<close>

theorem spent_bounded:
  "length (sp_spent (accepts lib (sp_new cfg i key) calls)) \<le> MAX_SPENT \<and>
   distinct (map fst (sp_spent (accepts lib (sp_new cfg i key) calls)))"
proof -
  have "spent_ok (sp_new cfg i key)" by (simp add: spent_ok_def sp_new_def)
  then show ?thesis using accepts_ok by (simp add: spent_ok_def)
qed

text \<open>A key stays in the table with its time until that time.\<close>

definition holds_until :: "string \<Rightarrow> int \<Rightarrow> int \<Rightarrow> service_provider \<Rightarrow> bool" where
  "holds_until k u t sp \<longleftrightarrow> spent_ok sp \<and> (u > t \<longrightarrow> map_of (sp_spent sp) k = Some u)"

lemma spend_holds:
  assumes "holds_until k u t sp" "t \<le> t'"
  shows "holds_until k u t' (snd (spend sp rid aid e t'))"
proof -
  let ?s = "filter (\<lambda>(_, until). until > t') (sp_spent sp)"
  have m: "map_of ?s k = Some u" if "u > t'"
    using map_of_filter_until [of "sp_spent sp" k u t'] assms that by (auto simp: holds_until_def spent_ok_def)
  then have "k \<in> set (map fst ?s)" if "u > t'"
    using that by (metis image_set map_of_eq_None_iff option.distinct(1))
  then show ?thesis using m spend_ok [of sp] assms(1)
    by (auto simp: holds_until_def spend_def Let_def update_conv')
qed

lemma accept_holds:
  "holds_until k u t sp \<Longrightarrow> t \<le> t' \<Longrightarrow> holds_until k u t' (snd (saml_accept lib sp resp flow t'))"
  using spend_holds [of k u t sp t'] by (auto simp: saml_accept_def holds_until_def split: sum.splits prod.splits) (metis snd_conv)+

lemma accepts_holds:
  "holds_until k u t sp \<Longrightarrow> sorted (t # map (snd \<circ> snd) calls) \<Longrightarrow>
   holds_until k u (last (t # map (snd \<circ> snd) calls)) (accepts lib sp calls)"
proof (induction calls arbitrary: t sp)
  case (Cons c calls)
  obtain resp flow t' where c: "c = (resp, flow, t')" by (cases c)
  have "holds_until k u t' (snd (saml_accept lib sp resp flow t'))"
    using accept_holds [OF Cons.prems(1)] Cons.prems(2) c by simp
  from Cons.IH [OF this] show ?case using Cons.prems(2) c by (simp add: accepts_def)
qed (simp add: accepts_def)

lemma same_response:
  assumes "check_response lib sp resp f1 t1 = Ok (v1, rid1, aid1, e1)"
    and "check_response lib sp resp f2 t2 = Ok (v2, rid2, aid2, e2)" and "t1 \<le> t2"
  shows "aid2 = aid1" "t2 < e1 + sp_skew sp"
proof -
  obtain d root a un1 u1 where r1:
    "decode_response lib resp = Ok d" "xd_document_element d = Some root" "attr d root ''InResponseTo'' = Some rid1"
    "the_assertion d root = Ok a" "attr d a ''ID'' = Some aid1" "check_subject sp d a rid1 t1 = Ok (v_name_id v1, u1)" "u1 \<le> e1"
    by (rule check_response_Ok [OF assms(1)])
  obtain d' root' a' un2 u2 where r2:
    "decode_response lib resp = Ok d'" "xd_document_element d' = Some root'" "attr d' root' ''InResponseTo'' = Some rid2"
    "the_assertion d' root' = Ok a'" "attr d' a' ''ID'' = Some aid2" "check_subject sp d' a' rid2 t2 = Ok (v_name_id v2, u2)"
    by (rule check_response_Ok [OF assms(2)])
  have eq: "d' = d" "root' = root" "a' = a" "rid2 = rid1" using r1 r2 by auto
  show "aid2 = aid1" using r1(5) r2(5) eq by simp
  have "u2 \<le> u1" using check_subject_later [OF r1(6)] r2(6) eq assms(3) by blast
  moreover have "t2 < u2 + sp_skew sp" using check_subject_confirms [OF r2(6)] by (auto simp: confirms_def)
  ultimately show "t2 < e1 + sp_skew sp" using r1(7) by linarith
qed

text \<open>
  C14: A response is accepted at most once. After one was accepted, the same response is refused at
  every later time, with any flow cookie, whatever other responses arrive in between, even once its
  entry has left the table.
\<close>

theorem response_once:
  assumes "saml_accept lib sp resp f1 t1 = (Ok v, sp1)" and "spent_ok sp"
    and "sorted (t1 # map (snd \<circ> snd) calls @ [t2])"
  shows "\<not> is_ok (fst (saml_accept lib (accepts lib sp1 calls) resp f2 t2))"
proof
  assume "is_ok (fst (saml_accept lib (accepts lib sp1 calls) resp f2 t2))"
  then obtain v2 sp2 where acc2: "saml_accept lib (accepts lib sp1 calls) resp f2 t2 = (Ok v2, sp2)"
    by (auto simp: is_ok_iff) (metis prod.collapse)
  obtain rid aid e where c1: "check_response lib sp resp f1 t1 = Ok (v, rid, aid, e)" "spend sp rid aid e t1 = (Ok (), sp1)"
    using saml_accept_Ok [OF assms(1)] by blast
  obtain rid2 aid2 e2 where c2: "check_response lib (accepts lib sp1 calls) resp f2 t2 = Ok (v2, rid2, aid2, e2)"
      "spend (accepts lib sp1 calls) rid2 aid2 e2 t2 = (Ok (), sp2)"
    using saml_accept_Ok [OF acc2] by blast
  have "t1 \<le> t2" using assms(3) by simp
  obtain x where x: "sp1 = sp\<lparr>sp_spent := x\<rparr>" using accept_same [of lib sp resp f1 t1] assms(1) by auto
  obtain y where "accepts lib sp1 calls = sp1\<lparr>sp_spent := y\<rparr>" using accepts_same by blast
  then have "check_response lib sp resp f2 t2 = Ok (v2, rid2, aid2, e2)" using c2(1) x by simp
  note s = same_response [OF c1(1) this \<open>t1 \<le> t2\<close>]
  let ?u = "max e (t1 + FLOW_SECS) + sp_skew sp"
  have h: "holds_until (''a:'' @ aid) ?u t1 sp1"
    using c1(2) spend_ok [OF assms(2), of rid aid e t1]
    by (auto simp: spend_def Let_def holds_until_def refuse_def update_conv' split: if_splits)
  let ?t = "last (t1 # map (snd \<circ> snd) calls)"
  have t: "?t \<le> t2" using assms(3) by (cases calls rule: rev_cases) (auto simp: sorted_append)
  have "holds_until (''a:'' @ aid) ?u ?t (accepts lib sp1 calls)"
    using accepts_holds [OF h] assms(3) by (simp add: sorted_append)
  moreover have "?u > t2" using s(2) by linarith
  ultimately have m: "map_of (sp_spent (accepts lib sp1 calls)) (''a:'' @ aid) = Some ?u" "distinct (map fst (sp_spent (accepts lib sp1 calls)))"
    using t by (auto simp: holds_until_def spent_ok_def)
  have "map_of (filter (\<lambda>(_, until). until > t2) (sp_spent (accepts lib sp1 calls))) (''a:'' @ aid) = Some ?u"
    using map_of_filter_until [OF m(1) \<open>?u > t2\<close>] m(2) by blast
  then have "''a:'' @ aid2 \<in> set (map fst (filter (\<lambda>(_, until). until > t2) (sp_spent (accepts lib sp1 calls))))"
    using s(1) by (metis image_set map_of_eq_None_iff option.distinct(1))
  then show False using c2(2) by (auto simp: spend_def Let_def refuse_def)
qed

theorem response_once_witness:
  "\<not> is_ok (fst (saml_accept sample_saml_lib
      (accepts sample_saml_lib (snd (saml_accept sample_saml_lib sample_sp [] sample_flow 1767323050)) [([], None, 1767323060)])
      [] sample_flow 1767323070))"
proof -
  have "spent_ok sample_sp" by (simp add: spent_ok_def sample_sp_def)
  then show ?thesis by (rule response_once [OF sample_accepts]) simp
qed

section \<open>The flow cookie\<close>

lemma hex_char_hexdigit: "n < 16 \<Longrightarrow> is_hexdigit (hex_char n)"
  by (simp add: is_hexdigit_def)

lemma hex_bytes_hex: "hex_bytes (hex bs) = Some bs"
proof -
  have "even (length (hex bs))" "list_all is_hexdigit (hex bs)" "unhex_pairs (hex bs) = Some bs"
    by (induction bs) (simp_all add: hex_def hex2_def hex_char_hexdigit nibbles radix16_hex2)
  then show ?thesis by (simp add: hex_bytes_def)
qed

lemma hexdigit_no_dot: "list_all is_hexdigit s \<Longrightarrow> CHR ''.'' \<notin> set s"
proof -
  have "\<not> is_hexdigit CHR ''.''" by code_simp
  then show "list_all is_hexdigit s \<Longrightarrow> ?thesis" by (auto simp: list_all_iff)
qed

lemma show_int_no_dot: "CHR ''.'' \<notin> set (show_int n)"
proof -
  have "\<not> is_digit CHR ''.''" by code_simp
  then show ?thesis using show_nat_digits by (auto simp: show_int_def)
qed

lemma flow_parts_join:
  "CHR ''.'' \<notin> set e \<Longrightarrow> CHR ''.'' \<notin> set m \<Longrightarrow> flow_parts (rid @ CHR ''.'' # e @ CHR ''.'' # m) = Some (rid, e, m)"
  using rsplit_once_append [of "CHR ''.''" m "rid @ CHR ''.'' # e"] by (simp add: flow_parts_def rsplit_once_append)

text \<open>
  A sign-in this browser started is recognised by its flow cookie for five minutes, and not a
  moment longer; and whatever cookie is presented, the request it names carries this proxy's own
  keyed hash over that name and an expiry still to come.
\<close>

theorem flow_cookie_exact:
  assumes "i64_range (now + FLOW_SECS)"
  shows "flow_request lib sp (Some (snd (saml_start lib sp token now))) t =
      (if t < now + FLOW_SECS then Ok (CHR ''_'' # take 40 token) else Err (Refused LOST)) \<and>
    (flow_request lib sp (Some cookie) t = Ok rid \<longrightarrow>
      (\<exists>expires ex mac. cookie = rid @ ''.'' @ ex @ ''.'' @ mac \<and> parse_i64 ex = Some expires \<and> t < expires \<and>
         hex_bytes mac = Some (xl_hmac lib (sp_flow_key sp) (flow_signed rid expires))))"
proof
  let ?rid = "CHR ''_'' # take 40 token" and ?e = "now + FLOW_SECS"
  let ?mac = "hex (xl_hmac lib (sp_flow_key sp) (flow_signed ?rid ?e))"
  have "list_all is_hexdigit ?mac"
    using hex_bytes_hex [of "xl_hmac lib (sp_flow_key sp) (flow_signed ?rid ?e)"] by (simp add: hex_bytes_def split: if_splits)
  then have "flow_parts (?rid @ CHR ''.'' # show_int ?e @ CHR ''.'' # ?mac) = Some (?rid, show_int ?e, ?mac)"
    by (intro flow_parts_join show_int_no_dot hexdigit_no_dot)
  then show "flow_request lib sp (Some (snd (saml_start lib sp token now))) t =
      (if t < ?e then Ok ?rid else Err (Refused LOST))"
    using assms by (simp add: saml_start_def Let_def flow_request_def flow_mac_def hex_bytes_hex refuse_def)
next
  show "flow_request lib sp (Some cookie) t = Ok rid \<longrightarrow>
      (\<exists>expires ex mac. cookie = rid @ ''.'' @ ex @ ''.'' @ mac \<and> parse_i64 ex = Some expires \<and> t < expires \<and>
         hex_bytes mac = Some (xl_hmac lib (sp_flow_key sp) (flow_signed rid expires)))"
  proof
    assume "flow_request lib sp (Some cookie) t = Ok rid"
    then obtain ex mac expires where f: "flow_parts cookie = Some (rid, ex, mac)" "parse_i64 ex = Some expires" "t < expires"
        "hex_bytes mac = Some (xl_hmac lib (sp_flow_key sp) (flow_signed rid expires))"
      by (auto simp: flow_request_def refuse_def split: option.splits if_splits)
    obtain rest where rest: "rsplit_once CHR ''.'' cookie = Some (rest, mac)" "rsplit_once CHR ''.'' rest = Some (rid, ex)"
      using f(1) by (auto simp: flow_parts_def split: option.splits)
    then have "cookie = rid @ ''.'' @ ex @ ''.'' @ mac"
      using rsplit_once_Some [OF rest(1)] rsplit_once_Some [OF rest(2)] by simp
    then show "\<exists>expires ex mac. cookie = rid @ ''.'' @ ex @ ''.'' @ mac \<and> parse_i64 ex = Some expires \<and> t < expires \<and>
         hex_bytes mac = Some (xl_hmac lib (sp_flow_key sp) (flow_signed rid expires))" using f by blast
  qed
qed

theorem flow_cookie_exact_witness:
  "flow_request sample_saml_lib sample_sp (Some (snd (saml_start sample_saml_lib sample_sp ''abc'' 1000))) 1299 = Ok ''_abc''"
  using flow_cookie_exact [of 1000 sample_saml_lib sample_sp "''abc''" 1299]
  by (simp add: i64_range_def FLOW_SECS_def)

end
