(* ===== verification/WA_Sso_Props.thy ===== *)
theory WA_Sso_Props
  imports WA_Signin_Props WA_Saml_Props
begin

text \<open>
  Single sign-on from the identity provider's response to the session it makes: what \<open>WA_Saml_Props\<close>
  shows of an accepted response, what \<open>WA_Directory\<close> shows of an account read by its SID and what
  \<open>WA_Signin_Props\<close> shows of a recorded sign-in, put together.
\<close>

lemma accept_response_Ok:
  "accept_response lib now sp resp flow a = (Ok r, a') \<Longrightarrow>
     fst (saml_accept (l_saml lib) sp resp flow now) = r"
  by (auto simp: accept_response_def split: prod.splits)

lemma ask_sid_Ok:
  "ask_sid lib ld now d pw sid a = (Ok r, a') \<Longrightarrow> r = fst (lookup_by_sid (l_lower lib) ld now d pw sid)"
  by (auto simp: ask_sid_def split: prod.splits)

lemma vouched_account_Ok:
  assumes "vouched_account lib ld now who sid password a = (Ok acc, a')"
  shows "usable acc \<and> canonical_sid sid = Some (a_sid acc) \<and>
    (\<exists>d pw. lookup_directory a = Some d \<and> password = Ok (Some pw) \<and>
       fst (lookup_by_sid (l_lower lib) ld now d pw sid) = Ok (Some acc))"
proof -
  have "\<exists>d pw. lookup_directory a = Some d \<and> password = Ok (Some pw) \<and> usable acc \<and>
      fst (lookup_by_sid (l_lower lib) ld now d pw sid) = Ok (Some acc)"
    using assms unfolding vouched_account_def
    by (elim act_bind_OkE) (auto dest!: ask_sid_Ok split: sum.splits option.splits if_splits)
  then show ?thesis
    using lookup_by_sid_exact [of "l_lower lib" ld now _ _ sid acc] by (metis prod.collapse)
qed

lemma sso_finish_Ok:
  assumes "sso_finish lib ld si mid2 g password v b = (Ok cookie, a')"
  shows "\<exists>acc i. app_generation a' = g \<and> usable acc \<and> canonical_sid (v_sid v) = Some (a_sid acc) \<and>
    (\<exists>d pw. fst (lookup_by_sid (l_lower lib) ld (si_now si) d pw (v_sid v)) = Ok (Some acc)) \<and>
    session_for (app_store a') (token_hash (l_sha256 lib) (si_token si)) i (si_now si) \<and>
    row_of (app_store a') i (\<lambda>r. ur_sid r = Some (a_sid acc))"
proof -
  have "\<exists>who acc b2 b3 u t e l b4 b5 detail.
      vouched_account lib ld (si_now si) who (v_sid v) password b = (Ok acc, b2) \<and>
      app_generation (mid2 b2) = g \<and> finish_directory si acc (mid2 b2) = (Ok u, b3) \<and>
      start_session lib si u b3 = (Ok (t, e, l), b4) \<and> purge_sessions (si_now si) b4 = (Ok (), b5) \<and>
      a' = b5\<lparr>app_store := audit (app_store b5) (si_now si) (u_username u) ''signin'' detail\<rparr>"
    using assms unfolding sso_finish_def Let_def
    by (elim act_bind_OkE) (clarsimp simp: log_audit_Ok elim!: act_bind_OkE; blast)
  then obtain who acc b2 b3 u t e l b4 b5 detail where s:
      "vouched_account lib ld (si_now si) who (v_sid v) password b = (Ok acc, b2)"
      "app_generation (mid2 b2) = g" "finish_directory si acc (mid2 b2) = (Ok u, b3)"
      "start_session lib si u b3 = (Ok (t, e, l), b4)" "purge_sessions (si_now si) b4 = (Ok (), b5)"
      "a' = b5\<lparr>app_store := audit (app_store b5) (si_now si) (u_username u) ''signin'' detail\<rparr>"
    by blast
  note steps = finish_directory_Ok [OF s(3)] start_session_Ok [OF s(4)] purge_keeps [OF s(5)]
  have "row_of (app_store a') (u_id u) (\<lambda>r. ur_sid r = Some (a_sid acc))"
    using steps s(6) by (auto simp: row_of_def)
  moreover have "session_for (app_store a') (token_hash (l_sha256 lib) (si_token si)) (u_id u) (si_now si)"
    using steps s(6) by auto
  moreover have "app_generation a' = g" using steps s(2,6) by auto
  ultimately show ?thesis using vouched_account_Ok [OF s(1)] by metis
qed

text \<open>
  C13: A single sign-on that succeeds rests on a response the identity provider signed for this
  browser's flow cookie, and on a directory account, in use, that has the very SID the response
  names; the session made is for a row bound to that SID. This holds whatever the rest of the
  proxy did meanwhile, and the database is still the one the sign-in began with.
\<close>

theorem sso_sound:
  assumes "sso_sign_in lib ld si mid1 mid2 rq resp a = (Ok cookie, a')"
  shows "app_generation a' = app_generation a \<and>
    (\<exists>sp v acc i. app_saml (mid1 a) = Some sp \<and>
       fst (saml_accept (l_saml lib) sp resp (find_map (\<lambda>h. cookie_value h FLOW_COOKIE) (rq_cookies rq)) (si_now si)) = Ok v \<and>
       usable acc \<and> canonical_sid (v_sid v) = Some (a_sid acc) \<and>
       (\<exists>d pw. fst (lookup_by_sid (l_lower lib) ld (si_now si) d pw (v_sid v)) = Ok (Some acc)) \<and>
       session_for (app_store a') (token_hash (l_sha256 lib) (si_token si)) i (si_now si) \<and>
       row_of (app_store a') i (\<lambda>r. ur_sid r = Some (a_sid acc)))"
proof -
  let ?flow = "find_map (\<lambda>h. cookie_value h FLOW_COOKIE) (rq_cookies rq)"
  have "\<exists>sp v password b1. app_saml (mid1 a) = Some sp \<and>
      accept_response lib (si_now si) sp resp ?flow (mid1 a) = (Ok (Ok v), b1) \<and>
      sso_finish lib ld si mid2 (app_generation a) password v b1 = (Ok cookie, a')"
    using assms unfolding sso_sign_in_def Let_def
    by (elim act_bind_OkE) (clarsimp elim!: act_bind_OkE split: sum.splits; blast)
  then obtain sp v password b1 where s: "app_saml (mid1 a) = Some sp"
      "accept_response lib (si_now si) sp resp ?flow (mid1 a) = (Ok (Ok v), b1)"
      "sso_finish lib ld si mid2 (app_generation a) password v b1 = (Ok cookie, a')"
    by blast
  show ?thesis using s(1) accept_response_Ok [OF s(2)] sso_finish_Ok [OF s(3)] by fastforce
qed

definition sample_sso_app :: app where
  "sample_sso_app = sample_app\<lparr>app_saml := Some sample_sp,
     app_store := sample_app_store\<lparr>meta := (meta sample_app_store)
       (META_DIRECTORY_PASSWORD \<mapsto> replicate NONCE_LEN 4 @ AAD_DIRECTORY_PASSWORD @ bytes_of ''secret'')\<rparr>\<rparr>"

definition sample_acs_request :: http_request where
  "sample_acs_request =
     \<lparr> rq_method = ''POST'', rq_path = SSO_POST, rq_host = Some ''proxy'', rq_origin = Some ''https://idp'',
       rq_cookies = [''wa_saml=_r.1767323300.07''], rq_instance = None, rq_upgrade = None, rq_ws_key = None,
       rq_accept_encoding = [], rq_if_none_match = [], rq_body_length = 10 \<rparr>"

lemma sample_sso_finish:
  "is_ok (fst (sso_finish (sample_libs\<lparr>l_saml := sample_saml_lib\<rparr>) sample_ldap (sample_signin\<lparr>si_now := 1767323050\<rparr>) id 0
      (directory_password sample_crypto sample_sso_app) \<lparr> v_sid = ''S-1-5-7'', v_name_id = None \<rparr>
      (sample_sso_app\<lparr>app_saml := sp\<rparr>)))"
  by code_simp

lemma sample_sso:
  "is_ok (fst (sso_sign_in (sample_libs\<lparr>l_saml := sample_saml_lib\<rparr>) sample_ldap (sample_signin\<lparr>si_now := 1767323050\<rparr>) id id
      sample_acs_request [] sample_sso_app))"
proof -
  have "find_map (\<lambda>h. cookie_value h FLOW_COOKIE) (rq_cookies sample_acs_request) = sample_flow" by code_simp
  moreover have "app_saml sample_sso_app = Some sample_sp" "app_generation sample_sso_app = 0" "l_crypto sample_libs = sample_crypto"
    by (simp_all add: sample_sso_app_def sample_app_def from_parts_def sample_libs_def)
  ultimately show ?thesis
    using sample_sso_finish sample_accepted
    by (simp add: sso_sign_in_def act_bind_def accept_response_def Let_def split_def)
qed

theorem sso_sound_witness:
  "\<exists>i. session_for (app_store (snd (sso_sign_in (sample_libs\<lparr>l_saml := sample_saml_lib\<rparr>) sample_ldap
          (sample_signin\<lparr>si_now := 1767323050\<rparr>) id id sample_acs_request [] sample_sso_app)))
        (token_hash (l_sha256 sample_libs) ''tok'') i 1767323050"
proof -
  obtain c a' where l: "sso_sign_in (sample_libs\<lparr>l_saml := sample_saml_lib\<rparr>) sample_ldap
      (sample_signin\<lparr>si_now := 1767323050\<rparr>) id id sample_acs_request [] sample_sso_app = (Ok c, a')"
    using sample_sso by (auto simp: is_ok_iff) (metis prod.collapse)
  show ?thesis using sso_sound [OF l] l by (auto simp: sample_signin_def)
qed

end
