(* ===== verification/WA_Connect_Props.thy ===== *)
theory WA_Connect_Props
  imports WA_Signin_Props
begin

text \<open>
  What a signed-in user gets: the page lists exactly the servers policy permits, in order and group
  by group; a saved credential comes back as it was saved, with a ticket that opens the server it
  is for; and a page of another origin changes nothing.
\<close>

section \<open>The list\<close>

definition flat_groups :: "listed_group list \<Rightarrow> (string option \<times> listed_item) list" where
  "flat_groups gs = concat (map (\<lambda>g. map (Pair (lg_name g)) (lg_servers g)) gs)"

lemma flat_groups_append [simp]: "flat_groups (gs @ hs) = flat_groups gs @ flat_groups hs"
  by (simp add: flat_groups_def)

lemma flat_groups_push: "flat_groups (group_push n i gs) = flat_groups gs @ [(n, i)]"
proof (cases gs rule: rev_cases)
  case (snoc hs g)
  then show ?thesis by (simp add: group_push_def flat_groups_def)
qed (simp add: group_push_def flat_groups_def)

definition groups_ok :: "listed_group list \<Rightarrow> bool" where
  "groups_ok gs \<longleftrightarrow> distinct_adj (map lg_name gs) \<and> list_all (\<lambda>g. lg_servers g \<noteq> []) gs"

lemma groups_ok_push: "groups_ok gs \<Longrightarrow> groups_ok (group_push n i gs)"
proof (cases gs rule: rev_cases)
  case (snoc hs g)
  then show "groups_ok gs \<Longrightarrow> ?thesis"
    by (cases "hs = []") (auto simp: groups_ok_def group_push_def distinct_adj_append_iff last_map)
qed (simp add: groups_ok_def group_push_def)

lemma groups_of_Nil [simp]: "groups_of mk [] = []"
  by (simp add: groups_of_def)

lemma groups_of_snoc [simp]:
  "groups_of mk (l @ [x]) = group_push (ls_group_name x) (mk (ls_server x)) (groups_of mk l)"
  by (simp add: groups_of_def)

lemma groups_of_exact:
  "flat_groups (groups_of mk l) = map (\<lambda>x. (ls_group_name x, mk (ls_server x))) l \<and> groups_ok (groups_of mk l)"
proof (induction l rule: rev_induct)
  case (snoc x l)
  then show ?case using flat_groups_push groups_ok_push by simp
qed (simp add: flat_groups_def groups_ok_def)

text \<open>
  C16: The page's list refines the permitted list: read group by group it is the permitted list,
  server for server in the same order under the same group name, with no empty group and no group
  split in two; a server is marked saved exactly when a credential of this user is stored for it,
  and offered for reconnection only while it is not connected. Asking changes nothing.
\<close>

theorem my_servers_refines_permitted:
  assumes "my_servers lib now c a = (Ok gs, a')"
  shows "a' = a \<and> groups_ok gs \<and>
    (\<exists>l. permitted (app_store a) (u_id (cu_user c)) = Ok l \<and>
       map (\<lambda>(g, i). (g, li_id i, li_name i, li_host i, li_domain i)) (flat_groups gs) =
         map (\<lambda>x. (ls_group_name x, s_id (ls_server x), s_name (ls_server x), s_host (ls_server x), s_domain (ls_server x))) l) \<and>
    (\<forall>(g, i) \<in> set (flat_groups gs).
       (li_saved i \<longleftrightarrow> (\<exists>k \<in> set (credentials (app_store a)). cr_user_id k = u_id (cu_user c) \<and> cr_server_id k = li_id i)) \<and>
       (li_connected i \<longleftrightarrow> li_id i \<in> servers_for (app_live a) (u_id (cu_user c))) \<and> (li_reconnect i \<longrightarrow> \<not> li_connected i))"
proof -
  let ?i = "u_id (cu_user c)"
  have "\<exists>l saved recent. permitted (app_store a) ?i = Ok l \<and> saved_server_ids (app_store a) ?i = Ok saved \<and> a' = a \<and>
      gs = groups_of (item_of saved (servers_for (app_live a) ?i) recent) l"
    using assms unfolding my_servers_def Let_def
    by (elim act_bind_OkE) (auto simp: step_Ok)
  then obtain l saved recent where s: "permitted (app_store a) ?i = Ok l" "saved_server_ids (app_store a) ?i = Ok saved" "a' = a"
      "gs = groups_of (item_of saved (servers_for (app_live a) ?i) recent) l"
    by blast
  have "j \<in> saved \<longleftrightarrow> (\<exists>k \<in> set (credentials (app_store a)). cr_user_id k = ?i \<and> cr_server_id k = j)" for j
    using s(2) by (auto simp: saved_server_ids_def stmt_Ok)
  moreover have "flat_groups gs = map (\<lambda>x. (ls_group_name x, item_of saved (servers_for (app_live a) ?i) recent (ls_server x))) l"
      "groups_ok gs"
    using groups_of_exact s(4) by auto
  ultimately show ?thesis using s(1,3) by (simp add: item_of_def comp_def)
qed

theorem my_servers_refines_permitted_witness:
  "\<exists>gs l. my_servers sample_libs 50 \<lparr> cu_user = user_from (sample_user 1 ''alice''), cu_token_hash = [7] \<rparr> sample_app = (Ok gs, sample_app) \<and>
     permitted (app_store sample_app) 1 = Ok l \<and> map fst (flat_groups gs) = map ls_group_name l"
proof -
  let ?c = "\<lparr> cu_user = user_from (sample_user 1 ''alice''), cu_token_hash = [7] \<rparr>"
  have "is_ok (fst (my_servers sample_libs 50 ?c sample_app))" by code_simp
  then obtain gs a' where g: "my_servers sample_libs 50 ?c sample_app = (Ok gs, a')"
    by (auto simp: is_ok_iff) (metis prod.collapse)
  have u: "u_id (cu_user ?c) = 1" by (simp add: user_from_def sample_user_def)
  note r = my_servers_refines_permitted [OF g, unfolded u]
  then obtain l where l: "permitted (app_store sample_app) 1 = Ok l"
      "map (\<lambda>(g, i). (g, li_id i, li_name i, li_host i, li_domain i)) (flat_groups gs) =
         map (\<lambda>x. (ls_group_name x, s_id (ls_server x), s_name (ls_server x), s_host (ls_server x), s_domain (ls_server x))) l"
    by blast
  from arg_cong [OF l(2), of "map fst"] have "map fst (flat_groups gs) = map ls_group_name l"
    by (simp add: comp_def split_def)
  then show ?thesis using l(1) r g by blast
qed

section \<open>Saved credentials\<close>

lemma credential_put_get:
  "credential_put s now u v c = Ok (x, t) \<Longrightarrow> credential_get t u v = stmt t ''credential_get'' (Ok (Some c))"
proof -
  let ?same = "\<lambda>k. cr_user_id k = u \<and> cr_server_id k = v"
  have upd: "List.find ?same (update_where ?same (\<lambda>k. k\<lparr>cr_cred := c, cr_updated := now\<rparr>) ks) =
      map_option (\<lambda>k. k\<lparr>cr_cred := c, cr_updated := now\<rparr>) (List.find ?same ks)" for ks
    by (induction ks) (auto simp: update_where_def)
  have ex: "\<exists>k \<in> set ks. ?same k \<Longrightarrow> \<exists>k. List.find ?same ks = Some k" for ks
    by (induction ks) auto
  have none: "\<not> (\<exists>k \<in> set ks. ?same k) \<Longrightarrow> List.find ?same (ks @ [k]) = (if ?same k then Some k else None)" for ks k
    by (induction ks) auto
  assume "credential_put s now u v c = Ok (x, t)"
  then consider "\<exists>k \<in> set (credentials s). ?same k"
      "t = s\<lparr>credentials := update_where ?same (\<lambda>k. k\<lparr>cr_cred := c, cr_updated := now\<rparr>) (credentials s)\<rparr>"
    | "\<not> (\<exists>k \<in> set (credentials s). ?same k)"
      "t = s\<lparr>credentials := credentials s @ [\<lparr> cr_user_id = u, cr_server_id = v, cr_cred = c, cr_updated = now \<rparr>]\<rparr>"
    unfolding credential_put_def by (simp add: stmt_Ok Let_def split: if_splits)
  then show ?thesis
  proof cases
    case 1
    then show ?thesis using ex [OF 1(1)] by (auto simp: credential_get_def upd)
  next
    case 2
    then show ?thesis by (simp add: credential_get_def none)
  qed
qed

lemma credential_put_only:
  "credential_put s now u v c = Ok (x, t) \<Longrightarrow>
     t = s\<lparr>credentials := credentials t\<rparr> \<and>
     filter (\<lambda>k. \<not> (cr_user_id k = u \<and> cr_server_id k = v)) (credentials t) =
       filter (\<lambda>k. \<not> (cr_user_id k = u \<and> cr_server_id k = v)) (credentials s)"
proof -
  have "filter (\<lambda>k. \<not> (cr_user_id k = u \<and> cr_server_id k = v))
      (update_where (\<lambda>k. cr_user_id k = u \<and> cr_server_id k = v) (\<lambda>k. k\<lparr>cr_cred := c, cr_updated := now\<rparr>) ks) =
      filter (\<lambda>k. \<not> (cr_user_id k = u \<and> cr_server_id k = v)) ks" for ks
    by (induction ks) (auto simp: update_where_def)
  moreover assume "credential_put s now u v c = Ok (x, t)"
  ultimately show ?thesis
    by (auto simp: credential_put_def stmt_Ok Let_def split: if_splits)
qed

lemma lookups_credentials:
  "server_by_id (s\<lparr>credentials := k\<rparr>) = server_by_id s" "is_assigned (s\<lparr>credentials := k\<rparr>) = is_assigned s"
  "server_by_id (audit s n w x y) = server_by_id s" "is_assigned (audit s n w x y) = is_assigned s"
  by (intro ext, simp add: server_by_id_def is_assigned_def stmt_def)+

lemma resolve_credentials [simp]: "resolve (s\<lparr>credentials := k\<rparr>) u i = resolve s u i"
  unfolding resolve_def lookups_credentials by (rule refl)

lemma resolve_audit [simp]: "resolve (audit s n w x y) u i = resolve s u i"
  unfolding resolve_def lookups_credentials by (rule refl)

lemma open_saved_tickets [simp]: "open_saved lib (a\<lparr>app_tickets := ts\<rparr>) u i k = open_saved lib a u i k"
  by (simp add: open_saved_def split: option.split)

lemma credential_get_audit [simp]: "credential_get (audit s n w x y) u i = credential_get s u i"
  by (simp add: credential_get_def stmt_def)

lemma vault_open_seal:
  assumes "crypto_ok cr" "v_master v = Some key" "length key = KEY_LEN" "rnd_ok NONCE_LEN rnd"
    and "vault_seal cr rnd v aad p = Ok (nonce, ct)"
  shows "vault_open cr v aad nonce ct = Ok p"
proof -
  obtain b where b: "seal_blob cr rnd key aad p = Ok b" "nonce = take NONCE_LEN b" "ct = drop NONCE_LEN b"
    using assms(2,5) by (auto simp: vault_seal_def vault_key_def split: sum.splits)
  then have "open_blob cr key aad b = Ok p"
    using assms(1,3,4) by (intro open_seal_blob [where rnd = rnd]) (auto simp: rnd_ok_def)
  then show ?thesis using b(2,3) assms(2) by (simp add: vault_open_def vault_key_def)
qed

lemma save_credential_Ok:
  assumes "save_credential lib ci c i req a = (Ok x, a')"
  obtains sv name domain sid nonce secret s where
    "saving_blocked a = None" "resolve (app_store a) (u_id (cu_user c)) (show_int i) = Ok sv" "save_fields req = Ok (name, domain)"
    "u_sid (cu_user c) = Some sid"
    "vault_seal (l_crypto lib) (ci_nonce ci) (app_vault a) (credential_aad sid (s_id sv)) (bytes_of (sv_password req)) = Ok (nonce, secret)"
    "credential_put (app_store a) (ci_now ci) (u_id (cu_user c)) (s_id sv)
       \<lparr> sc_username = name, sc_domain = domain, sc_nonce = nonce, sc_secret = secret \<rparr> = Ok ((), s)"
    "a' = a\<lparr>app_store := audit s (ci_now ci) (u_username (cu_user c)) ''credential.save'' (s_name sv)\<rparr>"
  using assms unfolding save_credential_def Let_def
  by (elim act_bind_OkE) (auto simp: step_Ok elim!: act_bind_OkE split: option.splits)

lemma connect_Ok:
  assumes "connect lib ci c i a = (Ok r, a')"
  shows "\<exists>sv stored. resolve (app_store a) (u_id (cu_user c)) (show_int i) = Ok sv \<and>
    credential_get (app_store a) (u_id (cu_user c)) (s_id sv) = Ok stored \<and>
    cn_credential r = open_saved lib a (cu_user c) (s_id sv) stored \<and> cn_ticket r = ci_token ci \<and> cn_server_id r = s_id sv \<and>
    a' = a\<lparr>app_tickets := snd (issue (app_tickets a) (ci_instant ci) (ci_token ci) (u_id (cu_user c)) (s_id sv))\<rparr>"
  using assms unfolding connect_def Let_def
  by (elim act_bind_OkE) (auto simp: step_Ok issue_ticket_def issue_def)

text \<open>
  C27: A credential a user saves for a server comes back to that user when they open the server:
  the user name and domain without surrounding blanks and the password exactly as typed, with a
  ticket that opens this server for this user within its minute. Saving writes that one entry and
  an activity log line and nothing else.
\<close>

theorem saved_credential_round_trip:
  assumes "crypto_ok (l_crypto lib)" "v_master (app_vault a) = Some key" "length key = KEY_LEN" "rnd_ok NONCE_LEN (ci_nonce ci)"
    and "utf8_ok (map of_char (sv_password req))"
    and "save_credential lib ci c i req a = (Ok (), a1)" and "connect lib ci2 c i a1 = (Ok r, a2)"
    and "t - ci_instant ci2 < TICKET_TTL"
  shows "cn_credential r = Some
      \<lparr> oc_username = str_trim (sv_username req),
        oc_domain = (case sv_domain req of None \<Rightarrow> None | Some d \<Rightarrow> if str_trim d = [] then None else Some (str_trim d)),
        oc_password = sv_password req \<rparr> \<and>
    fst (redeem_at (app_tickets a2) (cn_ticket r) t) = Some \<lparr> t_user_id = u_id (cu_user c), t_server_id = cn_server_id r \<rparr> \<and>
    app_store a1 = (app_store a)\<lparr>credentials := credentials (app_store a1), audit_log := audit_log (app_store a1)\<rparr> \<and>
    filter (\<lambda>k. \<not> (cr_user_id k = u_id (cu_user c) \<and> cr_server_id k = cn_server_id r)) (credentials (app_store a1)) =
      filter (\<lambda>k. \<not> (cr_user_id k = u_id (cu_user c) \<and> cr_server_id k = cn_server_id r)) (credentials (app_store a))"
proof -
  obtain sv name domain sid nonce secret s where sv:
    "saving_blocked a = None" "resolve (app_store a) (u_id (cu_user c)) (show_int i) = Ok sv" "save_fields req = Ok (name, domain)"
    "u_sid (cu_user c) = Some sid"
    "vault_seal (l_crypto lib) (ci_nonce ci) (app_vault a) (credential_aad sid (s_id sv)) (bytes_of (sv_password req)) = Ok (nonce, secret)"
    "credential_put (app_store a) (ci_now ci) (u_id (cu_user c)) (s_id sv)
       \<lparr> sc_username = name, sc_domain = domain, sc_nonce = nonce, sc_secret = secret \<rparr> = Ok ((), s)"
    "a1 = a\<lparr>app_store := audit s (ci_now ci) (u_username (cu_user c)) ''credential.save'' (s_name sv)\<rparr>"
    using save_credential_Ok [OF assms(6)] .
  note only = credential_put_only [OF sv(6)]
  then have s: "s = (app_store a)\<lparr>credentials := credentials s\<rparr>" by blast
  have "resolve s (u_id (cu_user c)) (show_int i) = Ok sv" by (subst s) (simp add: sv(2))
  then obtain stored where cn: "credential_get s (u_id (cu_user c)) (s_id sv) = Ok stored"
      "cn_credential r = open_saved lib a1 (cu_user c) (s_id sv) stored" "cn_ticket r = ci_token ci2" "cn_server_id r = s_id sv"
      "a2 = a1\<lparr>app_tickets := snd (issue (app_tickets a1) (ci_instant ci2) (ci_token ci2) (u_id (cu_user c)) (s_id sv))\<rparr>"
    using connect_Ok [OF assms(7)] sv(7) by auto
  have st: "stored = Some \<lparr> sc_username = name, sc_domain = domain, sc_nonce = nonce, sc_secret = secret \<rparr>"
    using cn(1) credential_put_get [OF sv(6)] by (simp add: stmt_Ok)
  have "vault_open (l_crypto lib) (app_vault a) (credential_aad sid (s_id sv)) nonce secret = Ok (bytes_of (sv_password req))"
    by (rule vault_open_seal [OF assms(1-4) sv(5)])
  moreover have "name = str_trim (sv_username req)"
      "domain = (case sv_domain req of None \<Rightarrow> None | Some d \<Rightarrow> if str_trim d = [] then None else Some (str_trim d))"
    using sv(3) by (cases "sv_domain req"; simp add: save_fields_def Let_def split: if_splits)+
  ultimately have "cn_credential r = Some
      \<lparr> oc_username = str_trim (sv_username req),
        oc_domain = (case sv_domain req of None \<Rightarrow> None | Some d \<Rightarrow> if str_trim d = [] then None else Some (str_trim d)),
        oc_password = sv_password req \<rparr>"
    using cn(2) st sv(4,7) assms(2,5) by (simp add: open_saved_def is_unlocked_def vault_key_def lossy_text)
  moreover have "fst (redeem_at (app_tickets a2) (cn_ticket r) t) = Some \<lparr> t_user_id = u_id (cu_user c), t_server_id = cn_server_id r \<rparr>"
    using cn assms(8) by (simp add: issue_def redeem_at_def)
  moreover have "app_store a1 = (app_store a)\<lparr>credentials := credentials (app_store a1), audit_log := audit_log (app_store a1)\<rparr>"
    using s sv(7) by (simp add: audit_def split: option.split)
  ultimately show ?thesis using only sv(7) cn(4) by auto
qed

definition sample_conn :: conn_inputs where
  "sample_conn = \<lparr> ci_now = 50, ci_instant = 1000, ci_token = ''ticket'', ci_nonce = Some (replicate NONCE_LEN 9) \<rparr>"

definition sample_alice :: current_user where
  "sample_alice = \<lparr> cu_user = user_from (sample_user 1 ''alice''), cu_token_hash = [7] \<rparr>"

definition sample_save :: save_request where
  "sample_save = \<lparr> sv_username = '' alice '', sv_domain = Some ''CORP'', sv_password = ''pw 1'' \<rparr>"

lemma sample_saved:
  "is_ok (fst (save_credential sample_libs sample_conn sample_alice 1 sample_save sample_app))"
  "is_ok (fst (connect sample_libs sample_conn sample_alice 1
     (snd (save_credential sample_libs sample_conn sample_alice 1 sample_save sample_app))))"
  by code_simp+

theorem saved_credential_round_trip_witness:
  "\<exists>r a2. connect sample_libs sample_conn sample_alice 1
       (snd (save_credential sample_libs sample_conn sample_alice 1 sample_save sample_app)) = (Ok r, a2) \<and>
     cn_credential r = Some \<lparr> oc_username = ''alice'', oc_domain = Some ''CORP'', oc_password = ''pw 1'' \<rparr>"
proof -
  obtain a1 where a1: "save_credential sample_libs sample_conn sample_alice 1 sample_save sample_app = (Ok (), a1)"
    using sample_saved(1) by (auto simp: is_ok_iff) (metis prod.collapse)
  then obtain r a2 where r: "connect sample_libs sample_conn sample_alice 1 a1 = (Ok r, a2)"
    using sample_saved(2) by (auto simp: is_ok_iff) (metis prod.collapse)
  have "utf8_ok (map of_char (sv_password sample_save))" "str_trim (sv_username sample_save) = ''alice''" "str_trim ''CORP'' = ''CORP''" by code_simp+
  moreover have "crypto_ok (l_crypto sample_libs)" "v_master (app_vault sample_app) = Some sample_key" "length sample_key = KEY_LEN"
    "rnd_ok NONCE_LEN (ci_nonce sample_conn)"
    using sample_crypto_ok
    by (simp_all add: sample_libs_def sample_app_def from_parts_def sample_vault_def sample_key_def rnd_ok_def sample_conn_def)
  ultimately show ?thesis
    using saved_credential_round_trip [OF _ _ _ _ _ a1 r, of sample_key "ci_instant sample_conn"] a1 r
    by (simp add: TICKET_TTL_def secs_def sample_save_def)
qed

end
