(* ===== verification/WA_Proxy.thy ===== *)
theory WA_Proxy
  imports WA_Connect WA_Framing WA_Route WA_Clip
begin

text \<open>
  A connection's life, \<open>proxy.rs\<close> and \<open>resolve.rs\<close>: admission, resolving the server's name, the
  X.224 exchange and the TLS handshake performed for the client, and then the bytes. What the
  network and the RDP libraries answer is an argument: a connection's \<open>net\<close> record holds one answer
  for every question the code asks, a missing answer being a deadline that passed.
\<close>

section \<open>Names\<close>

datatype resolve_error =
    Failed string nat string
  | NoAddress string nat
  | Ambiguous string nat string

definition resolve_one :: "string \<Rightarrow> nat \<Rightarrow> string + string list \<Rightarrow> resolve_error + string" where
  "resolve_one host port looked_up =
     (case looked_up of
        Err e \<Rightarrow> Err (Failed host port e)
      | Ok [] \<Rightarrow> Err (NoAddress host port)
      | Ok [a] \<Rightarrow> Ok a
      | Ok addrs \<Rightarrow> Err (Ambiguous host (length addrs) (join '', '' addrs)))"

section \<open>Errors\<close>

datatype session_error =
    WebSocket string
  | SessionIo string
  | NotARequest
  | SessionRefused
  | Tls string
  | Timeout string
  | Negotiation
  | Clipboard string

datatype admit_refusal =
    TicketUnknown
  | TicketOtherUser
  | SignInEnded
  | NoSuchServer
  | NotAssigned
  | WrongServer
  | RefusalStore
  | Superseded

definition refusal_detail :: "admit_refusal \<Rightarrow> string" where
  "refusal_detail r =
     (case r of
        Superseded \<Rightarrow> ''the database was replaced after the connection opened''
      | TicketUnknown \<Rightarrow> ''connect ticket unknown, spent or expired''
      | TicketOtherUser \<Rightarrow> ''connect ticket belongs to another user''
      | SignInEnded \<Rightarrow> ''the sign-in session has ended''
      | NoSuchServer \<Rightarrow> ''no such server''
      | NotAssigned \<Rightarrow> ''not assigned to this user''
      | WrongServer \<Rightarrow> ''ticket was minted for a different server''
      | RefusalStore \<Rightarrow> ''store error during admission'')"

text \<open>Kinds of \<open>std::io::Error\<close>, and what rustls puts inside one.\<close>

datatype error_kind =
    ConnectionRefused | TimedOut | HostUnreachable | NetworkUnreachable | ConnectionReset | UnexpectedEof
  | ConnectionAborted | InvalidData | OtherKind

datatype certificate_error =
    CertExpired | CertExpiredContext | CertNotValidYet | CertNotValidYetContext | CertUnknownIssuer | CertRevoked | CertOther

datatype rustls_error = InvalidCertificate certificate_error | AlertReceived byte | RustlsOther

record io_error =
  io_kind :: error_kind
  io_text :: string
  io_inner :: "rustls_error option"

text \<open>The PDUs RDCleanPath carries back to the client.\<close>

datatype rdcleanpath_pdu =
    GeneralError
  | WsaError nat
  | TlsError byte
  | NegotiationError bytes
  | ResponsePdu string bytes "bytes list"

definition WSAETIMEDOUT :: nat where "WSAETIMEDOUT = 10060"
definition WSAECONNREFUSED :: nat where "WSAECONNREFUSED = 10061"
definition WSAEHOSTUNREACH :: nat where "WSAEHOSTUNREACH = 10065"
definition WSAENETUNREACH :: nat where "WSAENETUNREACH = 10051"
definition WSAECONNRESET :: nat where "WSAECONNRESET = 10054"
definition WSAECONNABORTED :: nat where "WSAECONNABORTED = 10053"
definition WSAHOST_NOT_FOUND :: nat where "WSAHOST_NOT_FOUND = 11001"

definition wsa_error :: "io_error \<Rightarrow> rdcleanpath_pdu" where
  "wsa_error e =
     (case io_kind e of
        ConnectionRefused \<Rightarrow> WsaError WSAECONNREFUSED
      | TimedOut \<Rightarrow> WsaError WSAETIMEDOUT
      | HostUnreachable \<Rightarrow> WsaError WSAEHOSTUNREACH
      | NetworkUnreachable \<Rightarrow> WsaError WSAENETUNREACH
      | ConnectionReset \<Rightarrow> WsaError WSAECONNRESET
      | UnexpectedEof \<Rightarrow> WsaError WSAECONNRESET
      | ConnectionAborted \<Rightarrow> WsaError WSAECONNABORTED
      | _ \<Rightarrow> GeneralError)"

definition negotiation_failed :: "bytes \<Rightarrow> bool" where
  "negotiation_failed confirm \<longleftrightarrow>
     (length confirm > 5 \<and> confirm ! 5 AND 0xF0 = 0xD0) \<and> (length confirm > 11 \<and> confirm ! 11 = 0x03)"

definition tls_alert :: "io_error \<Rightarrow> byte" where
  "tls_alert e =
     (case io_inner e of
        Some (InvalidCertificate c) \<Rightarrow>
          (case c of
             CertExpired \<Rightarrow> 45 | CertExpiredContext \<Rightarrow> 45 | CertNotValidYet \<Rightarrow> 45 | CertNotValidYetContext \<Rightarrow> 45
           | CertUnknownIssuer \<Rightarrow> 48
           | CertRevoked \<Rightarrow> 44
           | CertOther \<Rightarrow> 42)
      | Some (AlertReceived alert) \<Rightarrow> alert
      | _ \<Rightarrow> 40)"

definition tls_failure :: "io_error \<Rightarrow> rdcleanpath_pdu" where
  "tls_failure e = (if io_inner e \<noteq> None then TlsError (tls_alert e) else wsa_error e)"

section \<open>Admission\<close>

text \<open>A connection: its user, the sign-in it was opened under and its entry in the registry.\<close>

record rdp_session =
  ss_user :: user
  ss_token_hash :: bytes
  ss_live_id :: "64 word"

type_synonym 'a admission = "(app, admit_refusal, 'a) act"

definition redeem_ticket :: "string \<Rightarrow> instant \<Rightarrow> ticket option admission" where
  "redeem_ticket token t = (\<lambda>a. let (r, ts) = redeem_at (app_tickets a) token t in (Ok r, a\<lparr>app_tickets := ts\<rparr>))"

definition current_generation :: "rdp_session \<Rightarrow> app \<Rightarrow> bool" where
  "current_generation se a \<longleftrightarrow> generation_of (app_live a) (ss_live_id se) = Some (app_generation a)"

definition admit :: "rdp_session \<Rightarrow> unix_time \<Rightarrow> instant \<Rightarrow> string \<Rightarrow> string \<Rightarrow> server admission" where
  "admit se now t target_id proxy_auth =
     (let i = u_id (ss_user se)
      in act_bind (act_read (\<lambda>a. guard (current_generation se a) Superseded)) (\<lambda>_.
         act_bind (redeem_ticket proxy_auth t) (\<lambda>tk.
         act_bind (act_res (case tk of
                     Some k \<Rightarrow> if t_user_id k = i then Ok k else Err TicketOtherUser
                   | None \<Rightarrow> Err TicketUnknown)) (\<lambda>k.
         act_bind (act_mod (\<lambda>a. a\<lparr>app_live := set_server (app_live a) (ss_live_id se) (t_server_id k)\<rparr>)) (\<lambda>_.
         act_bind (act_read (\<lambda>a. case session_user (app_store a) (ss_token_hash se) now of
                     Ok (Some u) \<Rightarrow> if u_id u = i then Ok () else Err SignInEnded
                   | Ok None \<Rightarrow> Err SignInEnded
                   | Err _ \<Rightarrow> Err RefusalStore)) (\<lambda>_.
         act_bind (act_read (\<lambda>a. case resolve (app_store a) i target_id of
                     Ok v \<Rightarrow> if s_id v = t_server_id k then Ok v else Err WrongServer
                   | Err (Denied NoSuchTarget) \<Rightarrow> Err NoSuchServer
                   | Err (Denied NotPermitted) \<Rightarrow> Err NotAssigned
                   | Err (PolicyStore _) \<Rightarrow> Err RefusalStore)) (\<lambda>v.
         act_bind (act_read (\<lambda>a. case incarnations (app_store a) i (s_id v) of
                     Ok (Some rows) \<Rightarrow> Ok rows
                   | Ok None \<Rightarrow> Err NoSuchServer
                   | Err _ \<Rightarrow> Err RefusalStore)) (\<lambda>rows.
         act_bind (act_mod (\<lambda>a. a\<lparr>app_live := set_incarnations (app_live a) (ss_live_id se) rows\<rparr>)) (\<lambda>_.
         act_ret v)))))))))"

definition record_open :: "rdp_session \<Rightarrow> unix_time \<Rightarrow> server \<Rightarrow> string \<Rightarrow> app \<Rightarrow> bool \<times> app" where
  "record_open se now v addr a =
     (if \<not> current_generation se a then (False, a)
      else (True, a\<lparr>app_store := audit (app_store a) now (u_username (ss_user se)) ''session.open''
              (s_name v @ '' ('' @ s_host v @ '' -> '' @ addr @ '')'')\<rparr>))"

definition record_end :: "unix_time \<Rightarrow> ended \<Rightarrow> app \<Rightarrow> app" where
  "record_end now e a =
     (case (en_established e, en_server_id e, en_incarnations e) of
        (True, Some server_id, Some (user_row, server_row)) \<Rightarrow>
          if en_generation e \<noteq> app_generation a then a
          else (case session_ended (app_store a) (en_user_id e) user_row server_id server_row now of
                  Ok (_, s) \<Rightarrow> a\<lparr>app_store := s\<rparr>
                | Err _ \<Rightarrow> a)
      | _ \<Rightarrow> a)"

text \<open>However a connection ends, its entry is removed and its end recorded.\<close>

definition session_close :: "rdp_session \<Rightarrow> unix_time \<Rightarrow> app \<Rightarrow> app" where
  "session_close se now a =
     (let (e, l) = live_remove (app_live a) (ss_live_id se); a' = a\<lparr>app_live := l\<rparr>
      in case e of Some e' \<Rightarrow> record_end now e' a' | None \<Rightarrow> a')"

section \<open>Reaching the server\<close>

definition TPKT_HEADER :: nat where "TPKT_HEADER = 4"
definition TPKT_MAX :: nat where "TPKT_MAX = 65535"

definition eof_error :: io_error where
  "eof_error = \<lparr> io_kind = UnexpectedEof, io_text = ''early eof'', io_inner = None \<rparr>"

text \<open>The unit and what the stream still holds; the stream ends after the bytes given.\<close>

definition read_tpkt :: "bytes \<Rightarrow> io_error + (bytes \<times> bytes)" where
  "read_tpkt stream =
     (if length stream < TPKT_HEADER then Err eof_error
      else
        (let len = be16 (stream ! 2) (stream ! 3)
         in if \<not> (TPKT_HEADER \<le> len \<and> len \<le> TPKT_MAX)
            then Err \<lparr> io_kind = InvalidData, io_text = ''implausible TPKT length '' @ show_nat len, io_inner = None \<rparr>
            else if length stream < len then Err eof_error
            else Ok (take len stream, drop len stream)))"

datatype ws_event = WsBinary bytes | WsPing bytes "string option" | WsOther | WsFail string

text \<open>
  The first binary message, the pongs sent before it and the rest; a ping carries the failure of
  sending its pong, if it fails.
\<close>

fun first_binary :: "ws_event list \<Rightarrow> session_error + bytes option" where
  "first_binary [] = Ok None"
| "first_binary (WsBinary b # _) = Ok (Some b)"
| "first_binary (WsPing p (Some e) # _) = Err (WebSocket e)"
| "first_binary (WsPing p None # rest) = first_binary rest"
| "first_binary (WsOther # rest) = first_binary rest"
| "first_binary (WsFail e # _) = Err (WebSocket e)"

datatype rdcleanpath = Request string string bytes | RdResponse | GeneralErr | NegotiationErr

datatype protocol = HybridEx | SslOrHybrid | OtherProtocol

text \<open>What the network and the libraries answer; \<open>None\<close> where a deadline passed.\<close>

record net =
  n_first :: "ws_event list option"
  n_parse :: "bytes \<Rightarrow> rdcleanpath option"
  n_lookup :: "string \<Rightarrow> nat \<Rightarrow> (string + string list) option"
  n_connect :: "string \<Rightarrow> (io_error + unit) option"
  n_x224 :: "bytes \<Rightarrow> (io_error + bytes) option"
  n_negotiation_pdu :: "bytes \<Rightarrow> bool"
  n_server_name :: "string \<Rightarrow> string + unit"
  n_tls :: "string \<Rightarrow> (io_error + bytes list) option"
  n_protocol :: "bytes \<Rightarrow> protocol option"
  n_response :: "string \<Rightarrow> bytes \<Rightarrow> bytes list \<Rightarrow> string + unit"
  n_send :: "rdcleanpath_pdu \<Rightarrow> string + unit"

type_synonym unreached = "rdcleanpath_pdu \<times> session_error"

definition timed_out :: "string \<Rightarrow> unreached" where
  "timed_out what = (WsaError WSAETIMEDOUT, Timeout what)"

definition io_unreached :: "io_error \<Rightarrow> unreached" where
  "io_unreached e = (wsa_error e, SessionIo (io_text e))"

definition reach :: "net \<Rightarrow> string \<Rightarrow> bytes \<Rightarrow> string \<Rightarrow> unreached + (bytes list \<times> bytes)" where
  "reach nt addr x224 host =
     and_then (case n_connect nt addr of
                 None \<Rightarrow> Err (timed_out ''connecting to the server'')
               | Some r \<Rightarrow> map_err io_unreached r) (\<lambda>_.
     and_then (case n_x224 nt x224 of
                 None \<Rightarrow> Err (timed_out ''waiting for the server's X.224 confirm'')
               | Some r \<Rightarrow> map_err io_unreached (and_then r read_tpkt)) (\<lambda>(confirm, _).
     and_then (guard (\<not> negotiation_failed confirm)
       (if n_negotiation_pdu nt confirm then NegotiationError confirm else GeneralError, Negotiation)) (\<lambda>_.
     and_then (map_err (\<lambda>e. (GeneralError, Tls e)) (n_server_name nt host)) (\<lambda>_.
     (case n_tls nt host of
        None \<Rightarrow> Err (timed_out ''in the TLS handshake with the server'')
      | Some (Err e) \<Rightarrow> Err (tls_failure e, Tls (io_text e))
      | Some (Ok chain) \<Rightarrow> Ok (chain, confirm))))))"

section \<open>Serving a connection\<close>

text \<open>
  A failure is what the client is told, if anything, and the error. \<open>mid\<close> is what the rest of the
  proxy does while the code waits, by the step it waits before.
\<close>

type_synonym failure = "rdcleanpath_pdu option \<times> session_error"

record waits =
  wt_admit :: "app \<Rightarrow> app"
  wt_open :: "app \<Rightarrow> app"
  wt_established :: "app \<Rightarrow> app"
  wt_now_admit :: unix_time
  wt_instant :: instant
  wt_now_open :: unix_time
  wt_now_end :: unix_time

record established =
  es_server :: server
  es_addr :: string
  es_confirm :: bytes
  es_hybrid_ex :: bool

definition sess_refuse :: failure where
  "sess_refuse = (Some GeneralError, SessionRefused)"

definition client_request :: "net \<Rightarrow> failure + (string \<times> string \<times> bytes) option" where
  "client_request nt =
     (case n_first nt of
        None \<Rightarrow> Err (None, Timeout ''waiting for the client's request'')
      | Some evs \<Rightarrow>
          (case first_binary evs of
             Err e \<Rightarrow> Err (None, e)
           | Ok None \<Rightarrow> Ok None
           | Ok (Some b) \<Rightarrow>
               (case n_parse nt b of
                  Some (Request dest auth x224) \<Rightarrow> Ok (Some (dest, auth, x224))
                | _ \<Rightarrow> Err (None, NotARequest))))"

definition server_address :: "net \<Rightarrow> server \<Rightarrow> failure + string" where
  "server_address nt v =
     (case n_lookup nt (s_host v) (unat (s_port v)) of
        None \<Rightarrow> Err (Some (WsaError WSAHOST_NOT_FOUND), Timeout ''resolving the server's name'')
      | Some r \<Rightarrow>
          (case resolve_one (s_host v) (unat (s_port v)) r of
             Ok addr \<Rightarrow> Ok addr
           | Err (Ambiguous _ _ _) \<Rightarrow> Err (Some GeneralError, SessionRefused)
           | Err _ \<Rightarrow> Err (Some (WsaError WSAHOST_NOT_FOUND), SessionRefused)))"

definition frames_hybrid :: "net \<Rightarrow> bool \<Rightarrow> bytes \<Rightarrow> failure + bool" where
  "frames_hybrid nt scanning confirm =
     (case n_protocol nt confirm of
        Some HybridEx \<Rightarrow> Ok True
      | Some SslOrHybrid \<Rightarrow> Ok False
      | _ \<Rightarrow> if scanning then Err sess_refuse else Ok False)"

definition serve :: "net \<Rightarrow> waits \<Rightarrow> rdp_session \<Rightarrow> (app, failure, established option) act" where
  "serve nt w se =
     act_bind (act_res (client_request nt)) (\<lambda>req.
     (case req of
        None \<Rightarrow> act_ret None
      | Some (dest, auth, x224) \<Rightarrow>
          act_bind (act_mod (wt_admit w)) (\<lambda>_.
          act_bind (\<lambda>a. case admit se (wt_now_admit w) (wt_instant w) dest auth a of
                          (Err _, a') \<Rightarrow> (Err sess_refuse, a')
                        | (Ok v, a') \<Rightarrow> (Ok v, a')) (\<lambda>v.
          act_bind (act_res (server_address nt v)) (\<lambda>addr.
          act_bind (act_mod (wt_open w)) (\<lambda>_.
          act_bind (\<lambda>a. let (b, a') = record_open se (wt_now_open w) v addr a in (Ok b, a')) (\<lambda>opened.
          act_bind (act_guard opened sess_refuse) (\<lambda>_.
          act_bind (act_res (map_err (\<lambda>(pdu, e). (Some pdu, e)) (reach nt addr x224 (s_host v)))) (\<lambda>(chain, confirm).
          act_bind (act_get (\<lambda>a. app_scan a \<noteq> None)) (\<lambda>scanning.
          act_bind (act_res (frames_hybrid nt scanning confirm)) (\<lambda>hybrid.
          act_bind (act_res (map_err (\<lambda>e. (None, Tls e)) (n_response nt addr confirm chain))) (\<lambda>_.
          act_bind (act_res (map_err (\<lambda>e. (None, WebSocket e)) (n_send nt (ResponsePdu addr confirm chain)))) (\<lambda>_.
          act_bind (act_mod (wt_established w)) (\<lambda>_.
          act_bind (act_mod (\<lambda>a. a\<lparr>app_live := set_established (app_live a) (ss_live_id se)\<rparr>)) (\<lambda>_.
          act_ret (Some \<lparr> es_server = v, es_addr = addr, es_confirm = confirm, es_hybrid_ex = hybrid \<rparr>))))))))))))))))"

text \<open>
  \<open>run\<close>: \<open>after\<close> is what happens to the state while bytes flow, up to the end. Ended early, at any
  of its waits, a connection is closed the same way.
\<close>

definition session_run :: "net \<Rightarrow> waits \<Rightarrow> (app \<Rightarrow> app) \<Rightarrow> rdp_session \<Rightarrow> app \<Rightarrow> (failure + established option) \<times> app" where
  "session_run nt w relayed se a =
     (let (r, a') = serve nt w se a in (r, session_close se (wt_now_end w) (relayed a')))"

section \<open>Bytes with file scanning on\<close>

text \<open>
  One reader's step: the units one read completed go through the route in order. Unchanged and
  replaced units make up the bytes for the other side; a whole clipboard PDU goes to the scan.
\<close>

fun forward_units :: "'p mcs_codec \<Rightarrow> bool \<Rightarrow> rdp_unit list \<Rightarrow> (route, route_error, bytes \<times> whole list) act" where
  "forward_units c from_client [] = act_ret ([], [])"
| "forward_units c from_client (u # us) =
     act_bind (case u of
                 Tpkt b \<Rightarrow> (\<lambda>r. if from_client then read_client c r b else read_server c r b)
               | _ \<Rightarrow> act_ret Pass) (\<lambda>d.
     act_bind (forward_units c from_client us) (\<lambda>(pass, clips).
     act_ret (case d of
                Pass \<Rightarrow> (unit_bytes u @ pass, clips)
              | Replace b \<Rightarrow> (b @ pass, clips)
              | Clip None \<Rightarrow> (pass, clips)
              | Clip (Some w) \<Rightarrow> (pass, w # clips))))"

text \<open>
  A whole side of the relay: what its reads pass on and hand to the scan. A frame or a route error
  ends the session.
\<close>

datatype relay_error = FrameError frame_error | RouteError route_error

fun relay_side :: "'p mcs_codec \<Rightarrow> bool \<Rightarrow> framer \<Rightarrow> bytes list \<Rightarrow> (route, relay_error, bytes \<times> whole list) act" where
  "relay_side c from_client f [] = act_ret ([], [])"
| "relay_side c from_client f (b # bs) =
     (case push f b of
        Err e \<Rightarrow> act_fail (FrameError e)
      | Ok (us, f') \<Rightarrow>
          act_bind (\<lambda>r. case forward_units c from_client us r of
                          (Err e, r') \<Rightarrow> (Err (RouteError e), r')
                        | (Ok x, r') \<Rightarrow> (Ok x, r')) (\<lambda>(pass, clips).
          act_bind (relay_side c from_client f' bs) (\<lambda>(pass', clips').
          act_ret (pass @ pass', clips @ clips'))))"

end
