(* ===== verification/WA_Proxy_Props.thy ===== *)
theory WA_Proxy_Props
  imports WA_Proxy WA_Connect_Props
begin

text \<open>
  What a connection guarantees: who is admitted and where to, that a connection ends in the
  registry and in the log of the right rows, and that the relay's view of the stream does not
  depend on how the network cut it.
\<close>

section \<open>Admission\<close>

lemma redeem_ticket_Ok:
  "redeem_ticket token t a = (Ok r, a') \<longleftrightarrow>
     r = fst (redeem_at (app_tickets a) token t) \<and> a' = a\<lparr>app_tickets := snd (redeem_at (app_tickets a) token t)\<rparr>"
  by (auto simp: redeem_ticket_def split: prod.splits)

lemma redeem_at_gone: "snd (redeem_at ts token t) = ts(token := None)"
  by (auto simp: redeem_at_def split: option.splits)

lemma redeem_at_Some: "fst (redeem_at ts token t) = Some k \<Longrightarrow> \<exists>e. ts token = Some e \<and> i_ticket e = k \<and> t - i_minted e < TICKET_TTL"
  by (auto simp: redeem_at_def split: option.splits if_splits)

lemma resolve_Ok:
  "resolve s u tid = Ok v \<Longrightarrow> parse_i64 tid = Some (s_id v) \<and> (u, s_id v) \<in> set (assignments s) \<and>
     (\<exists>r \<in> set (servers s). v = server_from r)"
  by (auto simp: resolve_def server_by_id_def is_assigned_def stmt_def server_from_def
      split: option.splits if_splits dest!: find_Some_set)

definition admits :: "rdp_session \<Rightarrow> unix_time \<Rightarrow> instant \<Rightarrow> string \<Rightarrow> string \<Rightarrow> app \<Rightarrow> server \<Rightarrow> bool" where
  "admits se now t target_id auth a v \<longleftrightarrow>
     current_generation se a \<and>
     (\<exists>e. app_tickets a auth = Some e \<and> t - i_minted e < TICKET_TTL \<and>
          t_user_id (i_ticket e) = u_id (ss_user se) \<and> t_server_id (i_ticket e) = s_id v) \<and>
     (\<exists>u. session_user (app_store a) (ss_token_hash se) now = Ok (Some u) \<and> u_id u = u_id (ss_user se)) \<and>
     parse_i64 target_id = Some (s_id v) \<and> (u_id (ss_user se), s_id v) \<in> set (assignments (app_store a)) \<and>
     (\<exists>r \<in> set (servers (app_store a)). v = server_from r)"

lemma admit_Ok:
  assumes "admit se now t target_id auth a = (Ok v, a')"
  shows "admits se now t target_id auth a v"
proof -
  have "\<exists>k u. current_generation se a \<and> fst (redeem_at (app_tickets a) auth t) = Some k \<and> t_user_id k = u_id (ss_user se) \<and>
      session_user (app_store a) (ss_token_hash se) now = Ok (Some u) \<and> u_id u = u_id (ss_user se) \<and>
      resolve (app_store a) (u_id (ss_user se)) target_id = Ok v \<and> s_id v = t_server_id k"
    using assms unfolding admit_def Let_def
    by (elim act_bind_OkE)
       (auto simp: redeem_ticket_Ok split: option.splits sum.splits policy_error.splits denied.splits if_splits)
  then obtain k u where k: "current_generation se a" "fst (redeem_at (app_tickets a) auth t) = Some k"
      "t_user_id k = u_id (ss_user se)" "session_user (app_store a) (ss_token_hash se) now = Ok (Some u)"
      "u_id u = u_id (ss_user se)" "resolve (app_store a) (u_id (ss_user se)) target_id = Ok v" "s_id v = t_server_id k"
    by blast
  obtain e where "app_tickets a auth = Some e" "i_ticket e = k" "t - i_minted e < TICKET_TTL"
    using redeem_at_Some [OF k(2)] by blast
  then show ?thesis
    unfolding admits_def using k(1,3,4,5,7) resolve_Ok [OF k(6)] by simp
qed

lemma admit_keeps: "app_store (snd (admit se now t target_id auth a)) = app_store a"
proof -
  have "keeps (\<lambda>b. app_store b = app_store a) (admit se now t target_id auth)"
    unfolding admit_def Let_def
    by (intro keeps_intros keeps_mod) (auto simp: keeps_def redeem_ticket_def split: prod.splits)
  then show ?thesis by (rule keepsD) simp
qed

lemma act_bind_after: "m s = (Ok x, s') \<Longrightarrow> act_bind m f s = f x s'"
  by (simp add: act_bind_def)

lemma act_bind_then_keeps: "P (snd (m s)) \<Longrightarrow> (\<And>x. keeps P (f x)) \<Longrightarrow> P (snd (act_bind m f s))"
  by (auto simp: act_bind_def keeps_def split: prod.splits sum.splits)

lemma admit_spends:
  assumes "current_generation se a"
  shows "app_tickets (snd (admit se now t target_id auth a)) auth = None"
  unfolding admit_def Let_def
proof (subst act_bind_after [where x = "()" and s' = a])
  show "act_read (\<lambda>a. guard (current_generation se a) Superseded) a = (Ok (), a)"
    using assms by (simp add: act_read_def guard_def)
qed (rule act_bind_then_keeps [where P = "\<lambda>b. app_tickets b auth = None"],
     simp add: redeem_ticket_def split_def redeem_at_gone, intro keeps_intros keeps_mod, simp_all)


text \<open>A signed-in user opens a server's page and its WebSocket: a ticket and a registered connection.\<close>

definition sample_opened :: app where
  "sample_opened =
     (let a = snd (connect sample_libs sample_conn sample_alice 1 sample_app)
      in a\<lparr>app_live := snd (register (app_live a) 1 [7] (app_generation a))\<rparr>)"

definition sample_session :: rdp_session where
  "sample_session = \<lparr> ss_user = cu_user sample_alice, ss_token_hash = [7], ss_live_id = next_live (app_live sample_app) \<rparr>"

lemma sample_admitted:
  "current_generation sample_session sample_opened"
  "is_ok (fst (admit sample_session 60 2000 ''1'' ''ticket'' sample_opened))"
  by code_simp+


section \<open>From the request to the relay\<close>

lemma reach_Ok:
  "reach nt addr x host = Ok (chain, confirm) \<Longrightarrow> n_connect nt addr = Some (Ok ()) \<and> n_tls nt host = Some (Ok chain) \<and>
     \<not> negotiation_failed confirm \<and> (\<exists>st rest. n_x224 nt x = Some (Ok st) \<and> read_tpkt st = Ok (confirm, rest))"
  by (cases "n_tls nt host"; cases "the (n_tls nt host)") (auto simp: reach_def and_then_Ok split: option.splits sum.splits)

lemma server_address_Ok: "server_address nt v = Ok addr \<Longrightarrow> n_lookup nt (s_host v) (unat (s_port v)) = Some (Ok [addr])"
  by (auto simp: server_address_def resolve_one_def split: option.splits sum.splits list.splits resolve_error.splits)

lemma client_request_Ok:
  "client_request nt = Ok (Some (dest, auth, x)) \<Longrightarrow>
     \<exists>evs b. n_first nt = Some evs \<and> first_binary evs = Ok (Some b) \<and> n_parse nt b = Some (Request dest auth x)"
  by (auto simp: client_request_def split: option.splits sum.splits rdcleanpath.splits)


definition sample_net :: net where
  "sample_net =
     \<lparr> n_first = Some [WsOther, WsBinary [1]], n_parse = (\<lambda>_. Some (Request ''1'' ''ticket'' [3, 0, 0, 4])),
       n_lookup = (\<lambda>_ _. Some (Ok [''10.0.0.1:3389''])), n_connect = (\<lambda>_. Some (Ok ())),
       n_x224 = (\<lambda>_. Some (Ok [3, 0, 0, 6, 0, 0xD0])), n_negotiation_pdu = (\<lambda>_. False), n_server_name = (\<lambda>_. Ok ()),
       n_tls = (\<lambda>_. Some (Ok [[1, 2]])), n_protocol = (\<lambda>_. Some HybridEx), n_response = (\<lambda>_ _ _. Ok ()), n_send = (\<lambda>_. Ok ()) \<rparr>"

definition sample_waits :: waits where
  "sample_waits =
     \<lparr> wt_admit = (\<lambda>a. a), wt_open = (\<lambda>a. a), wt_established = (\<lambda>a. a), wt_now_admit = 60, wt_instant = 2000,
       wt_now_open = 60, wt_now_end = 90 \<rparr>"

lemma sample_served:
  "case fst (serve sample_net sample_waits sample_session sample_opened) of
     Ok (Some es) \<Rightarrow> es_server es = server_from (sample_server 1 ''db'') \<and> es_addr es = ''10.0.0.1:3389''
   | _ \<Rightarrow> False"
  by code_simp


section \<open>The end of a connection\<close>

lemma live_get_remove [simp]: "live_get (snd (live_remove l i)) i = None"
  by (auto simp: live_remove_def live_get_def map_of_eq_None_iff)

lemma record_end_live [simp]: "app_live (record_end now e a) = app_live a"
  by (auto simp: record_end_def split: option.splits prod.splits sum.splits bool.splits)

lemma session_ended_only:
  "session_ended s u ui v vi t = Ok (b, s') \<Longrightarrow> s' = s\<lparr>session_log := session_log s'\<rparr> \<and>
     (session_log s' \<noteq> session_log s \<longrightarrow> user_is s u ui \<and> server_is s v vi \<and>
        (\<forall>l \<in> set (session_log s'). l \<in> set (session_log s) \<or> l = \<lparr> sl_user_id = u, sl_server_id = v, sl_ended = t \<rparr>))"
  by (auto simp: session_ended_def stmt_Ok Let_def update_where_def split: if_splits)


section \<open>The relay\<close>

definition relay_join :: "bytes \<times> whole list \<Rightarrow> bytes \<times> whole list \<Rightarrow> bytes \<times> whole list" where
  "relay_join x y = (fst x @ fst y, snd x @ snd y)"

lemma relay_join_assoc: "relay_join (relay_join x y) z = relay_join x (relay_join y z)"
  by (simp add: relay_join_def)

lemma relay_join_Nil [simp]: "relay_join ([], []) x = x"
  by (simp add: relay_join_def)

definition unit_step :: "'p mcs_codec \<Rightarrow> bool \<Rightarrow> rdp_unit \<Rightarrow> (route, route_error, routed) act" where
  "unit_step c from_client u =
     (case u of Tpkt b \<Rightarrow> (\<lambda>r. if from_client then read_client c r b else read_server c r b) | _ \<Rightarrow> act_ret Pass)"

fun unit_out :: "rdp_unit \<Rightarrow> routed \<Rightarrow> bytes \<times> whole list" where
  "unit_out u Pass = (unit_bytes u, [])"
| "unit_out u (Replace b) = (b, [])"
| "unit_out u (Clip None) = ([], [])"
| "unit_out u (Clip (Some w)) = ([], [w])"

lemma unit_out_step:
  "(case d of Pass \<Rightarrow> (unit_bytes u @ p, k) | Replace b \<Rightarrow> (b @ p, k) | Clip None \<Rightarrow> (p, k) | Clip (Some w) \<Rightarrow> (p, w # k)) =
     (fst (unit_out u d) @ p, snd (unit_out u d) @ k)"
  by (cases "(u, d)" rule: unit_out.cases) auto

lemma forward_units_Cons:
  "forward_units c fc (u # us) r = (Ok x, r'') \<longleftrightarrow>
     (\<exists>d r' y. unit_step c fc u r = (Ok d, r') \<and> forward_units c fc us r' = (Ok y, r'') \<and>
        x = relay_join (unit_out u d) y)"
  unfolding forward_units.simps unit_step_def [symmetric] unit_out_step
  by (auto simp: act_bind_Ok relay_join_def)

lemma forward_units_append:
  "forward_units c fc (us @ vs) r = (Ok x, r'') \<longleftrightarrow>
     (\<exists>y z r'. forward_units c fc us r = (Ok y, r') \<and> forward_units c fc vs r' = (Ok z, r'') \<and>
        x = relay_join y z)"
proof (induction us arbitrary: r x)
  case Nil
  then show ?case by auto
next
  case (Cons u us)
  show ?case (is "?l \<longleftrightarrow> ?r")
  proof
    assume ?l
    then obtain d r1 y z r' where "unit_step c fc u r = (Ok d, r1)" "forward_units c fc us r1 = (Ok y, r')"
        and z: "forward_units c fc vs r' = (Ok z, r'')" "x = relay_join (relay_join (unit_out u d) y) z"
      unfolding append_Cons forward_units_Cons Cons.IH relay_join_assoc by blast
    then have "forward_units c fc (u # us) r = (Ok (relay_join (unit_out u d) y), r')"
      unfolding forward_units_Cons by blast
    with z show ?r by blast
  next
    assume ?r
    then obtain d r1 y z r' where "unit_step c fc u r = (Ok d, r1)" "forward_units c fc us r1 = (Ok y, r')"
        "forward_units c fc vs r' = (Ok z, r'')" "x = relay_join (unit_out u d) (relay_join y z)"
      unfolding forward_units_Cons relay_join_assoc [symmetric] by blast
    then show ?l unfolding append_Cons forward_units_Cons Cons.IH by blast
  qed
qed

lemma relay_side_Cons:
  "relay_side c fc f (b # bs) r = (Ok x, r'') \<longleftrightarrow>
     (\<exists>us g y z r'. push f b = Ok (us, g) \<and> forward_units c fc us r = (Ok y, r') \<and>
        relay_side c fc g bs r' = (Ok z, r'') \<and> x = relay_join y z)"
  by (auto simp: act_bind_Ok relay_join_def split: sum.splits prod.splits)

lemma push_all_Ok_Cons:
  "push_all f (b # bs) = Ok (us, h) \<longleftrightarrow>
     (\<exists>vs g ws. push f b = Ok (vs, g) \<and> push_all g bs = Ok (ws, h) \<and> us = vs @ ws)"
  by (auto split: sum.splits prod.splits)

text \<open>The relay's reads one by one are the reads framed first and forwarded after.\<close>

lemma relay_side_push_all:
  "relay_side c fc f bs r = (Ok x, r'') \<longleftrightarrow>
     (\<exists>us g. push_all f bs = Ok (us, g) \<and> forward_units c fc us r = (Ok x, r''))"
proof (induction bs arbitrary: f r x)
  case (Cons b bs)
  show ?case (is "?l \<longleftrightarrow> ?r")
  proof
    assume ?l
    then obtain vs g y z r' ws h where u: "push f b = Ok (vs, g)" "push_all g bs = Ok (ws, h)"
        and "forward_units c fc vs r = (Ok y, r')" "forward_units c fc ws r' = (Ok z, r'')" "x = relay_join y z"
      unfolding relay_side_Cons Cons.IH by blast
    then have "forward_units c fc (vs @ ws) r = (Ok x, r'')"
      unfolding forward_units_append by blast
    with u show ?r unfolding push_all_Ok_Cons by blast
  next
    assume ?r
    then obtain vs g ws h where "push f b = Ok (vs, g)" "push_all g bs = Ok (ws, h)"
        "forward_units c fc (vs @ ws) r = (Ok x, r'')"
      unfolding push_all_Ok_Cons by blast
    then show ?l unfolding relay_side_Cons Cons.IH forward_units_append by blast
  qed
qed simp

lemma push_all_fresh:
  "push_all (framer_new server hybrid) [concat ps] = push_all (framer_new server hybrid) ps"
proof (cases "ps = []")
  case True
  then show ?thesis by (simp add: push_def framer_new_def drain.simps next_unit_def)
next
  case False
  then show ?thesis using push_all_concat [of ps] push_all_concat [of "[concat ps]"] by simp
qed


end
