(* ===== verification/WA_Migrate.thy ===== *)
theory WA_Migrate
  imports WA_App WA_Civil
begin

text \<open>
  Export and import of the whole database, \<open>migrate.rs\<close>. SQLite's file, the zip container and the
  JSON of the manifest belong to libraries: the fields of \<open>migrate_lib\<close>. What the file system
  answers is an argument; the data directory is the list of its backup files. The staged copy an
  import works on is a temporary file, removed or renamed before the import returns, so it has no
  place in that list.
\<close>

section \<open>Error texts\<close>

definition store_error_text :: "store_error \<Rightarrow> string" where
  "store_error_text e =
     (case e of
        Sql m \<Rightarrow> ''database: '' @ m
      | Io m \<Rightarrow> ''io: '' @ m
      | Newer found supported \<Rightarrow>
          ''the database schema version '' @ show_int found @ '' is newer than this build supports ('' @
          show_int supported @ '')''
      | NotFound \<Rightarrow> ''not found''
      | Conflict m \<Rightarrow> m
      | Invalid m \<Rightarrow> m)"

definition vault_error_text :: "vault_error \<Rightarrow> string" where
  "vault_error_text e =
     (case e of
        Locked \<Rightarrow> ''the credential store is locked; an administrator must unlock it with the recovery passphrase''
      | WrongPassphrase \<Rightarrow> ''the passphrase is not correct''
      | NoRecovery \<Rightarrow> ''no recovery passphrase has been set''
      | Weak \<Rightarrow> ''the passphrase must be at least '' @ show_nat MIN_PASSPHRASE @ '' characters''
      | Crypto \<Rightarrow> ''decryption failed''
      | Protect m \<Rightarrow> ''key protection: '' @ m
      | VaultStore s \<Rightarrow> store_error_text s
      | VaultIo m \<Rightarrow> ''io: '' @ m)"

datatype migrate_error =
    MigrateNoRecovery
  | MigrateWrongPassphrase
  | BadArchive string
  | MigrateNewer int
  | Confirm string
  | UploadExpired
  | Integrity string
  | MigrateVault vault_error
  | MigrateStore store_error
  | MigrateIo string

definition migrate_error_text :: "migrate_error \<Rightarrow> string" where
  "migrate_error_text e =
     (case e of
        MigrateNoRecovery \<Rightarrow> ''set a recovery passphrase before exporting''
      | MigrateWrongPassphrase \<Rightarrow> ''the passphrase is not correct''
      | BadArchive m \<Rightarrow> ''not a web-access export: '' @ m
      | MigrateNewer n \<Rightarrow> ''this export is from a newer version (schema '' @ show_int n @ ''); upgrade this proxy first''
      | Confirm m \<Rightarrow> m
      | UploadExpired \<Rightarrow> ''that upload has expired; upload the file again''
      | Integrity m \<Rightarrow> ''the imported database failed its integrity check: '' @ m
      | MigrateVault v \<Rightarrow> vault_error_text v
      | MigrateStore s \<Rightarrow> store_error_text s
      | MigrateIo m \<Rightarrow> ''io: '' @ m)"

definition migrate_of_vault :: "vault_error \<Rightarrow> migrate_error" where
  "migrate_of_vault e =
     (case e of
        WrongPassphrase \<Rightarrow> MigrateWrongPassphrase
      | NoRecovery \<Rightarrow> MigrateNoRecovery
      | _ \<Rightarrow> MigrateVault e)"

section \<open>The archive\<close>

definition EXPORT_FORMAT :: nat where "EXPORT_FORMAT = 1"
definition AAD_EXPORT :: bytes where "AAD_EXPORT = bytes_of ''web-access export v1''"
definition MANIFEST :: string where "MANIFEST = ''manifest.json''"
definition DATA :: string where "DATA = ''data.db.enc''"

record manifest =
  mf_format :: nat
  mf_schema :: int
  mf_source_host :: string
  mf_exported_at :: unix_time
  mf_data_sha256 :: string
  mf_counts :: counts_rec

record migrate_lib =
  ml_crypto :: crypto
  ml_sha256 :: "bytes \<Rightarrow> bytes"
  ml_snapshot :: "store \<Rightarrow> store_error + bytes"
  ml_open :: "bytes \<Rightarrow> store_error + store"
  ml_integrity :: "store \<Rightarrow> string + unit"
  ml_to_json :: "manifest \<Rightarrow> string + bytes"
  ml_from_json :: "bytes \<Rightarrow> string + manifest"
  ml_zip :: "int \<times> int \<times> int \<times> int \<times> int \<times> int \<Rightarrow> (string \<times> bytes) list \<Rightarrow> string + bytes"
  ml_unzip :: "bytes \<Rightarrow> string + (string \<Rightarrow> (string + bytes) option)"

definition utc_parts :: "int \<Rightarrow> int \<times> int \<times> int \<times> int \<times> int \<times> int" where
  "utc_parts t =
     (let days = t div 86400;
          rem = t mod 86400;
          z = days + 719468;
          era = z div 146097;
          doe = z mod 146097;
          yoe = (doe - doe div 1460 + doe div 36524 - doe div 146096) div 365;
          doy = doe - (365 * yoe + yoe div 4 - yoe div 100);
          mp = (5 * doy + 2) div 153;
          d = doy - (153 * mp + 2) div 5 + 1;
          m = (if mp < 10 then mp + 3 else mp - 9);
          y = yoe + era * 400 + (if m \<le> 2 then 1 else 0)
      in (y, m, d, rem div 3600, rem mod 3600 div 60, rem mod 60))"

definition utc_stamp :: "int \<Rightarrow> string" where
  "utc_stamp t =
     (let (y, m, d, h, mi, s) = utc_parts t
      in pad 4 y @ pad 2 m @ pad 2 d @ ''T'' @ pad 2 h @ pad 2 mi @ pad 2 s @ ''Z'')"

definition build_zip :: "migrate_lib \<Rightarrow> manifest \<Rightarrow> bytes \<Rightarrow> migrate_error + bytes" where
  "build_zip ml m blob =
     and_then (map_err BadArchive (ml_to_json ml m)) (\<lambda>json.
     map_err BadArchive (ml_zip ml (utc_parts (mf_exported_at m)) [(MANIFEST, json), (DATA, blob)]))"

definition read_entry :: "(string \<Rightarrow> (string + bytes) option) \<Rightarrow> string \<Rightarrow> migrate_error + bytes" where
  "read_entry archive name =
     and_then (ok_or (BadArchive (name @ '' is missing'')) (archive name)) (\<lambda>r.
     map_err (\<lambda>e. BadArchive (name @ '' could not be read; the file is damaged or incomplete: '' @ e)) r)"

definition read_zip :: "migrate_lib \<Rightarrow> bytes \<Rightarrow> migrate_error + (manifest \<times> bytes)" where
  "read_zip ml b =
     and_then (map_err (\<lambda>e. BadArchive (''this is not a complete export; the file is damaged or incomplete: '' @ e))
                 (ml_unzip ml b)) (\<lambda>archive.
     and_then (read_entry archive MANIFEST) (\<lambda>json.
     and_then (map_err (\<lambda>e. BadArchive (MANIFEST @ '': '' @ e)) (ml_from_json ml json)) (\<lambda>m.
     and_then (read_entry archive DATA) (\<lambda>blob.
     and_then (guard (mf_format m = EXPORT_FORMAT)
       (BadArchive (''format '' @ show_nat (mf_format m) @ '' is not '' @ show_nat EXPORT_FORMAT))) (\<lambda>_.
     and_then (guard (mf_schema m \<le> SCHEMA_VERSION) (MigrateNewer (mf_schema m))) (\<lambda>_.
     and_then (guard (hex (ml_sha256 ml blob) = mf_data_sha256 m)
       (BadArchive ''the data does not match its checksum; the file is damaged or was altered'')) (\<lambda>_.
     Ok (m, blob))))))))"

section \<open>Export\<close>

record export_file =
  ex_file_name :: string
  ex_bytes :: bytes
  ex_manifest :: manifest

text \<open>The copy's own recovery wrap must open under the passphrase.\<close>

definition snapshot_verified :: "migrate_lib \<Rightarrow> store \<Rightarrow> string \<Rightarrow> migrate_error + (bytes \<times> counts_rec)" where
  "snapshot_verified ml s pw =
     and_then (map_err MigrateStore (ml_snapshot ml s)) (\<lambda>db.
     and_then (map_err MigrateStore (ml_open ml db)) (\<lambda>copy.
     and_then (map_err MigrateStore (counts copy)) (\<lambda>c.
     and_then (map_err migrate_of_vault (verify_recovery (ml_crypto ml) copy pw)) (\<lambda>_.
     Ok (db, c)))))"

record export_inputs =
  xi_now :: unix_time
  xi_salt :: "bytes option"
  xi_nonce :: "bytes option"

definition package :: "migrate_lib \<Rightarrow> export_inputs \<Rightarrow> string \<Rightarrow> string \<Rightarrow> bytes \<Rightarrow> counts_rec \<Rightarrow> migrate_error + export_file" where
  "package ml xi host pw db c =
     and_then (map_err migrate_of_vault (encrypt_with_passphrase (ml_crypto ml) (xi_salt xi) (xi_nonce xi) pw AAD_EXPORT db)) (\<lambda>blob.
     (let m = \<lparr> mf_format = EXPORT_FORMAT, mf_schema = SCHEMA_VERSION, mf_source_host = host,
                mf_exported_at = xi_now xi, mf_data_sha256 = hex (ml_sha256 ml blob), mf_counts = c \<rparr>
      in and_then (build_zip ml m blob) (\<lambda>b.
         Ok \<lparr> ex_file_name = ''web-access-export-'' @ host @ ''-'' @ utc_stamp (xi_now xi) @ ''.zip'',
              ex_bytes = b, ex_manifest = m \<rparr>)))"

definition export_db :: "migrate_lib \<Rightarrow> export_inputs \<Rightarrow> app \<Rightarrow> string \<Rightarrow> migrate_error + export_file" where
  "export_db ml xi a pw =
     and_then (snapshot_verified ml (app_store a) pw) (\<lambda>(db, c). package ml xi (app_host_name a) pw db c)"

section \<open>Uploads waiting for their confirmation\<close>

definition PENDING_TTL :: nat where "PENDING_TTL = secs (30 * 60)"
definition MAX_PENDING :: nat where "MAX_PENDING = 2"

type_synonym uploads = "(string \<times> pending_import) list"

definition fresh_uploads :: "instant \<Rightarrow> uploads \<Rightarrow> uploads" where
  "fresh_uploads t ps = filter (\<lambda>(_, p). t - pi_uploaded p < PENDING_TTL) ps"

definition oldest_upload :: "uploads \<Rightarrow> string option" where
  "oldest_upload ps =
     map_option fst (List.find (\<lambda>(_, p). list_all (\<lambda>(_, q). pi_uploaded p \<le> pi_uploaded q) ps) ps)"

lemma oldest_upload_member: "oldest_upload ps = Some k \<Longrightarrow> k \<in> fst ` set ps"
  by (auto simp: oldest_upload_def dest!: find_Some_set intro: rev_image_eqI)

function make_room :: "uploads \<Rightarrow> uploads" where
  "make_room ps =
     (if length ps < MAX_PENDING then ps
      else case oldest_upload ps of
             None \<Rightarrow> ps
           | Some k \<Rightarrow> make_room (filter (\<lambda>p. fst p \<noteq> k) ps))"
  by pat_completeness auto
termination
proof (relation "measure length")
  fix ps k assume "oldest_upload ps = Some k"
  then have "length (filter (\<lambda>p. fst p \<noteq> k) ps) < length ps"
    using oldest_upload_member [of ps k] length_filter_less [of _ ps "\<lambda>p. fst p \<noteq> k"] by auto
  then show "(filter (\<lambda>p. fst p \<noteq> k) ps, ps) \<in> measure length" by simp
qed simp

declare make_room.simps [simp del]

definition stage :: "migrate_lib \<Rightarrow> instant \<Rightarrow> string \<Rightarrow> bytes \<Rightarrow> (app, migrate_error, string \<times> manifest) act" where
  "stage ml t token b =
     act_bind (act_res (read_zip ml b)) (\<lambda>(m, blob).
     act_bind (act_mod (\<lambda>a. a\<lparr>app_imports :=
       filter (\<lambda>p. fst p \<noteq> token) (make_room (fresh_uploads t (app_imports a))) @
         [(token, \<lparr> pi_blob = blob, pi_uploaded = t \<rparr>)]\<rparr>)) (\<lambda>_.
     act_ret (token, m)))"

definition sweep_pending :: "instant \<Rightarrow> app \<Rightarrow> nat \<times> app" where
  "sweep_pending t a =
     (let kept = fresh_uploads t (app_imports a)
      in (length (app_imports a) - length kept, a\<lparr>app_imports := kept\<rparr>))"

definition cancel_upload :: "string \<Rightarrow> app \<Rightarrow> bool \<times> app" where
  "cancel_upload k a =
     (k \<in> fst ` set (app_imports a), a\<lparr>app_imports := filter (\<lambda>p. fst p \<noteq> k) (app_imports a)\<rparr>)"

definition holds_data :: "counts_rec \<Rightarrow> bool" where
  "holds_data c \<longleftrightarrow> n_servers c > 0 \<or> n_users c > 1"

section \<open>Import\<close>

definition KEEP_BACKUPS :: nat where "KEEP_BACKUPS = 5"

text \<open>A file of the data directory: its name and what it holds.\<close>

type_synonym files = "(string \<times> bytes) list"

definition is_backup :: "string \<Rightarrow> bool" where
  "is_backup n \<longleftrightarrow> starts_with n ''backup-2'' \<and> ends_with n ''.db''"

text \<open>\<open>removable\<close>: whether the file system lets a file go.\<close>

definition prune_backups :: "(string \<Rightarrow> bool) \<Rightarrow> nat \<Rightarrow> string list \<Rightarrow> string list" where
  "prune_backups removable keep listing =
     (let backups = sort (filter is_backup listing);
          excess = length backups - keep
      in filter (\<lambda>n. \<not> (n \<in> set (take excess backups) \<and> removable n)) listing)"

definition is_temp_name :: "string \<Rightarrow> bool" where
  "is_temp_name n \<longleftrightarrow>
     (starts_with n ''export-'' \<or> starts_with n ''import-'') \<and>
     list_ex (ends_with n) [''.tmp'', ''.tmp-wal'', ''.tmp-shm'', ''.tmp-journal'']"

text \<open>\<open>age\<close> is how old a file is, where the file system says.\<close>

definition sweep_temp_files :: "(string \<Rightarrow> nat option) \<Rightarrow> (string \<Rightarrow> bool) \<Rightarrow> nat \<Rightarrow> string list \<Rightarrow> string list" where
  "sweep_temp_files age removable min_age listing =
     filter (\<lambda>n. \<not> (is_temp_name n \<and> (case age n of Some x \<Rightarrow> x \<ge> min_age | None \<Rightarrow> False) \<and> removable n)) listing"

record import_inputs =
  ii_now :: unix_time
  ii_instant :: instant
  ii_token :: string
  ii_write :: "string + unit"
  ii_replace :: "string + unit"
  ii_removable :: "string \<Rightarrow> bool"

record host =
  ho_app :: app
  ho_files :: files

text \<open>The staged copy made ready: the master key wrapped for this host, no freeze, a new instance.\<close>

definition prepare_import ::
  "migrate_lib \<Rightarrow> import_inputs \<Rightarrow> vault \<Rightarrow> bytes \<Rightarrow> string \<Rightarrow> migrate_error + (bytes \<times> counts_rec \<times> store)" where
  "prepare_import ml ii v db pw =
     and_then (map_err MigrateIo (ii_write ii)) (\<lambda>_.
     and_then (map_err MigrateStore (ml_open ml db)) (\<lambda>s0.
     and_then (map_err Integrity (ml_integrity ml s0)) (\<lambda>_.
     and_then (map_err migrate_of_vault (vault_adopt (ml_crypto ml) v s0 pw)) (\<lambda>(key, s1).
     and_then (map_err MigrateStore (set_flag s1 META_FROZEN False)) (\<lambda>(_, s2).
     and_then (map_err MigrateStore (set_flag s2 META_FREEZE_PENDING False)) (\<lambda>(_, s3).
     and_then (map_err MigrateStore (new_instance (ii_token ii) s3)) (\<lambda>(_, s4).
     and_then (map_err MigrateStore (counts s4)) (\<lambda>c.
     Ok (key, c, s4)))))))))"

definition backup_name :: "unix_time \<Rightarrow> string" where
  "backup_name now = ''backup-'' @ utc_stamp now @ ''.db''"

text \<open>
  SQLite writes a copy only to a file that does not exist. The copy stays when what it holds cannot
  be counted.
\<close>

definition write_backup :: "migrate_lib \<Rightarrow> string \<Rightarrow> (host, migrate_error, unit) act" where
  "write_backup ml name =
     act_bind (act_read (\<lambda>h. guard (name \<notin> fst ` set (ho_files h)) (MigrateStore (Sql ''output file already exists'')))) (\<lambda>_.
     act_bind (act_read (\<lambda>h. map_err MigrateStore (ml_snapshot ml (app_store (ho_app h))))) (\<lambda>b.
     act_bind (act_mod (\<lambda>h. h\<lparr>ho_files := ho_files h @ [(name, b)]\<rparr>)) (\<lambda>_.
     act_res (map_err MigrateStore (and_then (and_then (ml_open ml b) counts) (\<lambda>_. Ok ()))))))"

definition remove_file :: "string \<Rightarrow> host \<Rightarrow> host" where
  "remove_file name h = h\<lparr>ho_files := filter (\<lambda>f. fst f \<noteq> name) (ho_files h)\<rparr>"

text \<open>What a successful swap leaves: the imported database, its key, no tickets and no connections.\<close>

definition installed :: "import_inputs \<Rightarrow> bytes \<Rightarrow> store \<Rightarrow> host \<Rightarrow> host" where
  "installed ii key s h =
     (let kept = prune_backups (ii_removable ii) KEEP_BACKUPS (map fst (ho_files h));
          a = bump_generation ((ho_app h)\<lparr>app_store := s\<rparr>)
      in \<lparr> ho_app = a\<lparr>app_vault := vault_install key (app_vault a), app_tickets := tickets_clear (app_tickets a),
                      app_live := snd (end_all (app_live a))\<rparr>,
           ho_files = filter (\<lambda>f. fst f \<in> set kept) (ho_files h) \<rparr>)"

definition import_apply :: "migrate_lib \<Rightarrow> import_inputs \<Rightarrow> bytes \<Rightarrow> string \<Rightarrow> (host, migrate_error, counts_rec) act" where
  "import_apply ml ii blob pw =
     act_bind (act_res (map_err migrate_of_vault (decrypt_with_passphrase (ml_crypto ml) pw AAD_EXPORT blob))) (\<lambda>db.
     act_bind (act_read (\<lambda>h. prepare_import ml ii (app_vault (ho_app h)) db pw)) (\<lambda>(key, c, s).
     act_bind (write_backup ml (backup_name (ii_now ii))) (\<lambda>_.
     (case ii_replace ii of
        Err e \<Rightarrow>
          act_bind (act_mod (remove_file (backup_name (ii_now ii)))) (\<lambda>_.
          act_fail (MigrateStore (Invalid (''the database file is in use and could not be replaced; stop other tools using it and retry ('' @ e @ '')''))))
      | Ok _ \<Rightarrow> act_bind (act_mod (installed ii key s)) (\<lambda>_. act_ret c)))))"

definition confirm_host_ok :: "string option \<Rightarrow> app \<Rightarrow> bool" where
  "confirm_host_ok typed a =
     (case typed of Some h \<Rightarrow> eq_ignore_ascii_case (str_trim h) (app_host_name a) | None \<Rightarrow> False)"

definition confirm_import ::
  "migrate_lib \<Rightarrow> import_inputs \<Rightarrow> string \<Rightarrow> string \<Rightarrow> string option \<Rightarrow> (host, migrate_error, counts_rec) act" where
  "confirm_import ml ii upload pw typed =
     act_bind (act_read (\<lambda>h. ok_or UploadExpired
       (map_option pi_blob (map_of (fresh_uploads (ii_instant ii) (app_imports (ho_app h))) upload)))) (\<lambda>blob.
     act_bind (act_read (\<lambda>h. map_err MigrateStore (counts (app_store (ho_app h))))) (\<lambda>current.
     act_bind (act_read (\<lambda>h. guard (\<not> (holds_data current \<and> \<not> confirm_host_ok typed (ho_app h)))
       (Confirm (''this proxy already holds '' @ show_int (n_users current) @ '' user(s) and '' @ show_int (n_servers current) @
          '' server(s); type its name, '' @ app_host_name (ho_app h) @ '', to replace them'')))) (\<lambda>_.
     act_bind (import_apply ml ii blob pw) (\<lambda>c.
     act_bind (act_mod (\<lambda>h. h\<lparr>ho_app := snd (cancel_upload upload (ho_app h))\<rparr>)) (\<lambda>_.
     act_ret c)))))"

end
