(* ===== verification/WA_Migrate_Props.thy ===== *)
theory WA_Migrate_Props
  imports WA_Migrate WA_Sample
begin

text \<open>
  What migration guarantees: an export carries the database and its master key to another host, an
  import that fails leaves the running database alone, uploads are bounded, and pruning keeps the
  newest backups.
\<close>

section \<open>The archive comes back\<close>

text \<open>
  What the libraries promise: SQLite opens the copy it made, the manifest's JSON reads back, the zip
  gives each entry back, and the cipher opens what it sealed.
\<close>

definition migrate_ok :: "migrate_lib \<Rightarrow> bool" where
  "migrate_ok ml \<longleftrightarrow>
     crypto_ok (ml_crypto ml) \<and>
     (\<forall>s b. ml_snapshot ml s = Ok b \<longrightarrow> ml_open ml b = Ok s) \<and>
     (\<forall>m b. ml_to_json ml m = Ok b \<longrightarrow> ml_from_json ml b = Ok m) \<and>
     (\<forall>t es b. ml_zip ml t es = Ok b \<longrightarrow> distinct (map fst es) \<longrightarrow>
        (\<exists>f. ml_unzip ml b = Ok f \<and> (\<forall>n x. map_of es n = Some x \<longrightarrow> f n = Some (Ok x))))"

lemma migrate_okD:
  assumes "migrate_ok ml"
  shows "crypto_ok (ml_crypto ml)" "ml_snapshot ml s = Ok b \<Longrightarrow> ml_open ml b = Ok s"
    "ml_to_json ml m = Ok j \<Longrightarrow> ml_from_json ml j = Ok m"
  using assms by (simp_all add: migrate_ok_def)

lemma read_build_zip:
  assumes "migrate_ok ml" "build_zip ml m blob = Ok b" "mf_format m = EXPORT_FORMAT" "mf_schema m \<le> SCHEMA_VERSION"
    "mf_data_sha256 m = hex (ml_sha256 ml blob)"
  shows "read_zip ml b = Ok (m, blob)"
proof -
  obtain j where j: "ml_to_json ml m = Ok j" "ml_zip ml (utc_parts (mf_exported_at m)) [(MANIFEST, j), (DATA, blob)] = Ok b"
    using assms(2) by (auto simp: build_zip_def and_then_Ok)
  have d: "distinct (map fst [(MANIFEST, j), (DATA, blob)])" by (simp add: MANIFEST_def DATA_def)
  obtain f where f: "ml_unzip ml b = Ok f" "\<forall>n x. map_of [(MANIFEST, j), (DATA, blob)] n = Some x \<longrightarrow> f n = Some (Ok x)"
    using assms(1) j(2) d unfolding migrate_ok_def by blast
  have "f MANIFEST = Some (Ok j)" "f DATA = Some (Ok blob)" using f(2) by (simp_all add: MANIFEST_def DATA_def)
  then show ?thesis
    using f(1) migrate_okD(3) [OF assms(1) j(1)] assms(3-) by (simp add: read_zip_def read_entry_def and_then_def guard_def ok_or_def map_err_def)
qed

lemma package_Ok:
  assumes "package ml xi host pw db c = Ok e"
  shows "\<exists>blob. encrypt_with_passphrase (ml_crypto ml) (xi_salt xi) (xi_nonce xi) pw AAD_EXPORT db = Ok blob \<and>
    build_zip ml (ex_manifest e) blob = Ok (ex_bytes e) \<and> mf_format (ex_manifest e) = EXPORT_FORMAT \<and>
    mf_schema (ex_manifest e) = SCHEMA_VERSION \<and> mf_data_sha256 (ex_manifest e) = hex (ml_sha256 ml blob) \<and>
    mf_counts (ex_manifest e) = c \<and> mf_source_host (ex_manifest e) = host"
  using assms by (auto simp: package_def and_then_Ok Let_def)

lemma snapshot_verified_Ok:
  assumes "migrate_ok ml" "snapshot_verified ml s pw = Ok (db, c)"
  shows "ml_open ml db = Ok s \<and> counts s = Ok c \<and> (\<exists>key. verify_recovery (ml_crypto ml) s pw = Ok key)"
  using assms(2) migrate_okD(2) [OF assms(1)] by (auto simp: snapshot_verified_def and_then_Ok)

text \<open>An export read back: its manifest, and a blob that opens under the passphrase to a copy of the database.\<close>

lemma export_Ok:
  assumes "migrate_ok ml" "rnd_ok SALT_LEN (xi_salt xi)" "rnd_ok NONCE_LEN (xi_nonce xi)" "export_db ml xi a pw = Ok e"
  shows "\<exists>blob db. read_zip ml (ex_bytes e) = Ok (ex_manifest e, blob) \<and>
    decrypt_with_passphrase (ml_crypto ml) pw AAD_EXPORT blob = Ok db \<and> ml_open ml db = Ok (app_store a) \<and>
    counts (app_store a) = Ok (mf_counts (ex_manifest e))"
proof -
  obtain db c where s: "snapshot_verified ml (app_store a) pw = Ok (db, c)" and p: "package ml xi (app_host_name a) pw db c = Ok e"
    using assms(4) by (auto simp: export_db_def and_then_Ok)
  obtain blob where b: "encrypt_with_passphrase (ml_crypto ml) (xi_salt xi) (xi_nonce xi) pw AAD_EXPORT db = Ok blob"
      "build_zip ml (ex_manifest e) blob = Ok (ex_bytes e)" "mf_format (ex_manifest e) = EXPORT_FORMAT"
      "mf_schema (ex_manifest e) = SCHEMA_VERSION" "mf_data_sha256 (ex_manifest e) = hex (ml_sha256 ml blob)"
      "mf_counts (ex_manifest e) = c"
    using package_Ok [OF p] by blast
  have "decrypt_with_passphrase (ml_crypto ml) pw AAD_EXPORT blob = Ok db"
    by (rule decrypt_encrypt [OF migrate_okD(1) [OF assms(1)] _ _ b(1)]) (use assms(2,3) in \<open>auto simp: rnd_ok_def\<close>)
  moreover have "read_zip ml (ex_bytes e) = Ok (ex_manifest e, blob)"
    by (rule read_build_zip [OF assms(1) b(2,3) _ b(5)]) (simp add: b(4))
  ultimately show ?thesis using snapshot_verified_Ok [OF assms(1) s] b(6) by blast
qed

section \<open>The uploads\<close>

lemma oldest_upload_exists: "ps \<noteq> [] \<Longrightarrow> \<exists>k. oldest_upload ps = Some k"
proof -
  assume "ps \<noteq> []"
  then have "Min ((\<lambda>p. pi_uploaded (snd p)) ` set ps) \<in> (\<lambda>p. pi_uploaded (snd p)) ` set ps"
    by (intro Min_in) simp_all
  then obtain p where p: "p \<in> set ps" "pi_uploaded (snd p) = Min ((\<lambda>p. pi_uploaded (snd p)) ` set ps)"
    by (elim imageE) (rule that, simp_all)
  then have "list_all (\<lambda>(_, q). pi_uploaded (snd p) \<le> pi_uploaded q) ps"
    by (simp add: list_all_iff split_def)
  then show ?thesis
    using p(1) find_None_iff [of "\<lambda>(_, p). list_all (\<lambda>(_, q). pi_uploaded p \<le> pi_uploaded q) ps" ps]
    by (cases p) (auto simp: oldest_upload_def)
qed

lemma make_room_props: "length (make_room ps) < MAX_PENDING \<and> set (make_room ps) \<subseteq> set ps"
proof (induction ps rule: make_room.induct)
  case (1 ps)
  show ?case
  proof (cases "length ps < MAX_PENDING")
    case True
    then show ?thesis by (subst make_room.simps) (simp add: make_room.simps [of ps])
  next
    case False
    then have "ps \<noteq> []" by (auto simp: MAX_PENDING_def)
    then obtain k where k: "oldest_upload ps = Some k" using oldest_upload_exists by blast
    have "make_room ps = make_room (filter (\<lambda>p. fst p \<noteq> k) ps)" using False k by (subst make_room.simps) simp
    then show ?thesis using 1 [OF False k] by auto
  qed
qed

lemma stage_Ok:
  assumes "read_zip ml b = Ok (m, blob)"
  shows "stage ml t tok b a = (Ok (tok, m), a\<lparr>app_imports :=
       filter (\<lambda>p. fst p \<noteq> tok) (make_room (fresh_uploads t (app_imports a))) @ [(tok, \<lparr> pi_blob = blob, pi_uploaded = t \<rparr>)]\<rparr>)"
  using assms by (simp add: stage_def act_bind_def)

text \<open>
  C35: However uploads come, at most two are held once one is taken, each of them still within the
  half hour it waits for its confirmation; one that is not a readable export is not held at all.
\<close>

theorem uploads_bounded:
  "(\<forall>x. fst (stage ml t tok b a) = Ok x \<longrightarrow>
      length (app_imports (snd (stage ml t tok b a))) \<le> MAX_PENDING \<and>
      (\<forall>(k, p) \<in> set (app_imports (snd (stage ml t tok b a))). t - pi_uploaded p < PENDING_TTL)) \<and>
   (\<forall>e. fst (stage ml t tok b a) = Err e \<longrightarrow> snd (stage ml t tok b a) = a)"
proof (cases "read_zip ml b")
  case (Inl e)
  then show ?thesis by (simp add: stage_def act_bind_def)
next
  case (Inr r)
  have "length (filter (\<lambda>p. fst p \<noteq> tok) (make_room qs)) < MAX_PENDING" for qs :: uploads
    using make_room_props [of qs] le_less_trans length_filter_le by blast
  then show ?thesis
    using Inr make_room_props [of "fresh_uploads t (app_imports a)"]
    by (cases r) (fastforce simp: stage_Ok fresh_uploads_def PENDING_TTL_def secs_def Suc_le_eq)
qed

section \<open>The import\<close>

lemma set_flag_off_Ok: "set_flag s k False = Ok ((), s') \<longleftrightarrow> sql_fault s ''meta_delete'' = None \<and> s' = s\<lparr>meta := (meta s)(k := None)\<rparr>"
  by (auto simp: set_flag_def meta_delete_def stmt_Ok)

lemma new_instance_Ok:
  "new_instance tok s = Ok ((), s') \<Longrightarrow> s' = s\<lparr>meta := (meta s)(META_INSTANCE \<mapsto> take 32 (bytes_of tok))\<rparr>"
  by (auto simp: new_instance_def dest: meta_set_Ok)

text \<open>The database of another host, made this host's own.\<close>

definition rehomed :: "store \<Rightarrow> bytes \<Rightarrow> string \<Rightarrow> store" where
  "rehomed s blob tok =
     s\<lparr>meta := (meta s)(META_LOCAL \<mapsto> blob, META_FROZEN := None, META_FREEZE_PENDING := None,
                     META_INSTANCE \<mapsto> take 32 (bytes_of tok))\<rparr>"

lemma counts_rehomed: "counts (rehomed s blob tok) = counts s"
  by (simp add: rehomed_def counts_def stmt_def split: option.splits)

lemma prepare_import_Ok:
  assumes "prepare_import ml ii v db pw = Ok (key, c, s')" "ml_open ml db = Ok s"
  shows "verify_recovery (ml_crypto ml) s pw = Ok key \<and> counts s' = Ok c \<and>
    (\<exists>blob. protect (v_protector v) key = Ok blob \<and> s' = rehomed s blob (ii_token ii))"
proof -
  obtain s1 s2 s3 where p: "vault_adopt (ml_crypto ml) v s pw = Ok (key, s1)" "set_flag s1 META_FROZEN False = Ok ((), s2)"
      "set_flag s2 META_FREEZE_PENDING False = Ok ((), s3)" "new_instance (ii_token ii) s3 = Ok ((), s')" "counts s' = Ok c"
    using assms by (auto simp: prepare_import_def and_then_Ok)
  obtain blob where b: "verify_recovery (ml_crypto ml) s pw = Ok key" "protect (v_protector v) key = Ok blob"
      "s1 = s\<lparr>meta := (meta s)(META_LOCAL \<mapsto> blob)\<rparr>"
    using adopt_Ok [OF p(1)] by blast
  have "s' = rehomed s blob (ii_token ii)"
    using p(2,3) new_instance_Ok [OF p(4)] b(3) by (simp add: set_flag_off_Ok rehomed_def)
  with b p(5) show ?thesis by blast
qed

lemma write_backup_app: "ho_app (snd (write_backup ml n h)) = ho_app h"
proof -
  have "keeps (\<lambda>g. ho_app g = ho_app h) (write_backup ml n)"
    unfolding write_backup_def by (intro keeps_intros keeps_mod) simp_all
  then show ?thesis by (rule keepsD) simp
qed

lemma write_backup_same: "write_backup ml n h = (r, h1) \<Longrightarrow> ho_app h1 = ho_app h"
  using write_backup_app [of ml n h] by simp

lemma import_apply_Ok:
  assumes "import_apply ml ii blob pw h = (Ok c, h')"
  shows "\<exists>db key s h1. decrypt_with_passphrase (ml_crypto ml) pw AAD_EXPORT blob = Ok db \<and>
    prepare_import ml ii (app_vault (ho_app h)) db pw = Ok (key, c, s) \<and> ho_app h1 = ho_app h \<and> h' = installed ii key s h1"
proof -
  have "\<exists>db key s h1. decrypt_with_passphrase (ml_crypto ml) pw AAD_EXPORT blob = Ok db \<and>
      prepare_import ml ii (app_vault (ho_app h)) db pw = Ok (key, c, s) \<and>
      write_backup ml (backup_name (ii_now ii)) h = (Ok (), h1) \<and> h' = installed ii key s h1"
    using assms unfolding import_apply_def
    by (elim act_bind_OkE) (auto elim!: act_bind_OkE split: sum.splits)
  then show ?thesis using write_backup_same by blast
qed

lemma import_apply_Err: "import_apply ml ii blob pw h = (Err e, h') \<Longrightarrow> ho_app h' = ho_app h"
  by (cases "ii_replace ii") (auto simp: import_apply_def act_bind_Err remove_file_def act_bind_Ok dest: write_backup_same)

lemma confirm_import_Ok:
  assumes "confirm_import ml ii up pw typed h = (Ok c, h')"
  shows "\<exists>p n h1. map_of (fresh_uploads (ii_instant ii) (app_imports (ho_app h))) up = Some p \<and>
    counts (app_store (ho_app h)) = Ok n \<and> (holds_data n \<longrightarrow> confirm_host_ok typed (ho_app h)) \<and>
    import_apply ml ii (pi_blob p) pw h = (Ok c, h1) \<and> h' = h1\<lparr>ho_app := snd (cancel_upload up (ho_app h1))\<rparr>"
  using assms unfolding confirm_import_def
  by (elim act_bind_OkE) (auto elim!: act_bind_OkE)


text \<open>
  C7: Migration moves everything. A database exported under its recovery passphrase, uploaded on
  another host and confirmed there with that passphrase, is the database that host then serves: every
  user, server, assignment, saved credential and session, with the master key taken over and wrapped
  for the new host, the freeze lifted and a new instance; the old host's tickets and connections are
  gone and the upload is spent. The upload is accepted with the manifest the export has.
\<close>

theorem migration_round_trip:
  assumes lib: "migrate_ok ml" and rnd: "rnd_ok SALT_LEN (xi_salt xi)" "rnd_ok NONCE_LEN (xi_nonce xi)"
    and out: "export_db ml xi a pw = Ok e"
    and up: "stage ml t tok (ex_bytes e) b = (r, b')"
    and time: "ii_instant ii - t < PENDING_TTL"
    and imp: "confirm_import ml ii tok pw typed \<lparr> ho_app = b', ho_files = fs \<rparr> = (Ok c, h')"
  shows "r = Ok (tok, ex_manifest e) \<and> mf_counts (ex_manifest e) = c \<and>
    (\<exists>key blob. verify_recovery (ml_crypto ml) (app_store a) pw = Ok key \<and>
       protect (v_protector (app_vault b)) key = Ok blob \<and>
       app_store (ho_app h') = rehomed (app_store a) blob (ii_token ii) \<and>
       v_master (app_vault (ho_app h')) = Some key \<and>
       app_tickets (ho_app h') = (\<lambda>_. None) \<and>
       (\<forall>p \<in> set (inner (app_live (ho_app h'))). \<not> lv_cancel (snd p)) \<and>
       app_generation (ho_app h') = app_generation b + 1)"
proof -
  obtain blob db where x: "read_zip ml (ex_bytes e) = Ok (ex_manifest e, blob)"
      "decrypt_with_passphrase (ml_crypto ml) pw AAD_EXPORT blob = Ok db" "ml_open ml db = Ok (app_store a)"
      "counts (app_store a) = Ok (mf_counts (ex_manifest e))"
    using export_Ok [OF lib rnd out] by blast
  have st: "r = Ok (tok, ex_manifest e)" "b' = b\<lparr>app_imports :=
       filter (\<lambda>p. fst p \<noteq> tok) (make_room (fresh_uploads t (app_imports b))) @ [(tok, \<lparr> pi_blob = blob, pi_uploaded = t \<rparr>)]\<rparr>"
    using stage_Ok [OF x(1), of t tok b] up by simp_all
  have m: "map_of (fresh_uploads (ii_instant ii) (app_imports b')) tok = Some \<lparr> pi_blob = blob, pi_uploaded = t \<rparr>"
    using time by (auto simp: st(2) fresh_uploads_def map_add_Some_iff map_of_eq_None_iff)
  obtain h1 where h1: "import_apply ml ii blob pw \<lparr> ho_app = b', ho_files = fs \<rparr> = (Ok c, h1)"
      "h' = h1\<lparr>ho_app := snd (cancel_upload tok (ho_app h1))\<rparr>"
    using confirm_import_Ok [OF imp] m by auto
  obtain key s h2 where k: "prepare_import ml ii (app_vault b') db pw = Ok (key, c, s)" "ho_app h2 = b'" "h1 = installed ii key s h2"
    using import_apply_Ok [OF h1(1)] x(2) by auto
  note p = prepare_import_Ok [OF k(1) x(3)]
  have "counts s = counts (app_store a)" using p counts_rehomed by metis
  then have "mf_counts (ex_manifest e) = c" using p x(4) by simp
  then show ?thesis
    using st p h1(2) k(2,3)
    by (auto simp: installed_def Let_def cancel_upload_def bump_generation_def vault_install_def tickets_clear_def
        end_all_def end_where_def)
qed

text \<open>One host that exports its own database and takes it back, with libraries that know just that archive.\<close>

definition sample_blob :: bytes where
  "sample_blob = FORMAT # replicate SALT_LEN 3 @ replicate NONCE_LEN 4 @ AAD_EXPORT @ [42]"

definition sample_manifest :: manifest where
  "sample_manifest =
     \<lparr> mf_format = EXPORT_FORMAT, mf_schema = SCHEMA_VERSION, mf_source_host = ''proxy'', mf_exported_at = 50,
       mf_data_sha256 = hex sample_blob,
       mf_counts = \<lparr> n_users = 3, n_servers = 2, n_assignments = 1, n_credentials = 0 \<rparr> \<rparr>"

definition sample_lib :: migrate_lib where
  "sample_lib =
     \<lparr> ml_crypto = sample_crypto, ml_sha256 = (\<lambda>b. b),
       ml_snapshot = (\<lambda>s. if s = sample_app_store then Ok [42] else Err (Sql [])), ml_open = (\<lambda>_. Ok sample_app_store),
       ml_integrity = (\<lambda>_. Ok ()),
       ml_to_json = (\<lambda>m. if m = sample_manifest then Ok [5] else Err []), ml_from_json = (\<lambda>_. Ok sample_manifest),
       ml_zip = (\<lambda>_ es. if es = [(MANIFEST, [5]), (DATA, sample_blob)] then Ok [9] else Err []),
       ml_unzip = (\<lambda>_. Ok (\<lambda>n. map_option Ok (map_of [(MANIFEST, [5]), (DATA, sample_blob)] n))) \<rparr>"

definition sample_export :: export_inputs where
  "sample_export = \<lparr> xi_now = 50, xi_salt = Some (replicate SALT_LEN 3), xi_nonce = Some (replicate NONCE_LEN 4) \<rparr>"

definition sample_confirm :: import_inputs where
  "sample_confirm =
     \<lparr> ii_now = 60, ii_instant = 2000, ii_token = ''instance'', ii_write = Ok (), ii_replace = Ok (), ii_removable = (\<lambda>_. True) \<rparr>"

lemma sample_lib_ok: "migrate_ok sample_lib"
  by (auto simp: migrate_ok_def sample_lib_def sample_crypto_ok split: if_splits)

lemma sample_verify: "verify_recovery sample_crypto sample_app_store sample_pw = Ok sample_key"
  by code_simp

lemma sample_counts: "counts sample_app_store = Ok (mf_counts sample_manifest)"
  by code_simp

lemma sample_encrypt:
  "encrypt_with_passphrase sample_crypto (Some (replicate SALT_LEN 3)) (Some (replicate NONCE_LEN 4)) sample_pw AAD_EXPORT [42] = Ok sample_blob"
  by code_simp

lemma sample_exported:
  "export_db sample_lib sample_export sample_app sample_pw =
     Ok \<lparr> ex_file_name = ''web-access-export-proxy-'' @ utc_stamp 50 @ ''.zip'', ex_bytes = [9], ex_manifest = sample_manifest \<rparr>"
proof -
  have a: "app_store sample_app = sample_app_store" "app_host_name sample_app = ''proxy''"
    by (simp_all add: sample_app_def from_parts_def)
  have m: "\<lparr> mf_format = EXPORT_FORMAT, mf_schema = SCHEMA_VERSION, mf_source_host = ''proxy'', mf_exported_at = 50,
      mf_data_sha256 = hex sample_blob, mf_counts = mf_counts sample_manifest \<rparr> = sample_manifest"
    by (simp add: sample_manifest_def)
  have "snapshot_verified sample_lib sample_app_store sample_pw = Ok ([42], mf_counts sample_manifest)"
    by (simp add: snapshot_verified_def and_then_def sample_lib_def sample_verify sample_counts map_err_def)
  then show ?thesis
    by (simp add: export_db_def a and_then_def package_def build_zip_def sample_encrypt sample_lib_def sample_export_def
        map_err_def m Let_def)
qed

lemma sample_lib_crypto: "ml_crypto sample_lib = sample_crypto"
  by (simp add: sample_lib_def)

lemma sample_staged: "stage sample_lib 1000 ''up'' [9] sample_app =
    (Ok (''up'', sample_manifest), sample_app\<lparr>app_imports := [(''up'', \<lparr> pi_blob = sample_blob, pi_uploaded = 1000 \<rparr>)]\<rparr>)"
proof -
  have z: "read_zip sample_lib [9] = Ok (sample_manifest, sample_blob)"
    by (simp add: read_zip_def read_entry_def sample_lib_def and_then_def map_err_def ok_or_def guard_def MANIFEST_def DATA_def)
       (simp add: sample_manifest_def)
  show ?thesis
    by (simp add: stage_Ok [OF z] sample_app_def from_parts_def fresh_uploads_def make_room.simps MAX_PENDING_def)
qed

lemma sample_imported:
  "\<exists>h'. confirm_import sample_lib sample_confirm ''up'' sample_pw (Some '' Proxy '')
     \<lparr> ho_app = snd (stage sample_lib 1000 ''up'' [9] sample_app), ho_files = [] \<rparr> = (Ok (mf_counts sample_manifest), h')"
proof -
  have a: "app_store sample_app = sample_app_store" "app_host_name sample_app = ''proxy''" "app_imports sample_app = []"
      "app_vault sample_app = sample_vault"
    by (simp_all add: sample_app_def from_parts_def)
  let ?b = "sample_app\<lparr>app_imports := [(''up'', \<lparr> pi_blob = sample_blob, pi_uploaded = 1000 \<rparr>)]\<rparr>"
  have d: "decrypt_with_passphrase sample_crypto sample_pw AAD_EXPORT sample_blob = Ok [42]" by code_simp
  have f: "sql_fault sample_app_store x = None" for x by (simp add: sample_app_store_def sample_defs)
  have p: "prepare_import sample_lib sample_confirm sample_vault [42] sample_pw =
      Ok (sample_key, mf_counts sample_manifest, rehomed sample_app_store (1 # sample_key) ''instance'')"
    by (simp add: prepare_import_def sample_lib_def sample_confirm_def and_then_def map_err_def vault_adopt_def sample_verify
        sample_vault_def meta_set_def meta_delete_def set_flag_def new_instance_def stmt_def f rehomed_def [symmetric]
        counts_rehomed sample_counts)
  have w: "write_backup sample_lib n h = (Ok (), h\<lparr>ho_files := [(n, [42])]\<rparr>)" if "ho_files h = []" "app_store (ho_app h) = sample_app_store" for n h
    using that by (simp add: write_backup_def act_bind_def act_read_def guard_def map_err_def sample_lib_def and_then_def sample_counts)
  have l: "map_of (fresh_uploads 2000 (app_imports ?b)) ''up'' = Some \<lparr> pi_blob = sample_blob, pi_uploaded = 1000 \<rparr>"
    by (simp add: fresh_uploads_def PENDING_TTL_def secs_def)
  have t: "confirm_host_ok (Some '' Proxy '') ?b" by code_simp
  show ?thesis
    unfolding sample_staged snd_conv confirm_import_def import_apply_def act_bind_Ok
    using d p w l t by (simp add: a sample_counts sample_confirm_def act_bind_Ok sample_lib_crypto)
qed

theorem migration_round_trip_witness:
  "\<exists>h' blob. fst (stage sample_lib 1000 ''up'' [9] sample_app) = Ok (''up'', sample_manifest) \<and>
     snd (confirm_import sample_lib sample_confirm ''up'' sample_pw (Some '' Proxy '')
       \<lparr> ho_app = snd (stage sample_lib 1000 ''up'' [9] sample_app), ho_files = [] \<rparr>) = h' \<and>
     app_store (ho_app h') = rehomed sample_app_store blob ''instance''"
proof -
  obtain h' where h': "confirm_import sample_lib sample_confirm ''up'' sample_pw (Some '' Proxy '')
      \<lparr> ho_app = snd (stage sample_lib 1000 ''up'' [9] sample_app), ho_files = [] \<rparr> = (Ok (mf_counts sample_manifest), h')"
    using sample_imported by blast
  have r: "rnd_ok SALT_LEN (xi_salt sample_export)" "rnd_ok NONCE_LEN (xi_nonce sample_export)"
    by (simp_all add: sample_export_def rnd_ok_def)
  have t: "ii_instant sample_confirm - 1000 < PENDING_TTL" by (simp add: sample_confirm_def PENDING_TTL_def secs_def)
  have u: "stage sample_lib 1000 ''up'' (ex_bytes \<lparr> ex_file_name = ''web-access-export-proxy-'' @ utc_stamp 50 @ ''.zip'',
      ex_bytes = [9], ex_manifest = sample_manifest \<rparr>) sample_app =
      (fst (stage sample_lib 1000 ''up'' [9] sample_app), snd (stage sample_lib 1000 ''up'' [9] sample_app))"
    by simp
  have a: "app_store sample_app = sample_app_store" "ii_token sample_confirm = ''instance''"
    by (simp_all add: sample_app_def from_parts_def sample_confirm_def)
  show ?thesis
    using migration_round_trip [OF sample_lib_ok r sample_exported u t h'] by (simp add: a h') blast
qed


theorem uploads_bounded_witness:
  "length (app_imports (snd (stage sample_lib 1000 ''up'' [9] sample_app))) \<le> MAX_PENDING"
proof -
  have "fst (stage sample_lib 1000 ''up'' [9] sample_app) = Ok (''up'', sample_manifest)"
    using sample_staged by simp
  then show ?thesis
    using uploads_bounded [of sample_lib 1000 "''up''" "[9]" sample_app] by blast
qed

section \<open>One calendar\<close>

lemma add_if_one: "y + (if b then 1 else 0) = (if b then y + 1 else y :: int)"
  by simp

text \<open>
  The dates in export names, backup names and the zip are those of the calendar the sign-in
  assertions are read with, though the two are computed by different code: for every instant, before
  1970 too, both give the same year, month and day.
\<close>

theorem utc_parts_calendar:
  "utc_parts t =
     (case civil_from_days (t div 86400) of
        (y, m, d) \<Rightarrow> (y, m, d, t mod 86400 div 3600, t mod 86400 mod 3600 div 60, t mod 86400 mod 60))"
  unfolding utc_parts_def civil_from_days_def Let_def tdiv_era minus_div_mult_eq_mod
  by (simp only: prod.case add_if_one)

end
