(* ===== verification/WA_Server.thy ===== *)
theory WA_Server
  imports WA_Migrate WA_Scanner
begin

text \<open>
  The background work of \<open>server.rs\<close>: every half minute the sign-ins that have expired and the
  connections they leave behind, every hour the activity log past its retention, and the accounts
  the directory no longer allows. A pass that asks the directory lets go of the gate meanwhile;
  what the rest of the proxy does then is a function on the state.
\<close>

section \<open>Connections and the sign-ins they were opened under\<close>

definition sign_in_ended :: "store \<Rightarrow> unix_time \<Rightarrow> int \<Rightarrow> bytes \<Rightarrow> bool" where
  "sign_in_ended s at user_id th =
     (case session_user s th at of
        Ok (Some u) \<Rightarrow> u_id u \<noteq> user_id
      | Ok None \<Rightarrow> True
      | Err _ \<Rightarrow> False)"

definition end_orphaned_connections :: "unix_time \<Rightarrow> app \<Rightarrow> nat \<times> app" where
  "end_orphaned_connections at a =
     (let stale = map fst (filter (\<lambda>(_, user_id, th). sign_in_ended (app_store a) at user_id th) (connections (app_live a)));
          (n, l) = end_ids (app_live a) stale
      in (n, a\<lparr>app_live := l\<rparr>))"

text \<open>One tick of \<open>session_checks\<close>; a purge that fails changes nothing.\<close>

definition session_check_pass :: "unix_time \<Rightarrow> instant \<Rightarrow> app \<Rightarrow> app" where
  "session_check_pass now t a =
     (let a1 = (case sessions_purge (app_store a) now of Ok (_, s) \<Rightarrow> a\<lparr>app_store := s\<rparr> | Err _ \<Rightarrow> a);
          a2 = snd (end_orphaned_connections now a1)
      in snd (sweep_pending t a2))"

text \<open>One tick of \<open>scan_checks\<close>.\<close>

definition scan_check_pass :: "unix_time \<Rightarrow> check_outcome \<Rightarrow> app \<Rightarrow> app" where
  "scan_check_pass now out a =
     (case app_scan a of
        None \<Rightarrow> a
      | Some sv \<Rightarrow>
          (let sv' = check_health sv out now;
               a' = a\<lparr>app_scan := Some sv'\<rparr>
           in case transition (sv_health sv) (sv_health sv') of
                Some (action, detail) \<Rightarrow> a'\<lparr>app_store := audit (app_store a') now ''system'' action detail\<rparr>
              | None \<Rightarrow> a'))"

section \<open>Retention of the activity log\<close>

definition AUDIT_PRUNE_BATCH :: int where "AUDIT_PRUNE_BATCH = 1000"

lemma audit_prune_shrinks:
  "audit_prune s before batch = Ok (n, s') \<Longrightarrow> length (audit_log s') + n = length (audit_log s)"
  by (auto simp: audit_prune_def stmt_Ok count_where_def Let_def sum_length_filter_compl add.commute)

function prune_loop :: "unix_time \<Rightarrow> nat \<Rightarrow> store \<Rightarrow> nat \<times> store" where
  "prune_loop before removed s =
     (case audit_prune s before AUDIT_PRUNE_BATCH of
        Err _ \<Rightarrow> (removed, s)
      | Ok (n, s') \<Rightarrow>
          if n < nat AUDIT_PRUNE_BATCH then (removed + n, s') else prune_loop before (removed + n) s')"
  by pat_completeness auto
termination
  by (relation "measure (\<lambda>(_, _, s). length (audit_log s))")
     (auto dest!: audit_prune_shrinks simp: AUDIT_PRUNE_BATCH_def)

declare prune_loop.simps [simp del]

definition prune_audit :: "unix_time \<Rightarrow> app \<Rightarrow> nat \<times> app" where
  "prune_audit now a =
     (let (n, s) = prune_loop (now - int (cf_audit_days (app_cfg a)) * 86400) 0 (app_store a)
      in (n, a\<lparr>app_store := s\<rparr>))"

section \<open>Revocation\<close>

datatype pass_error = PassVault vault_error | PassStore store_error | PassDir dir_error

definition pass_error_text :: "pass_error \<Rightarrow> string" where
  "pass_error_text e =
     (case e of PassVault v \<Rightarrow> vault_error_text v | PassStore s \<Rightarrow> store_error_text s | PassDir d \<Rightarrow> dir_error_text d)"

record revocation_result =
  rp_checked :: nat
  rp_revoked :: nat
  rp_unread :: "string list"

definition pass_new :: revocation_result where
  "pass_new = \<lparr> rp_checked = 0, rp_revoked = 0, rp_unread = [] \<rparr>"

text \<open>Users found by a connection alone follow those with a sign-in, in the order of their ids.\<close>

fun add_live_users :: "store \<Rightarrow> int list \<Rightarrow> store_error + user list" where
  "add_live_users s [] = Ok []"
| "add_live_users s (i # is) =
     and_then (user_by_id s i) (\<lambda>u.
     and_then (add_live_users s is) (\<lambda>us.
     Ok (case u of Some v \<Rightarrow> if u_local v then us else v # us | None \<Rightarrow> us)))"

definition users_to_check :: "unix_time \<Rightarrow> app \<Rightarrow> store_error + user list" where
  "users_to_check now a =
     and_then (directory_users_with_sessions (app_store a) now) (\<lambda>us.
     and_then (add_live_users (app_store a)
                 (filter (\<lambda>i. i \<notin> set (map u_id us)) (sorted_list_of_set (live_user_ids (app_live a))))) (\<lambda>more.
     Ok (us @ more)))"

definition revocation_reason :: "user \<Rightarrow> account option \<Rightarrow> string option" where
  "revocation_reason u acc =
     (case acc of
        None \<Rightarrow> Some ''the account no longer exists''
      | Some x \<Rightarrow>
          if a_disabled x then Some ''the account is disabled''
          else if a_expired x then Some ''the account has expired''
          else (case u_sid u of
                  Some s \<Rightarrow> if s \<noteq> a_sid x then Some ''the account's SID changed'' else None
                | None \<Rightarrow> None))"

type_synonym lookup = "user \<times> string \<times> (dir_error + account option)"

definition revoke_user :: "unix_time \<Rightarrow> user \<Rightarrow> string \<Rightarrow> (app, pass_error, unit) act" where
  "revoke_user now u reason =
     act_bind (st_op PassStore (\<lambda>s. sessions_delete_user s (u_id u))) (\<lambda>_.
     act_bind (live_op (\<lambda>l. end_user l (u_id u))) (\<lambda>ended.
     log_audit now ''system'' ''revoked''
       (u_username u @ '': '' @ reason @ ''; '' @ show_nat ended @ '' live session(s) ended'')))"

fun apply_each :: "unix_time \<Rightarrow> lookup list \<Rightarrow> revocation_result \<Rightarrow> (app, pass_error, revocation_result) act" where
  "apply_each now [] p = act_ret p"
| "apply_each now ((checked, name, r) # rest) p =
     (case r of
        Err _ \<Rightarrow> apply_each now rest (p\<lparr>rp_unread := rp_unread p @ [name]\<rparr>)
      | Ok acc \<Rightarrow>
          act_bind (st_read PassStore (\<lambda>s. user_by_id s (u_id checked))) (\<lambda>found.
          (let p1 = p\<lparr>rp_checked := rp_checked p + 1\<rparr>
           in case found of
                None \<Rightarrow> apply_each now rest p1
              | Some u \<Rightarrow>
                  if u_local u \<or> u_username u \<noteq> u_username checked then apply_each now rest p1
                  else (case revocation_reason u acc of
                          None \<Rightarrow> apply_each now rest p1
                        | Some reason \<Rightarrow>
                            act_bind (revoke_user now u reason) (\<lambda>_.
                            apply_each now rest (p1\<lparr>rp_revoked := rp_revoked p1 + 1\<rparr>))))))"

definition apply_lookups ::
  "unix_time \<Rightarrow> 64 word \<Rightarrow> user list \<Rightarrow> (string \<times> (dir_error + account option)) list \<Rightarrow>
   (app, pass_error, revocation_result) act" where
  "apply_lookups now generation us found =
     act_bind (act_get app_generation) (\<lambda>g.
     if g \<noteq> generation then act_ret pass_new else apply_each now (zip us found) pass_new)"

definition lookup_names :: "user list \<Rightarrow> (string \<times> string option) list" where
  "lookup_names us =
     map (\<lambda>u. (u_username u,
               case u_sid u of Some s \<Rightarrow> if starts_with s ''S-'' then Some s else None | None \<Rightarrow> None)) us"

definition ask_each ::
  "libs \<Rightarrow> ldap \<Rightarrow> unix_time \<Rightarrow> directory \<Rightarrow> string \<Rightarrow> (string \<times> string option) list \<Rightarrow>
   (app, pass_error, (string \<times> (dir_error + account option)) list) act" where
  "ask_each lib ld now d pw asked = (\<lambda>a.
     let (r, d') = lookup_each (l_lower lib) ld now d pw asked
     in (map_err PassDir r, a\<lparr>app_directory := Some d'\<rparr>))"

definition revocation_pass ::
  "libs \<Rightarrow> ldap \<Rightarrow> unix_time \<Rightarrow> (app \<Rightarrow> app) \<Rightarrow> (app, pass_error, revocation_result option) act" where
  "revocation_pass lib ld now mid =
     act_bind (act_get lookup_directory) (\<lambda>dir.
     (case dir of
        None \<Rightarrow> act_ret None
      | Some d \<Rightarrow>
          act_bind (act_read (\<lambda>a. map_err PassVault (directory_password (l_crypto lib) a))) (\<lambda>set_pw.
          (case set_pw of
             None \<Rightarrow> act_ret None
           | Some pw \<Rightarrow>
               act_bind (act_get app_generation) (\<lambda>g.
               act_bind (act_read (\<lambda>a. map_err PassStore (users_to_check now a))) (\<lambda>us.
               if us = [] then act_ret (Some pass_new)
               else
                 act_bind (ask_each lib ld now d pw (lookup_names us)) (\<lambda>found.
                 act_bind (act_mod mid) (\<lambda>_.
                 act_bind (apply_lookups now g us found) (\<lambda>p. act_ret (Some p))))))))))"

text \<open>The health the Migration tab shows, and the log entry for a change between working and failing.\<close>

definition record_revocation ::
  "pass_error + revocation_result option \<Rightarrow> unix_time \<Rightarrow> revocation_health \<Rightarrow> (string \<times> string) option \<times> revocation_health" where
  "record_revocation outcome at h =
     (let was_failing = (rh_error h \<noteq> None)
      in case outcome of
           Ok None \<Rightarrow> (None, h)
         | Err e \<Rightarrow>
             ((if was_failing then None else Some (''revocation.failing'', pass_error_text e)),
              h\<lparr>rh_last_run := Some at, rh_error := Some (pass_error_text e)\<rparr>)
         | Ok (Some p) \<Rightarrow>
             (let h1 = h\<lparr>rh_last_run := Some at, rh_checked := rp_checked p, rh_unread := rp_unread p\<rparr>
              in if rp_checked p = 0 \<and> rp_unread p \<noteq> []
                 then
                   (let e = ''none of the '' @ show_nat (length (rp_unread p)) @ '' signed-in account(s) could be looked up''
                    in ((if was_failing then None else Some (''revocation.failing'', e)), h1\<lparr>rh_error := Some e\<rparr>))
                 else ((if was_failing then Some (''revocation.restored'', []) else None),
                       h1\<lparr>rh_last_ok := Some at, rh_error := None\<rparr>)))"

text \<open>One tick of \<open>directory_checks\<close>.\<close>

definition directory_check_pass :: "libs \<Rightarrow> ldap \<Rightarrow> unix_time \<Rightarrow> (app \<Rightarrow> app) \<Rightarrow> app \<Rightarrow> app" where
  "directory_check_pass lib ld now mid a =
     (let (outcome, a1) = revocation_pass lib ld now mid a;
          (entry, h) = record_revocation outcome now (app_revocation a1);
          a2 = a1\<lparr>app_revocation := h\<rparr>
      in case entry of
           Some (action, detail) \<Rightarrow> a2\<lparr>app_store := audit (app_store a2) now ''system'' action detail\<rparr>
         | None \<Rightarrow> a2)"

section \<open>One serving process\<close>

datatype lock_result = LockFree | LockHeld | LockFails string

definition serving_lock :: "string \<Rightarrow> string + unit \<Rightarrow> lock_result \<Rightarrow> string + unit" where
  "serving_lock data_dir opened r =
     and_then opened (\<lambda>_.
     (case r of
        LockFree \<Rightarrow> Ok ()
      | LockHeld \<Rightarrow> Err (''another web-access proxy is already serving '' @ data_dir)
      | LockFails e \<Rightarrow> Err e))"

end
