(* ===== verification/WA_Server_Props.thy ===== *)
theory WA_Server_Props
  imports WA_Server WA_Sample
begin

text \<open>
  What the background work achieves: retention ends and removes just what is past it, a connection
  does not outlive its sign-in by more than a tick, and a revocation pass ends the access of exactly
  the accounts the directory no longer allows.
\<close>

section \<open>Retention\<close>

lemma audit_prune_only_log: "audit_prune s before batch = Ok (n, t) \<Longrightarrow> t = s\<lparr>audit_log := audit_log t\<rparr>"
  by (auto simp: audit_prune_def stmt_Ok Let_def)

lemma no_old_entries: "old_entries s before = [] \<Longrightarrow> audit_log s = kept_entries s before"
  by (auto simp: old_entries_def kept_entries_def filter_empty_conv)

lemma prune_loop_exact:
  assumes "store_wf s" "sql_fault s ''audit_prune'' = None"
  shows "prune_loop before r s = (r + length (old_entries s before), s\<lparr>audit_log := kept_entries s before\<rparr>)"
  using assms
proof (induction before r s rule: prune_loop.induct)
  case (1 before r s)
  obtain n t where p: "audit_prune s before AUDIT_PRUNE_BATCH = Ok (n, t)"
    using 1(3) by (auto simp: audit_prune_def stmt_def Let_def)
  have b: "0 \<le> AUDIT_PRUNE_BATCH" by (simp add: AUDIT_PRUNE_BATCH_def)
  note e = audit_prune_effect [OF 1(2) b p]
  note t = audit_prune_only_log [OF p]
  show ?case
  proof (cases "n < nat AUDIT_PRUNE_BATCH")
    case True
    then have "length (old_entries s before) < nat AUDIT_PRUNE_BATCH" using e(3) by simp
    then have "old_entries t before = []" "n = length (old_entries s before)" using e by auto
    then show ?thesis
      using True p t no_old_entries [of t before] e(2) by (simp add: prune_loop.simps [of before r s])
  next
    case False
    have w: "store_wf t" "sql_fault t ''audit_prune'' = None"
      using audit_prune_wf [OF p 1(2)] 1(3) by (simp, subst t) simp
    have "prune_loop before (r + n) t = (r + n + length (old_entries t before), t\<lparr>audit_log := kept_entries t before\<rparr>)"
      by (rule 1(1) [OF p refl False w])
    moreover have "n + length (old_entries t before) = length (old_entries s before)" using e(1,3) by simp
    moreover have "t\<lparr>audit_log := kept_entries t before\<rparr> = s\<lparr>audit_log := kept_entries s before\<rparr>"
      using e(2) by (subst t) simp
    ultimately show ?thesis using False p by (simp add: prune_loop.simps [of before r s])
  qed
qed

text \<open>
  C21: The hourly retention ends, however long the log is, and leaves exactly the entries within the
  retention in their order: every older one is gone and counted, nothing else of the database changes.
\<close>

theorem prune_audit_exact:
  assumes "store_wf (app_store a)" "sql_fault (app_store a) ''audit_prune'' = None"
  shows "prune_audit now a =
    (length (old_entries (app_store a) (now - int (cf_audit_days (app_cfg a)) * 86400)),
     a\<lparr>app_store := (app_store a)\<lparr>audit_log := kept_entries (app_store a) (now - int (cf_audit_days (app_cfg a)) * 86400)\<rparr>\<rparr>)"
  by (simp add: prune_audit_def prune_loop_exact [OF assms])

lemma sample_app_store_wf: "store_wf sample_app_store"
  by (simp add: sample_app_store_def sample_defs store_wf_def users_wf_def groups_wf_def servers_wf_def group_refs_def
      pairs_wf_def sessions_wf_def audit_wf_def to_ascii_lowercase_def)

theorem prune_audit_exact_witness:
  "fst (prune_audit 8000000 sample_app) = 1 \<and> audit_log (app_store (snd (prune_audit 8000000 sample_app))) = [] \<and>
   fst (prune_audit 7000000 sample_app) = 0"
proof -
  have a: "app_store sample_app = sample_app_store" "cf_audit_days (app_cfg sample_app) = 90"
    by (simp_all add: sample_app_def from_parts_def sample_config_def)
  have f: "sql_fault sample_app_store ''audit_prune'' = None" by (simp add: sample_app_store_def sample_defs)
  have l: "audit_log sample_app_store = audit_log sample_store" by (simp add: sample_app_store_def)
  have o: "old_entries sample_app_store 224000 = audit_log sample_store" "kept_entries sample_app_store 224000 = []"
      "old_entries sample_app_store (- 776000) = []" "length (audit_log sample_store) = 1"
    unfolding old_entries_def kept_entries_def l by (simp_all add: sample_defs)
  show ?thesis
    using prune_audit_exact [of sample_app 8000000] prune_audit_exact [of sample_app 7000000]
    unfolding a using sample_app_store_wf f by (simp add: o)
qed

section \<open>Connections and their sign-ins\<close>

text \<open>Whether a user has a sign-in under a token that has not expired.\<close>

definition signed_in_as :: "store \<Rightarrow> unix_time \<Rightarrow> int \<Rightarrow> bytes \<Rightarrow> bool" where
  "signed_in_as s now i th \<longleftrightarrow> (\<exists>e \<in> set (sessions s). se_token_hash e = th \<and> se_expires e > now \<and> se_user_id e = i)"

lemma sign_in_ended_iff:
  assumes "store_wf s" "sql_fault s ''session_user'' = None"
  shows "sign_in_ended s now i th \<longleftrightarrow> \<not> signed_in_as s now i th"
proof (cases "List.find (\<lambda>e. se_token_hash e = th \<and> se_expires e > now) (sessions s)")
  case None
  then show ?thesis
    using assms(2) None [unfolded find_None_iff]
    by (auto simp: sign_in_ended_def signed_in_as_def session_user_def stmt_def)
next
  case (Some e)
  have e: "e \<in> set (sessions s)" "se_token_hash e = th" "se_expires e > now" using find_Some_set [OF Some] by auto
  then obtain u where u: "List.find (\<lambda>r. ur_id r = se_user_id e) (users s) = Some u" "ur_id u = se_user_id e"
    using store_wfD(8) [OF assms(1)] find_None_iff [of "\<lambda>r. ur_id r = se_user_id e" "users s"]
    by (cases "List.find (\<lambda>r. ur_id r = se_user_id e) (users s)") (fastforce simp: sessions_wf_def dest: find_Some_set)+
  have "e' = e" if "e' \<in> set (sessions s)" "se_token_hash e' = th" for e'
    using store_wfD(8) [OF assms(1)] e that distinct_map_eq [of se_token_hash "sessions s" e' e] by (simp add: sessions_wf_def)
  then have "signed_in_as s now i th \<longleftrightarrow> se_user_id e = i" unfolding signed_in_as_def using e by blast
  then show ?thesis
    using Some u assms(2) by (simp add: sign_in_ended_def session_user_def stmt_def user_from_def)
qed

lemma end_orphaned_cancelled:
  assumes "live_wf (app_live a)" "live_get (app_live a) i = Some l"
  shows "live_cancelled (app_live (snd (end_orphaned_connections now a))) i \<longleftrightarrow>
    live_cancelled (app_live a) i \<or> sign_in_ended (app_store a) now (lv_user_id l) (lv_token_hash l)"
proof -
  let ?stale = "map fst (filter (\<lambda>(_, user_id, th). sign_in_ended (app_store a) now user_id th) (connections (app_live a)))"
  have "(i, l') \<in> set (inner (app_live a)) \<longleftrightarrow> l' = l" for l'
    using map_of_eq_Some_iff [of "inner (app_live a)" i l'] assms
    by (auto simp: live_get_def live_wf_def dest: eq_key_imp_eq_value)
  then have "i \<in> set ?stale \<longleftrightarrow> sign_in_ended (app_store a) now (lv_user_id l) (lv_token_hash l)"
    by (auto simp: connections_def image_iff Bex_def split_def)
  then show ?thesis
    using assms(2) end_ids_from_cancelled [of 0 "app_live a" ?stale i]
    by (simp add: end_orphaned_connections_def end_ids_def split_def live_present_def Let_def)
qed

text \<open>
  C17: A connection does not outlive its sign-in. After one pass, a registered connection has been
  told to end exactly when it had been before or its user has no unexpired sign-in under the token
  the connection was opened with; the expired sign-ins are gone and only they, and no upload past
  its half hour is held.
\<close>

theorem session_check_exact:
  assumes "store_wf (app_store a)" "live_wf (app_live a)"
    and "sql_fault (app_store a) ''sessions_purge'' = None" "sql_fault (app_store a) ''session_user'' = None"
  shows "(\<forall>i l. live_get (app_live a) i = Some l \<longrightarrow>
      (live_cancelled (app_live (session_check_pass now t a)) i \<longleftrightarrow>
         live_cancelled (app_live a) i \<or> \<not> signed_in_as (app_store a) now (lv_user_id l) (lv_token_hash l))) \<and>
    sessions (app_store (session_check_pass now t a)) = filter (\<lambda>e. se_expires e > now) (sessions (app_store a)) \<and>
    (\<forall>p \<in> set (app_imports (session_check_pass now t a)). t - pi_uploaded (snd p) < PENDING_TTL)"
proof -
  define s where "s = (app_store a)\<lparr>sessions := filter (\<lambda>e. \<not> se_expires e \<le> now) (sessions (app_store a))\<rparr>"
  obtain n where n: "sessions_purge (app_store a) now = Ok (n, s)"
    using assms(3) by (simp add: sessions_purge_def stmt_def s_def)
  have s: "store_wf s" "sql_fault s ''session_user'' = None"
    using sessions_purge_wf [OF n assms(1)] assms(4) by (simp_all add: s_def)
  have p: "session_check_pass now t a = snd (sweep_pending t (snd (end_orphaned_connections now (a\<lparr>app_store := s\<rparr>))))"
    by (simp add: session_check_pass_def n)
  have o: "app_store (snd (end_orphaned_connections now b)) = app_store b"
      "app_imports (snd (end_orphaned_connections now b)) = app_imports b" for b
    by (simp_all add: end_orphaned_connections_def split_def Let_def)
  have "signed_in_as s now i th \<longleftrightarrow> signed_in_as (app_store a) now i th" for i th
    by (auto simp: signed_in_as_def s_def)
  then have "live_cancelled (app_live (session_check_pass now t a)) i \<longleftrightarrow>
         live_cancelled (app_live a) i \<or> \<not> signed_in_as (app_store a) now (lv_user_id l) (lv_token_hash l)"
    if "live_get (app_live a) i = Some l" for i l
    using end_orphaned_cancelled [of "a\<lparr>app_store := s\<rparr>" i l now] assms(2) that sign_in_ended_iff [OF s]
    by (simp add: p sweep_pending_def Let_def)
  moreover have "sessions (app_store (session_check_pass now t a)) = filter (\<lambda>e. se_expires e > now) (sessions (app_store a))"
    by (simp add: p sweep_pending_def Let_def o s_def not_le)
  moreover have "\<forall>p \<in> set (app_imports (session_check_pass now t a)). t - pi_uploaded (snd p) < PENDING_TTL"
    by (auto simp: p sweep_pending_def Let_def fresh_uploads_def)
  ultimately show ?thesis by blast
qed

theorem session_check_exact_witness:
  "live_cancelled (app_live (session_check_pass 200 0 (sample_app\<lparr>app_live := snd (register live_new 1 [7] 0)\<rparr>))) 0 \<and>
   \<not> live_cancelled (app_live (session_check_pass 50 0 (sample_app\<lparr>app_live := snd (register live_new 1 [7] 0)\<rparr>))) 0"
proof -
  let ?a = "sample_app\<lparr>app_live := snd (register live_new 1 [7] 0)\<rparr>"
  have w: "store_wf (app_store ?a)" "live_wf (app_live ?a)" "sql_fault (app_store ?a) ''sessions_purge'' = None"
      "sql_fault (app_store ?a) ''session_user'' = None"
    using sample_app_store_wf
    by (simp_all add: sample_app_def from_parts_def register_def live_new_def live_wf_def Let_def)
       (simp_all add: sample_app_store_def sample_defs)
  have g: "live_get (app_live ?a) 0 = Some \<lparr> lv_user_id = 1, lv_token_hash = [7], lv_server_id = None, lv_established = False,
      lv_generation = 0, lv_incarnations = None, lv_cancel = True \<rparr>"
    by (simp add: register_def live_new_def live_get_def Let_def)
  have "\<not> signed_in_as (app_store ?a) 200 1 [7]" "signed_in_as (app_store ?a) 50 1 [7]"
    by code_simp+
  then show ?thesis
    using session_check_exact [OF w, of 200 0] session_check_exact [OF w, of 50 0] g by (simp add: live_cancelled_def)
qed

section \<open>Revocation\<close>

text \<open>
  The users a set of answers revokes: the directory said something about them, they still are a
  directory user of the name it was asked about, and what it said is a reason.
\<close>

definition revocable :: "store \<Rightarrow> lookup list \<Rightarrow> int \<Rightarrow> bool" where
  "revocable s zs i \<longleftrightarrow>
     (\<exists>c name acc u. (c, name, Ok acc) \<in> set zs \<and> u_id c = i \<and> user_by_id s i = Ok (Some u) \<and>
        \<not> u_local u \<and> u_username u = u_username c \<and> revocation_reason u acc \<noteq> None)"

lemma user_by_id_same:
  "users s = users t \<Longrightarrow> sql_fault s = sql_fault t \<Longrightarrow> user_by_id s i = user_by_id t i"
  by (simp add: user_by_id_def stmt_def split: option.split)

lemma user_by_id_id: "user_by_id s i = Ok (Some u) \<Longrightarrow> u_id u = i"
  by (auto simp: user_by_id_def stmt_Ok user_from_def dest!: find_Some_set)

lemma revoke_user_Ok:
  assumes "revoke_user now u reason a = (Ok x, a')"
  shows "sessions (app_store a') = filter (\<lambda>e. se_user_id e \<noteq> u_id u) (sessions (app_store a)) \<and>
    users (app_store a') = users (app_store a) \<and> sql_fault (app_store a') = sql_fault (app_store a) \<and>
    app_live a' = snd (end_user (app_live a) (u_id u))"
  using assms unfolding revoke_user_def
  by (elim act_bind_OkE) (auto simp: step_Ok sessions_delete_user_def stmt_Ok)

lemma revocable_same: "users s = users t \<Longrightarrow> sql_fault s = sql_fault t \<Longrightarrow> revocable s zs i = revocable t zs i"
  unfolding revocable_def using user_by_id_same [of s t] by simp

lemma revocable_Nil [simp]: "\<not> revocable s [] i"
  by (simp add: revocable_def)

text \<open>What the rest of the answers revoke, and the first one.\<close>

lemma revocable_Cons:
  "revocable s ((c, name, r) # zs) i \<longleftrightarrow> revocable s zs i \<or> revocable s [(c, name, r)] i"
  unfolding revocable_def list.set by blast

lemma revocable_Err [simp]: "\<not> revocable s [(c, name, Err e)] i"
  by (simp add: revocable_def)

lemma revocable_Ok:
  "user_by_id s (u_id c) = Ok found \<Longrightarrow> revocable s [(c, name, Ok acc)] i \<longleftrightarrow>
     u_id c = i \<and> (\<exists>u. found = Some u \<and> \<not> u_local u \<and> u_username u = u_username c \<and> revocation_reason u acc \<noteq> None)"
  by (auto simp: revocable_def)

text \<open>What a pass leaves: the sign-ins and the connections of the users it revokes are gone.\<close>

definition revoked_by :: "(int \<Rightarrow> bool) \<Rightarrow> app \<Rightarrow> app \<Rightarrow> bool" where
  "revoked_by R a a' \<longleftrightarrow>
     sessions (app_store a') = filter (\<lambda>e. \<not> R (se_user_id e)) (sessions (app_store a)) \<and>
     users (app_store a') = users (app_store a) \<and> sql_fault (app_store a') = sql_fault (app_store a) \<and>
     (\<forall>i. map_option lv_user_id (live_get (app_live a') i) = map_option lv_user_id (live_get (app_live a) i) \<and>
        (live_cancelled (app_live a') i \<longleftrightarrow>
           live_cancelled (app_live a) i \<or> (\<exists>l. live_get (app_live a) i = Some l \<and> R (lv_user_id l))))"

lemma revoked_by_refl [simp]: "revoked_by (\<lambda>_. False) a a"
  by (simp add: revoked_by_def)

lemma revoked_by_trans:
  assumes "revoked_by R a b" "revoked_by S b c"
  shows "revoked_by (\<lambda>i. R i \<or> S i) a c"
proof -
  have "(\<exists>l. live_get (app_live b) i = Some l \<and> S (lv_user_id l)) \<longleftrightarrow> (\<exists>l. live_get (app_live a) i = Some l \<and> S (lv_user_id l))" for i
    using assms(1) by (cases "live_get (app_live a) i"; cases "live_get (app_live b) i") (auto simp: revoked_by_def dest: spec [of _ i])
  moreover have "sessions (app_store c) = filter (\<lambda>e. \<not> (R (se_user_id e) \<or> S (se_user_id e))) (sessions (app_store a))"
    using assms by (simp add: revoked_by_def conj_commute)
  ultimately show ?thesis using assms unfolding revoked_by_def by auto
qed

lemma revoke_user_revoked:
  assumes "revoke_user now u reason a = (Ok x, a')"
  shows "revoked_by (\<lambda>i. i = u_id u) a a'"
proof -
  note r = revoke_user_Ok [OF assms]
  have "map_option lv_user_id (live_get (snd (end_user (app_live a) (u_id u))) i) = map_option lv_user_id (live_get (app_live a) i)" for i
    by (auto simp: end_user_def live_get_end_where option.map_comp intro!: option.map_cong)
  then show ?thesis using r by (simp add: revoked_by_def end_user_def cancelled_end_where)
qed

lemma apply_each_revoked:
  "apply_each now zs p a = (Ok q, a') \<Longrightarrow> revoked_by (revocable (app_store a) zs) a a'"
proof (induction zs arbitrary: p a)
  case Nil
  then show ?case by (simp add: revoked_by_def)
next
  case (Cons z rest)
  obtain c name r where z: "z = (c, name, r)" by (cases z)
  have step: "revoked_by (revocable (app_store a) (z # rest)) a a'"
    if "revoked_by R a b" "\<And>i. R i = revocable (app_store a) [z] i" "apply_each now rest p' b = (Ok q, a')" for R b p'
  proof -
    have "revocable (app_store b) rest = revocable (app_store a) rest"
      using that(1) by (intro ext revocable_same) (simp_all add: revoked_by_def)
    then have "revocable (app_store a) (z # rest) = (\<lambda>i. R i \<or> revocable (app_store b) rest i)"
      using that(2) revocable_Cons [of "app_store a" c name r rest] by (auto simp: fun_eq_iff z)
    then show ?thesis using revoked_by_trans [OF that(1) Cons.IH [OF that(3)]] by simp
  qed
  show ?case
  proof (cases r)
    case (Inl e)
    then show ?thesis using Cons.prems step [of "\<lambda>_. False" a] by (simp add: z)
  next
    case (Inr acc)
    then obtain found where f: "user_by_id (app_store a) (u_id c) = Ok found"
        and m: "(let p1 = p\<lparr>rp_checked := rp_checked p + 1\<rparr>
           in case found of
                None \<Rightarrow> apply_each now rest p1
              | Some u \<Rightarrow>
                  if u_local u \<or> u_username u \<noteq> u_username c then apply_each now rest p1
                  else (case revocation_reason u acc of
                          None \<Rightarrow> apply_each now rest p1
                        | Some reason \<Rightarrow>
                            act_bind (revoke_user now u reason) (\<lambda>_.
                            apply_each now rest (p1\<lparr>rp_revoked := rp_revoked p1 + 1\<rparr>)))) a = (Ok q, a')"
      using Cons.prems by (auto elim!: act_bind_OkE simp: st_read_Ok z)
    show ?thesis
    proof (cases "\<exists>u reason. found = Some u \<and> \<not> u_local u \<and> u_username u = u_username c \<and> revocation_reason u acc = Some reason")
      case True
      then obtain u reason where u: "found = Some u" "\<not> u_local u" "u_username u = u_username c" "revocation_reason u acc = Some reason"
        by blast
      obtain b where b: "revoke_user now u reason a = (Ok (), b)"
          "apply_each now rest (p\<lparr>rp_checked := rp_checked p + 1, rp_revoked := rp_revoked p + 1\<rparr>) b = (Ok q, a')"
        using m u by (auto elim!: act_bind_OkE)
      show ?thesis
        by (rule step [OF revoke_user_revoked [OF b(1)] _ b(2)])
           (use u f user_by_id_id [of "app_store a" "u_id c" u] in \<open>auto simp: z Inr revocable_Ok [OF f]\<close>)
    next
      case False
      then have "apply_each now rest (p\<lparr>rp_checked := rp_checked p + 1\<rparr>) a = (Ok q, a')"
        using m by (auto simp: Let_def split: option.splits if_splits)
      moreover have "\<not> revocable (app_store a) [z] i" for i
        using False by (auto simp: z Inr revocable_Ok [OF f])
      ultimately show ?thesis using step [of "\<lambda>_. False" a] by simp
    qed
  qed
qed

text \<open>
  C18: A revocation pass ends the sign-ins and the connections of exactly the users the directory
  gave a reason for - gone, disabled, expired or a different account - and of no one else: not of an
  account that could not be looked up, nor of one that has since become someone else's. What was
  asked about a database an import has since replaced is thrown away.
\<close>

theorem revocation_exact:
  "(app_generation a \<noteq> g \<longrightarrow> apply_lookups now g us found a = (Ok pass_new, a)) \<and>
   (\<forall>p. app_generation a = g \<longrightarrow> fst (apply_lookups now g us found a) = Ok p \<longrightarrow>
      revoked_by (revocable (app_store a) (zip us found)) a (snd (apply_lookups now g us found a)))"
proof -
  have "apply_lookups now g us found a = apply_each now (zip us found) pass_new a" if "app_generation a = g"
    using that by (simp add: apply_lookups_def act_bind_def)
  then show ?thesis
    using apply_each_revoked [of now "zip us found" pass_new a]
    by (auto simp: apply_lookups_def act_bind_def prod_eq_iff)
qed

theorem revocation_exact_witness:
  "sessions sample_app_store \<noteq> [] \<and>
   sessions (app_store (snd (apply_lookups 50 0 [user_from (sample_user 1 ''alice'')] [(''alice'', Ok None)] sample_app))) = [] \<and>
   apply_lookups 50 1 [user_from (sample_user 1 ''alice'')] [(''alice'', Ok None)] sample_app = (Ok pass_new, sample_app)"
proof -
  let ?u = "user_from (sample_user 1 ''alice'')"
  have a: "app_store sample_app = sample_app_store" "app_generation sample_app = 0"
    by (simp_all add: sample_app_def from_parts_def)
  have ok: "is_ok (fst (apply_lookups 50 0 [?u] [(''alice'', Ok None)] sample_app))" by code_simp
  have s: "sessions sample_app_store \<noteq> []" "\<forall>e \<in> set (sessions sample_app_store). se_user_id e = 1" by code_simp+
  have "user_by_id sample_app_store (u_id ?u) = Ok (Some ?u)" "u_id ?u = 1" "\<not> u_local ?u" "revocation_reason ?u None \<noteq> None"
    by code_simp+
  then have "revocable sample_app_store [(?u, ''alice'', Ok None)] 1" by (simp add: revocable_Ok)
  then show ?thesis
    using revocation_exact [of sample_app 0 50 "[?u]" "[(''alice'', Ok None)]"] ok s
      revocation_exact [of sample_app 1 50 "[?u]" "[(''alice'', Ok None)]"]
    by (auto simp: a is_ok_iff revoked_by_def filter_empty_conv)
qed

text \<open>
  A directory password that is set and cannot be opened fails the pass, which the health then shows;
  only a password that is not set leaves the checks off.
\<close>

lemma unreadable_password_fails:
  assumes "lookup_directory a = Some d"
  shows "directory_password (l_crypto lib) a = Err e \<Longrightarrow> revocation_pass lib ld now mid a = (Err (PassVault e), a)"
    and "directory_password (l_crypto lib) a = Ok None \<Longrightarrow> revocation_pass lib ld now mid a = (Ok None, a)"
  using assms by (simp_all add: revocation_pass_def act_bind_def)

end
