(* ===== verification/WA_Csv.thy ===== *)
theory WA_Csv
  imports WA_Store WA_Text WA_Result
begin

text \<open>
  The forms an administrator fills in, from \<open>admin.rs\<close>: names, hosts, ports and domains, and the
  CSV file of servers. A line of the file is read into fields, the fields into a row; every problem
  is reported and nothing is imported unless the whole file is good.
\<close>

section \<open>Fields\<close>

definition valid_name :: "string \<Rightarrow> string + string" where
  "valid_name s =
     (let name = str_trim s
      in if name = [] \<or> char_count name > 100 \<or> list_ex is_control_char (chars name)
         then Err ''a name is 1 to 100 characters'' else Ok name)"

definition is_alphanumeric :: "char \<Rightarrow> bool" where
  "is_alphanumeric c \<longleftrightarrow>
     (let n = of_char c :: nat in (48 \<le> n \<and> n \<le> 57) \<or> (65 \<le> n \<and> n \<le> 90) \<or> (97 \<le> n \<and> n \<le> 122))"

definition host_char :: "char \<Rightarrow> bool" where
  "host_char c \<longleftrightarrow> is_alphanumeric c \<or> c \<in> set ''.-_:''"

definition valid_host :: "string \<Rightarrow> string + string" where
  "valid_host s =
     (let host = str_trim s
      in if count_where (\<lambda>c. c = CHR '':'') host = 1
         then Err (debug_str host @ '' includes a port; give the host alone and the port in its own field'')
         else if host \<noteq> [] \<and> length host \<le> 253 \<and> list_all host_char host then Ok host
         else Err (debug_str host @ '' is not a host name or address''))"

definition domain_char :: "string \<Rightarrow> bool" where
  "domain_char ch \<longleftrightarrow> \<not> is_ws_char ch \<and> \<not> is_control_char ch \<and> ch \<notin> set [[CHR 0x5C], ''@'', ''/'']"

definition valid_domain :: "string \<Rightarrow> string + string option" where
  "valid_domain s =
     (let d = str_trim s
      in if d = [] then Ok None
         else if length d \<le> 255 \<and> list_all domain_char (chars d) then Ok (Some d)
         else Err (debug_str d @ '' is not a domain name''))"

definition valid_port :: "16 word option \<Rightarrow> string + 16 word" where
  "valid_port p =
     (let v = (case p of Some x \<Rightarrow> x | None \<Rightarrow> 3389) in if v = 0 then Err ''port must be 1 to 65535'' else Ok v)"

section \<open>A line of CSV\<close>

text \<open>\<open>csv_fields\<close>: the cells before, the one being read, whether inside quotes, and what is left.\<close>

fun csv_from :: "string list \<Rightarrow> string \<Rightarrow> bool \<Rightarrow> string \<Rightarrow> string + string list" where
  "csv_from cells cur q [] = (if q then Err ''unterminated quote'' else Ok (map str_trim (cells @ [cur])))"
| "csv_from cells cur q (c # cs) =
     (if c = CHR 0x22 \<and> q
      then (case cs of
              d # ds \<Rightarrow> if d = CHR 0x22 then csv_from cells (cur @ [c]) q ds else csv_from cells cur False cs
            | [] \<Rightarrow> csv_from cells cur False cs)
      else if c = CHR 0x22 \<and> str_trim cur = [] then csv_from cells [] True cs
      else if c = CHR '','' \<and> \<not> q then csv_from (cells @ [cur]) [] q cs
      else csv_from cells (cur @ [c]) q cs)"

definition csv_fields :: "string \<Rightarrow> string + string list" where
  "csv_fields line = csv_from [] [] False line"

section \<open>The file\<close>

text \<open>\<open>str::lines\<close>.\<close>

definition lines_of :: "string \<Rightarrow> string list" where
  "lines_of s =
     (let ls = split_on CHR 0x0A s; ls' = (if last ls = [] then butlast ls else ls)
      in map (\<lambda>l. if l \<noteq> [] \<and> last l = CHR 0x0D then butlast l else l) ls')"

definition port_cell :: "string list \<Rightarrow> string + 16 word option" where
  "port_cell cells =
     (let p = (if length cells > 2 then str_trim (cells ! 2) else [])
      in if p = [] then Ok None
         else (case parse_unsigned 65536 p of
                 Some n \<Rightarrow> if n > 0 then Ok (Some (of_nat n)) else Err (''port '' @ debug_str p @ '' is not 1 to 65535'')
               | None \<Rightarrow> Err (''port '' @ debug_str p @ '' is not 1 to 65535'')))"

definition group_cell :: "string list \<Rightarrow> string + string option option" where
  "group_cell cells =
     (if length cells \<le> 3 then Ok None
      else if str_trim (cells ! 3) = [] then Ok (Some None)
      else map_err (\<lambda>e. ''group: '' @ e) (and_then (valid_name (str_trim (cells ! 3))) (\<lambda>v. Ok (Some (Some v)))))"

definition domain_cell :: "string list \<Rightarrow> string + string option option" where
  "domain_cell cells =
     (if length cells \<le> 4 then Ok None
      else map_err (\<lambda>e. ''domain: '' @ e) (and_then (valid_domain (cells ! 4)) (\<lambda>v. Ok (Some v))))"

text \<open>One line into a row; \<open>seen\<close> are the names of the rows before, as compared.\<close>

definition import_line :: "(string \<Rightarrow> string) \<Rightarrow> string list \<Rightarrow> string \<Rightarrow> string + import_row" where
  "import_line lower seen line =
     and_then (csv_fields line) (\<lambda>cells.
     and_then (guard (2 \<le> length cells \<and> length cells \<le> 5) ''expected name,host[,port[,group[,domain]]]'') (\<lambda>_.
     and_then (valid_name (cells ! 0)) (\<lambda>name.
     and_then (valid_host (cells ! 1)) (\<lambda>host.
     and_then (port_cell cells) (\<lambda>port.
     and_then (group_cell cells) (\<lambda>grp.
     and_then (domain_cell cells) (\<lambda>domain.
     and_then (guard (lower name \<notin> set seen) (name @ '' appears more than once'')) (\<lambda>_.
     Ok \<lparr> ir_name = name, ir_host = host, ir_port = port, ir_group = grp, ir_domain = domain \<rparr>))))))))"

fun import_lines :: "(string \<Rightarrow> string) \<Rightarrow> nat \<Rightarrow> bool \<Rightarrow> string list \<Rightarrow> string list \<Rightarrow> import_row list \<times> string list" where
  "import_lines lower n first seen [] = ([], [])"
| "import_lines lower n first seen (raw # rest) =
     (let line = str_trim raw
      in if line = [] \<or> starts_with line ''#'' then import_lines lower (n + 1) first seen rest
         else if first \<and> starts_with (to_ascii_lowercase line) ''name,'' then import_lines lower (n + 1) False seen rest
         else (case import_line lower seen line of
                 Err e \<Rightarrow>
                   (let (rows, errors) = import_lines lower (n + 1) False seen rest
                    in (rows, (''line '' @ show_nat n @ '': '' @ e) # errors))
               | Ok row \<Rightarrow>
                   (let (rows, errors) = import_lines lower (n + 1) False (lower (ir_name row) # seen) rest
                    in (row # rows, errors))))"

definition parse_import :: "(string \<Rightarrow> string) \<Rightarrow> string \<Rightarrow> string list + import_row list" where
  "parse_import lower txt =
     (let (rows, errors) = import_lines lower 1 True [] (lines_of txt)
      in if errors = [] then Ok rows else Err errors)"

section \<open>Properties\<close>

text \<open>A field written the way CSV writes it.\<close>

definition csv_escape :: "string \<Rightarrow> string" where
  "csv_escape f = concat (map (\<lambda>c. if c = CHR 0x22 then [c, c] else [c]) f)"

definition csv_quote :: "string \<Rightarrow> string" where
  "csv_quote f = CHR 0x22 # csv_escape f @ [CHR 0x22]"

lemma csv_from_escaped:
  assumes "rest = [] \<or> hd rest \<noteq> CHR 0x22"
  shows "csv_from cells cur True (csv_escape f @ CHR 0x22 # rest) = csv_from cells (cur @ f) False rest"
proof (induction f arbitrary: cur)
  case Nil
  then show ?case using assms by (cases rest) (simp_all add: csv_escape_def)
next
  case (Cons c f)
  have "csv_escape (c # f) = (if c = CHR 0x22 then [c, c] else [c]) @ csv_escape f" by (simp add: csv_escape_def)
  then show ?case using Cons by simp
qed

lemma csv_from_quoted:
  "fs \<noteq> [] \<Longrightarrow> csv_from cells [] False (join '','' (map csv_quote fs)) = Ok (map str_trim (cells @ fs))"
proof (induction fs arbitrary: cells)
  case (Cons f fs)
  have open_quote: "csv_from cells [] False (csv_quote f @ rest) = csv_from cells f False rest"
    if "rest = [] \<or> hd rest \<noteq> CHR 0x22" for rest
    using csv_from_escaped [OF that, of cells "[]" f] by (simp add: csv_quote_def str_trim_def)
  show ?case
  proof (cases fs)
    case Nil
    then show ?thesis using open_quote [of "[]"] by simp
  next
    case (Cons g gs)
    then show ?thesis
      using open_quote [of "CHR '','' # join '','' (map csv_quote fs)"] Cons.IH [of "cells @ [f]"] by simp
  qed
qed simp



text \<open>What a row of an import may hold.\<close>

definition name_ok :: "string \<Rightarrow> bool" where
  "name_ok s \<longleftrightarrow> s \<noteq> [] \<and> char_count s \<le> 100 \<and> \<not> list_ex is_control_char (chars s)"

definition host_ok :: "string \<Rightarrow> bool" where
  "host_ok s \<longleftrightarrow> s \<noteq> [] \<and> length s \<le> 253 \<and> list_all host_char s \<and> count_where (\<lambda>c. c = CHR '':'') s \<noteq> 1"

definition row_ok :: "import_row \<Rightarrow> bool" where
  "row_ok r \<longleftrightarrow>
     name_ok (ir_name r) \<and> host_ok (ir_host r) \<and> ir_port r \<noteq> Some 0 \<and>
     (\<forall>g. ir_group r = Some (Some g) \<longrightarrow> name_ok g) \<and>
     (\<forall>d. ir_domain r = Some (Some d) \<longrightarrow> d \<noteq> [] \<and> length d \<le> 255 \<and> list_all domain_char (chars d))"

lemma valid_name_Ok: "valid_name s = Ok v \<Longrightarrow> name_ok v"
  by (auto simp: valid_name_def name_ok_def Let_def split: if_splits)

lemma valid_host_Ok: "valid_host s = Ok v \<Longrightarrow> host_ok v"
  by (auto simp: valid_host_def host_ok_def Let_def split: if_splits)

lemma port_cell_Ok: "port_cell cells = Ok p \<Longrightarrow> p \<noteq> Some 0"
proof
  assume "port_cell cells = Ok p" "p = Some 0"
  then obtain n where "n > 0" "n < 65536" "of_nat n = (0 :: 16 word)"
    by (auto simp: port_cell_def Let_def parse_unsigned_def split: if_splits option.splits)
  then have "n mod 2 ^ 16 = unat (0 :: 16 word)" using unat_of_nat [where 'a = 16, of n] by simp
  with \<open>n > 0\<close> \<open>n < 65536\<close> show False by simp
qed

lemma group_cell_Ok: "group_cell cells = Ok (Some (Some g)) \<Longrightarrow> name_ok g"
  by (auto simp: group_cell_def and_then_Ok dest: valid_name_Ok split: if_splits)

lemma domain_cell_Ok:
  "domain_cell cells = Ok (Some (Some d)) \<Longrightarrow> d \<noteq> [] \<and> length d \<le> 255 \<and> list_all domain_char (chars d)"
  by (auto simp: domain_cell_def and_then_Ok valid_domain_def Let_def split: if_splits)

lemma import_line_Ok: "import_line lower seen line = Ok r \<Longrightarrow> row_ok r \<and> lower (ir_name r) \<notin> set seen"
  unfolding import_line_def row_ok_def
  by (auto simp: and_then_Ok dest: valid_name_Ok valid_host_Ok port_cell_Ok group_cell_Ok domain_cell_Ok)

lemma import_lines_ok:
  "import_lines lower n first seen ls = (rows, errors) \<Longrightarrow>
     list_all row_ok rows \<and> distinct (map (lower \<circ> ir_name) rows) \<and> (lower \<circ> ir_name) ` set rows \<inter> set seen = {}"
proof (induction lower n first seen ls arbitrary: rows errors rule: import_lines.induct)
  case (2 lower n first seen raw rest)
  then show ?case
    by (auto simp: Let_def split: if_splits sum.splits prod.splits dest!: import_line_Ok) fastforce+
qed simp

text \<open>What a good file gives: rows that are each good, no two with the same name.\<close>

lemma parse_import_Ok:
  "parse_import lower txt = Ok rows \<Longrightarrow> list_all row_ok rows \<and> distinct (map (lower \<circ> ir_name) rows)"
  using import_lines_ok [of lower 1 True "[]" "lines_of txt"]
  by (auto simp: parse_import_def split: prod.splits if_splits)

end
