(* ===== verification/WA_Admin.thy ===== *)
theory WA_Admin
  imports WA_Web WA_Migrate WA_Csv
begin

text \<open>
  \<open>admin.rs\<close>: the management plane. Every handler takes the administrator the request was checked
  for; those that take the gate themselves take the sign-in's token and check it again under the
  gate. What the rest of the proxy does while a handler waits for the directory, for the gate or
  for a blocking task is a function on the state. \<open>admin_route\<close> is the router.
\<close>

section \<open>Guards and errors\<close>

definition api_of_migrate :: "migrate_error \<Rightarrow> api_error" where
  "api_of_migrate e =
     (case e of
        MigrateNoRecovery \<Rightarrow> conflict (migrate_error_text e)
      | MigrateVault v \<Rightarrow> api_of_vault v
      | MigrateStore s \<Rightarrow> api_of_store s
      | MigrateIo _ \<Rightarrow> internal
      | _ \<Rightarrow> bad_request (migrate_error_text e))"

definition not_frozen :: "unit handler" where
  "not_frozen = act_read (\<lambda>a. guard (\<not> frozen a)
     (conflict ''this proxy is frozen for migration; unfreeze it on the Migration page to make changes''))"

definition same_generation :: "64 word \<Rightarrow> unit handler" where
  "same_generation g = act_read (\<lambda>a. guard (app_generation a = g)
     (conflict ''this proxy's data was replaced while that request ran; try it again''))"

record admin_inputs =
  ai_now :: unix_time
  ai_instant :: instant
  ai_random :: "int \<Rightarrow> int"
  ai_salt :: "bytes option"
  ai_nonce :: "bytes option"
  ai_key :: "bytes option"
  ai_token :: string
  ai_mid :: "app \<Rightarrow> app"

section \<open>Users\<close>

definition admin_users :: "libs \<Rightarrow> (user_listed \<times> bool) list handler" where
  "admin_users lib =
     act_bind (store_ask users_list) (\<lambda>rows.
     act_get (\<lambda>a. map (\<lambda>r. (r, is_bootstrap_admin (l_lower lib) (app_cfg a) (u_username (ul_user r)))) rows))"

text \<open>Whether the directory knows the account; an outage does not block the add.\<close>

definition check_account :: "libs \<Rightarrow> ldap \<Rightarrow> unix_time \<Rightarrow> string \<Rightarrow> string option \<Rightarrow> (bool \<times> string option) handler" where
  "check_account lib ld now username password = (\<lambda>a.
     case (lookup_directory a, password) of
       (Some d, Some pw) \<Rightarrow>
         (let (r, d') = lookup_many (l_lower lib) ld now d pw [username]; a' = a\<lparr>app_directory := Some d'\<rparr>
          in case r of
               Ok found \<Rightarrow>
                 (case found of
                    (_, Some acc) # _ \<Rightarrow> (Ok (True, a_display_name acc), a')
                  | _ \<Rightarrow> (Err (api_error_of 404 (''the directory has no account named '' @ username)), a'))
             | Err _ \<Rightarrow> (Ok (False, None), a'))
     | _ \<Rightarrow> (Ok (False, None), a))"

definition add_user :: "libs \<Rightarrow> ldap \<Rightarrow> admin_inputs \<Rightarrow> bytes \<Rightarrow> string \<Rightarrow> (int \<times> bool) handler" where
  "add_user lib ld ai th raw =
     act_bind (act_res (ok_or (bad_request ''that is not a valid username'') (normalize_username (l_lower lib) raw))) (\<lambda>username.
     act_bind (act_read (revalidate_admin lib (ai_now ai) th)) (\<lambda>_.
     act_bind not_frozen (\<lambda>_.
     act_bind (act_get (\<lambda>a. case lookup_directory a of
                 Some _ \<Rightarrow> (case directory_password (l_crypto lib) a of Ok p \<Rightarrow> p | Err _ \<Rightarrow> None)
               | None \<Rightarrow> None)) (\<lambda>password.
     act_bind (act_get app_generation) (\<lambda>g.
     act_bind (check_account lib ld (ai_now ai) username password) (\<lambda>(verified, display).
     act_bind (act_mod (ai_mid ai)) (\<lambda>_.
     act_bind (same_generation g) (\<lambda>_.
     act_bind (act_read (revalidate_admin lib (ai_now ai) th)) (\<lambda>admin.
     act_bind not_frozen (\<lambda>_.
     act_bind (store_do (\<lambda>s. user_create s (ai_now ai) (ai_random ai (users_seq s)) username display)) (\<lambda>i.
     act_bind (log_audit (ai_now ai) (u_username admin) ''user.add'' username) (\<lambda>_.
     act_ret (i, verified)))))))))))))"

definition user_or_404 :: "int \<Rightarrow> user handler" where
  "user_or_404 i = act_bind (store_ask (\<lambda>s. user_by_id s i)) (\<lambda>u. act_res (ok_or not_found u))"

definition update_user :: "unix_time \<Rightarrow> user \<Rightarrow> int \<Rightarrow> bool \<Rightarrow> unit handler" where
  "update_user now admin i make_admin =
     act_bind not_frozen (\<lambda>_.
     act_bind (user_or_404 i) (\<lambda>u.
     act_bind (store_do (\<lambda>s. user_set_admin s i make_admin)) (\<lambda>_.
     log_audit now (u_username admin) (if make_admin then ''user.admin.grant'' else ''user.admin.revoke'') (u_username u))))"

definition remove_user :: "unix_time \<Rightarrow> user \<Rightarrow> int \<Rightarrow> unit handler" where
  "remove_user now admin i =
     act_bind not_frozen (\<lambda>_.
     act_bind (user_or_404 i) (\<lambda>u.
     act_bind (store_do (\<lambda>s. user_delete s i)) (\<lambda>_.
     act_bind (live_op (\<lambda>l. end_user l i)) (\<lambda>_.
     log_audit now (u_username admin) ''user.remove'' (u_username u)))))"

definition user_servers :: "int \<Rightarrow> int list handler" where
  "user_servers i = act_bind (user_or_404 i) (\<lambda>_. store_ask (\<lambda>s. assignment_ids s i))"

definition end_user_servers :: "int \<Rightarrow> int list \<Rightarrow> live_sessions \<Rightarrow> live_sessions" where
  "end_user_servers i gone l = fold (\<lambda>v l. snd (end_user_server l i v)) gone l"

definition set_user_servers :: "unix_time \<Rightarrow> user \<Rightarrow> int \<Rightarrow> int list \<Rightarrow> (nat \<times> nat) handler" where
  "set_user_servers now admin i ids =
     act_bind not_frozen (\<lambda>_.
     act_bind (user_or_404 i) (\<lambda>u.
     act_bind (store_ask (\<lambda>s. assignment_ids s i)) (\<lambda>before.
     act_bind (store_do (\<lambda>s. set_assignments s i ids)) (\<lambda>(added, removed).
     act_bind (live_op (\<lambda>l. ((), end_user_servers i (filter (\<lambda>v. v \<notin> set ids) before) l))) (\<lambda>_.
     act_bind (if added + removed > 0
               then log_audit now (u_username admin) ''user.servers''
                      (u_username u @ '': +'' @ show_nat added @ '' -'' @ show_nat removed)
               else act_ret ()) (\<lambda>_.
     act_ret (added, removed)))))))"

definition copy_from :: "unix_time \<Rightarrow> user \<Rightarrow> int \<Rightarrow> int \<Rightarrow> nat handler" where
  "copy_from now admin i src_id =
     act_bind not_frozen (\<lambda>_.
     act_bind (user_or_404 i) (\<lambda>dst.
     act_bind (user_or_404 src_id) (\<lambda>src.
     act_bind (store_do (\<lambda>s. copy_assignments s src_id i)) (\<lambda>added.
     act_bind (log_audit now (u_username admin) ''user.servers.copy''
       (u_username dst @ '' <- '' @ u_username src @ '': +'' @ show_nat added)) (\<lambda>_.
     act_ret added)))))"

definition clear_sid :: "unix_time \<Rightarrow> user \<Rightarrow> int \<Rightarrow> unit handler" where
  "clear_sid now admin i =
     act_bind not_frozen (\<lambda>_.
     act_bind (user_or_404 i) (\<lambda>u.
     act_bind (store_do (\<lambda>s. user_clear_sid s i)) (\<lambda>_.
     act_bind (live_op (\<lambda>l. end_user l i)) (\<lambda>_.
     log_audit now (u_username admin) ''user.sid.reset'' (u_username u)))))"

section \<open>Settings and servers\<close>

definition put_settings :: "libs \<Rightarrow> unix_time \<Rightarrow> user \<Rightarrow> settings \<Rightarrow> unit handler" where
  "put_settings lib now admin st =
     act_bind not_frozen (\<lambda>_.
     act_bind (act_res (map_err bad_request (settings_check st))) (\<lambda>_.
     act_bind (store_do (\<lambda>s. settings_write (l_to_json lib) s st)) (\<lambda>_.
     log_audit now (u_username admin) ''settings.change'' (settings_describe st))))"

record server_form =
  sf_name :: string
  sf_host :: string
  sf_port :: "16 word option"
  sf_group_id :: "int option"
  sf_domain :: "string option"

definition server_fields :: "server_form \<Rightarrow> api_error + (string \<times> string \<times> 16 word \<times> string option)" where
  "server_fields f =
     map_err bad_request
       (and_then (valid_name (sf_name f)) (\<lambda>name.
        and_then (valid_host (sf_host f)) (\<lambda>host.
        and_then (valid_port (sf_port f)) (\<lambda>port.
        and_then (valid_domain (case sf_domain f of Some d \<Rightarrow> d | None \<Rightarrow> [])) (\<lambda>domain.
        Ok (name, host, port, domain))))))"

definition server_label :: "string \<Rightarrow> string \<Rightarrow> 16 word \<Rightarrow> string" where
  "server_label name host port = name @ '' ('' @ host @ '':'' @ show_nat (unat port) @ '')''"

definition add_server :: "admin_inputs \<Rightarrow> user \<Rightarrow> server_form \<Rightarrow> int handler" where
  "add_server ai admin f =
     act_bind not_frozen (\<lambda>_.
     act_bind (act_res (server_fields f)) (\<lambda>(name, host, port, domain).
     act_bind (store_do (\<lambda>s. server_create s (ai_random ai (servers_seq s)) name host port (sf_group_id f) domain)) (\<lambda>i.
     act_bind (log_audit (ai_now ai) (u_username admin) ''server.add'' (server_label name host port)) (\<lambda>_.
     act_ret i))))"

definition update_server :: "unix_time \<Rightarrow> user \<Rightarrow> int \<Rightarrow> server_form \<Rightarrow> unit handler" where
  "update_server now admin i f =
     act_bind not_frozen (\<lambda>_.
     act_bind (act_res (server_fields f)) (\<lambda>(name, host, port, domain).
     act_bind (store_do (\<lambda>s. server_update s i name host port (sf_group_id f) domain)) (\<lambda>_.
     log_audit now (u_username admin) ''server.edit'' (server_label name host port))))"

definition remove_server :: "unix_time \<Rightarrow> user \<Rightarrow> int \<Rightarrow> unit handler" where
  "remove_server now admin i =
     act_bind not_frozen (\<lambda>_.
     act_bind (act_bind (store_ask (\<lambda>s. server_by_id s i)) (\<lambda>v. act_res (ok_or not_found v))) (\<lambda>v.
     act_bind (store_do (\<lambda>s. server_delete s i)) (\<lambda>_.
     act_bind (live_op (\<lambda>l. end_server l i)) (\<lambda>_.
     log_audit now (u_username admin) ''server.remove'' (s_name v)))))"

text \<open>A file with problems is answered with its lines and imports nothing.\<close>

datatype import_reply = BadLines "string list" | Imported nat nat

definition import_servers :: "libs \<Rightarrow> admin_inputs \<Rightarrow> user \<Rightarrow> string \<Rightarrow> import_reply handler" where
  "import_servers lib ai admin csv =
     act_bind not_frozen (\<lambda>_.
     (case parse_import (l_lower lib) csv of
        Err errors \<Rightarrow> act_ret (BadLines errors)
      | Ok rows \<Rightarrow>
          if rows = [] then act_fail (bad_request ''the file has no rows'')
          else
            act_bind (store_do (\<lambda>s. servers_import s (ai_random ai) rows)) (\<lambda>(created, updated).
            act_bind (log_audit (ai_now ai) (u_username admin) ''server.import''
              (show_nat created @ '' created, '' @ show_nat updated @ '' updated'')) (\<lambda>_.
            act_ret (Imported created updated)))))"

section \<open>Groups and activity\<close>

definition add_group :: "unix_time \<Rightarrow> user \<Rightarrow> string \<Rightarrow> int handler" where
  "add_group now admin raw =
     act_bind not_frozen (\<lambda>_.
     act_bind (act_res (map_err bad_request (valid_name raw))) (\<lambda>name.
     act_bind (store_do (\<lambda>s. group_create s name)) (\<lambda>i.
     act_bind (log_audit now (u_username admin) ''group.add'' name) (\<lambda>_.
     act_ret i))))"

definition rename_group :: "unix_time \<Rightarrow> user \<Rightarrow> int \<Rightarrow> string \<Rightarrow> unit handler" where
  "rename_group now admin i raw =
     act_bind not_frozen (\<lambda>_.
     act_bind (act_res (map_err bad_request (valid_name raw))) (\<lambda>name.
     act_bind (store_do (\<lambda>s. group_rename s i name)) (\<lambda>_.
     log_audit now (u_username admin) ''group.rename'' name)))"

definition order_groups :: "unix_time \<Rightarrow> user \<Rightarrow> int list \<Rightarrow> unit handler" where
  "order_groups now admin ids =
     act_bind not_frozen (\<lambda>_.
     act_bind (store_do (\<lambda>s. group_order s ids)) (\<lambda>_.
     log_audit now (u_username admin) ''group.order'' []))"

definition remove_group :: "unix_time \<Rightarrow> user \<Rightarrow> int \<Rightarrow> unit handler" where
  "remove_group now admin i =
     act_bind not_frozen (\<lambda>_.
     act_bind (store_do (\<lambda>s. group_delete s i)) (\<lambda>_.
     log_audit now (u_username admin) ''group.remove'' (show_int i)))"

definition admin_audit :: "int option \<Rightarrow> int option \<Rightarrow> string option \<Rightarrow> audit_row list handler" where
  "admin_audit lim before q =
     store_ask (\<lambda>s. audit_search s (min 1000 (max 1 (case lim of Some n \<Rightarrow> n | None \<Rightarrow> 200))) before (map_option str_trim q))"

section \<open>Migration\<close>

record migration_view =
  mv_host :: string
  mv_recovery_set :: bool
  mv_unlocked :: bool
  mv_frozen :: bool
  mv_counts :: counts_rec
  mv_live :: nat
  mv_service_account :: "string option"
  mv_password_set :: bool
  mv_password_readable :: bool
  mv_checks :: revocation_health
  mv_local_accounts :: bool
  mv_scan :: "(health \<times> (string + unit)) option"

definition migration_status :: "unix_time \<Rightarrow> migration_view handler" where
  "migration_status now =
     act_bind (store_ask counts) (\<lambda>c.
     act_bind (act_read (\<lambda>a. map_err api_of_vault (recovery_set (app_store a)))) (\<lambda>r.
     act_get (\<lambda>a.
       \<lparr> mv_host = app_host_name a, mv_recovery_set = r, mv_unlocked = is_unlocked (app_vault a), mv_frozen = frozen a,
         mv_counts = c, mv_live = live_count (app_live a), mv_service_account = service_account (app_cfg a),
         mv_password_set = directory_password_set a,
         mv_password_readable = (directory_password_set a \<and> is_unlocked (app_vault a)),
         mv_checks = app_revocation a, mv_local_accounts = cf_allow_local_accounts (app_cfg a),
         mv_scan = map_option (\<lambda>sv. (sv_health sv, healthy sv now)) (app_scan a) \<rparr>)))"

definition admin_set_recovery :: "libs \<Rightarrow> admin_inputs \<Rightarrow> user \<Rightarrow> string option \<Rightarrow> string \<Rightarrow> unit handler" where
  "admin_set_recovery lib ai admin current new =
     act_bind not_frozen (\<lambda>_.
     act_bind (act_read (\<lambda>a. map_err api_of_vault (recovery_set (app_store a)))) (\<lambda>changing.
     act_bind (\<lambda>a. case set_recovery (l_crypto lib) (ai_salt ai) (ai_nonce ai) (app_vault a) current new (app_store a) of
                 Err e \<Rightarrow> (Err (api_of_vault e), a)
               | Ok (_, s) \<Rightarrow> (Ok (), a\<lparr>app_store := s\<rparr>)) (\<lambda>_.
     log_audit (ai_now ai) (u_username admin) (if changing then ''recovery.change'' else ''recovery.set'') [])))"

definition unlock :: "libs \<Rightarrow> unix_time \<Rightarrow> user \<Rightarrow> string \<Rightarrow> unit handler" where
  "unlock lib now admin pw =
     act_bind (\<lambda>a. case vault_adopt (l_crypto lib) (app_vault a) (app_store a) pw of
                 Err e \<Rightarrow> (Err (api_of_vault e), a)
               | Ok (key, s) \<Rightarrow> (Ok (), a\<lparr>app_store := s, app_vault := vault_install key (app_vault a)\<rparr>)) (\<lambda>_.
     log_audit now (u_username admin) ''vault.unlock'' [])"

definition admin_reset :: "admin_inputs \<Rightarrow> user \<Rightarrow> string \<Rightarrow> nat handler" where
  "admin_reset ai admin typed =
     act_bind not_frozen (\<lambda>_.
     act_bind (act_read (\<lambda>a. guard (eq_ignore_ascii_case (str_trim typed) (app_host_name a))
       (bad_request (''type this proxy's host name, '' @ app_host_name a @ '', to confirm'')))) (\<lambda>_.
     act_bind (\<lambda>a. case reset_credential_store (ai_key ai) a of
                 (Err e, a') \<Rightarrow> (Err (api_of_vault e), a')
               | (Ok n, a') \<Rightarrow> (Ok n, a')) (\<lambda>removed.
     act_bind (log_audit (ai_now ai) (u_username admin) ''vault.reset'' (show_nat removed @ '' saved credential(s) deleted'')) (\<lambda>_.
     act_ret removed))))"

definition still_wanted :: "bool \<Rightarrow> api_error + unit" where
  "still_wanted gone = guard (\<not> gone) (api_error_of 408 ''the request ended before it could start'')"

definition snapshot_of :: "migrate_lib \<Rightarrow> string \<Rightarrow> (bytes \<times> counts_rec) handler" where
  "snapshot_of ml pw = act_read (\<lambda>a. map_err api_of_migrate (snapshot_verified ml (app_store a) pw))"

text \<open>A step whose failure is not looked at.\<close>

definition act_try :: "('s, 'e, 'a) act \<Rightarrow> ('s, 'f, unit) act" where
  "act_try m = (\<lambda>s. (Ok (), snd (m s)))"

definition unfreeze_if_current :: "64 word \<Rightarrow> app \<Rightarrow> app" where
  "unfreeze_if_current g a =
     (if app_generation a = g
      then snd (act_bind (store_do (\<lambda>s. set_flag s META_FROZEN False)) (\<lambda>_.
                store_do (\<lambda>s. set_flag s META_FREEZE_PENDING False)) a)
      else a)"

text \<open>
  What carries a freeze: a failure on the way lifts it, once the gate is free; \<open>mid\<close> is what happens
  until then.
\<close>

definition undoing :: "bool \<Rightarrow> 64 word \<Rightarrow> (app \<Rightarrow> app) \<Rightarrow> 'a handler \<Rightarrow> 'a handler" where
  "undoing froze g mid m = (\<lambda>a.
     case m a of
       (Err e, a') \<Rightarrow> (Err e, if froze then unfreeze_if_current g (mid a') else a')
     | (Ok x, a') \<Rightarrow> (Ok x, a'))"

definition freeze_snapshot :: "migrate_lib \<Rightarrow> string \<Rightarrow> ((bytes \<times> counts_rec) \<times> bool) handler" where
  "freeze_snapshot ml pw =
     act_bind (act_get (\<lambda>a. \<not> frozen a)) (\<lambda>froze.
     act_bind (if froze
               then act_bind (store_do (\<lambda>s. set_flag s META_FREEZE_PENDING True)) (\<lambda>_.
                    store_do (\<lambda>s. set_flag s META_FROZEN True))
               else act_ret ()) (\<lambda>_.
     (\<lambda>a. case snapshot_of ml pw a of
            (Ok x, a') \<Rightarrow> (Ok (x, froze), a')
          | (Err e, a') \<Rightarrow>
              (Err e, if froze
                      then snd (act_bind (act_try (store_do (\<lambda>s. set_flag s META_FROZEN False))) (\<lambda>_.
                                act_try (store_do (\<lambda>s. set_flag s META_FREEZE_PENDING False)) :: unit handler) a')
                      else a'))))"

record export_waits =
  ew_lock :: "app \<Rightarrow> app"
  ew_pack :: "app \<Rightarrow> app"
  ew_gate :: "app \<Rightarrow> app"
  ew_undo :: "app \<Rightarrow> app"
  ew_hand :: "app \<Rightarrow> app"
  ew_gone_before :: bool
  ew_gone_after :: bool

text \<open>The export, and the generation of the freeze it carries.\<close>

type_synonym delivery = "export_file \<times> 64 word option"

definition export_task ::
  "libs \<Rightarrow> migrate_lib \<Rightarrow> export_inputs \<Rightarrow> export_waits \<Rightarrow> bytes \<Rightarrow> string \<Rightarrow> bool \<Rightarrow> delivery handler" where
  "export_task lib ml xi ew th pw freeze =
     act_bind (act_read (\<lambda>a. map_err (api_of_migrate \<circ> migrate_of_vault) (verify_recovery (ml_crypto ml) (app_store a) pw))) (\<lambda>_.
     act_bind (act_mod (ew_lock ew)) (\<lambda>_.
     act_bind (act_res (still_wanted (ew_gone_before ew))) (\<lambda>_.
     act_bind (act_read (revalidate_admin lib (xi_now xi) th)) (\<lambda>admin.
     act_bind (if freeze then freeze_snapshot ml pw
               else act_bind (snapshot_of ml pw) (\<lambda>x. act_ret (x, False))) (\<lambda>((db, c), froze).
     act_bind (act_get app_generation) (\<lambda>g.
     undoing froze g (ew_undo ew)
       (act_bind (act_mod (ew_pack ew)) (\<lambda>_.
        act_bind (act_read (\<lambda>a. map_err api_of_migrate (package ml xi (app_host_name a) pw db c))) (\<lambda>ex.
        act_bind (act_mod (ew_gate ew)) (\<lambda>_.
        act_bind (act_res (still_wanted (ew_gone_after ew))) (\<lambda>_.
        act_bind (act_get app_generation) (\<lambda>g'.
        act_bind (if g' = g
                  then log_audit (xi_now xi) (u_username admin) (if freeze then ''export.freeze'' else ''export'') (ex_file_name ex)
                  else act_ret ()) (\<lambda>_.
        act_ret (ex, if froze then Some g else None))))))))))))))"

definition hand_over :: "export_waits \<Rightarrow> delivery \<Rightarrow> export_file handler" where
  "hand_over ew d =
     (case snd d of
        None \<Rightarrow> act_ret (fst d)
      | Some g \<Rightarrow>
          undoing True g (ew_undo ew)
            (act_bind (act_mod (ew_hand ew)) (\<lambda>_.
             act_bind (act_get app_generation) (\<lambda>g'.
             act_bind (if g' = g then store_do (\<lambda>s. set_flag s META_FREEZE_PENDING False) else act_ret ()) (\<lambda>_.
             act_ret (fst d))))))"

text \<open>An archive nobody collects.\<close>

definition drop_delivery :: "export_waits \<Rightarrow> delivery \<Rightarrow> app \<Rightarrow> app" where
  "drop_delivery ew d a = (case snd d of None \<Rightarrow> a | Some g \<Rightarrow> unfreeze_if_current g (ew_undo ew a))"

definition admin_export ::
  "libs \<Rightarrow> migrate_lib \<Rightarrow> export_inputs \<Rightarrow> export_waits \<Rightarrow> bytes \<Rightarrow> string \<Rightarrow> bool \<Rightarrow> export_file handler" where
  "admin_export lib ml xi ew th pw freeze = act_bind (export_task lib ml xi ew th pw freeze) (hand_over ew)"

definition unfreeze :: "unix_time \<Rightarrow> user \<Rightarrow> unit handler" where
  "unfreeze now admin =
     act_bind (store_do (\<lambda>s. set_flag s META_FROZEN False)) (\<lambda>_.
     act_bind (store_do (\<lambda>s. set_flag s META_FREEZE_PENDING False)) (\<lambda>_.
     log_audit now (u_username admin) ''unfreeze'' []))"

definition upload_import ::
  "libs \<Rightarrow> migrate_lib \<Rightarrow> admin_inputs \<Rightarrow> bytes \<Rightarrow> bytes \<Rightarrow> (string \<times> manifest \<times> bool \<times> counts_rec) handler" where
  "upload_import lib ml ai th body =
     act_bind (act_mod (ai_mid ai)) (\<lambda>_.
     act_bind (act_read (revalidate_admin lib (ai_now ai) th)) (\<lambda>admin.
     act_bind (\<lambda>a. let (r, a') = stage ml (ai_instant ai) (ai_token ai) body a in (map_err api_of_migrate r, a')) (\<lambda>(upload, m).
     act_bind (store_ask counts) (\<lambda>current.
     act_bind (log_audit (ai_now ai) (u_username admin) ''import.upload''
       (''from '' @ mf_source_host m @ '' exported '' @ show_int (mf_exported_at m))) (\<lambda>_.
     act_ret (upload, m, holds_data current, current))))))"

definition cancel_import :: "libs \<Rightarrow> admin_inputs \<Rightarrow> bytes \<Rightarrow> string \<Rightarrow> unit handler" where
  "cancel_import lib ai th upload =
     act_bind (act_read (revalidate_admin lib (ai_now ai) th)) (\<lambda>_.
     act_mod (\<lambda>a. snd (cancel_upload upload a)))"

type_synonym 'a host_handler = "(host, api_error, 'a) act"

definition on_app :: "'a handler \<Rightarrow> 'a host_handler" where
  "on_app m = (\<lambda>h. let (r, a) = m (ho_app h) in (r, h\<lparr>ho_app := a\<rparr>))"

definition import_exclusive ::
  "libs \<Rightarrow> migrate_lib \<Rightarrow> import_inputs \<Rightarrow> (app \<Rightarrow> app) \<Rightarrow> bool \<Rightarrow> bytes \<Rightarrow> string \<Rightarrow> string \<Rightarrow> string option \<Rightarrow>
   counts_rec host_handler" where
  "import_exclusive lib ml ii mid gone th upload pw typed =
     act_bind (act_mod (\<lambda>h. h\<lparr>ho_app := mid (ho_app h)\<rparr>)) (\<lambda>_.
     act_bind (act_res (still_wanted gone)) (\<lambda>_.
     act_bind (act_read (\<lambda>h. revalidate_admin lib (ii_now ii) th (ho_app h))) (\<lambda>admin.
     act_bind (\<lambda>h. let (r, h') = confirm_import ml ii upload pw typed h in (map_err api_of_migrate r, h')) (\<lambda>c.
     act_bind (on_app (log_audit (ii_now ii) (u_username admin) ''import''
       (show_int (n_users c) @ '' users, '' @ show_int (n_servers c) @ '' servers, '' @ show_int (n_assignments c) @
        '' assignments, '' @ show_int (n_credentials c) @ '' saved credentials''))) (\<lambda>_.
     act_ret c)))))"

definition admin_directory_password :: "libs \<Rightarrow> ldap \<Rightarrow> admin_inputs \<Rightarrow> bytes \<Rightarrow> string \<Rightarrow> bool handler" where
  "admin_directory_password lib ld ai th pw =
     act_bind (act_read (\<lambda>a. case (service_account (app_cfg a), lookup_directory a) of
                 (Some account, Some d) \<Rightarrow> Ok (account, d)
               | _ \<Rightarrow> Err (bad_request ''no service_account is configured in config.toml''))) (\<lambda>(account, d).
     act_bind (act_guard (pw \<noteq> []) (bad_request ''enter the service account's password'')) (\<lambda>_.
     act_bind (act_read (revalidate_admin lib (ai_now ai) th)) (\<lambda>_.
     act_bind not_frozen (\<lambda>_.
     act_bind (act_get app_generation) (\<lambda>g.
     act_bind (\<lambda>a.
       let probe = (case normalize_username (l_lower lib) account of Some n \<Rightarrow> n | None \<Rightarrow> []);
           (r, d') = lookup_many (l_lower lib) ld (ai_now ai) d pw [probe]
       in (case r of Ok _ \<Rightarrow> Ok True | Err (DirConfig m) \<Rightarrow> Err (bad_request m) | Err _ \<Rightarrow> Ok False,
           a\<lparr>app_directory := Some d'\<rparr>)) (\<lambda>verified.
     act_bind (act_mod (ai_mid ai)) (\<lambda>_.
     act_bind (same_generation g) (\<lambda>_.
     act_bind (act_read (revalidate_admin lib (ai_now ai) th)) (\<lambda>admin.
     act_bind not_frozen (\<lambda>_.
     act_bind (\<lambda>a. case set_directory_password (l_crypto lib) (ai_nonce ai) pw a of
                 (Err e, a') \<Rightarrow> (Err (api_of_vault e), a')
               | (Ok x, a') \<Rightarrow> (Ok x, a')) (\<lambda>_.
     act_bind (log_audit (ai_now ai) (u_username admin) ''directory.password'' []) (\<lambda>_.
     act_ret verified))))))))))))"

section \<open>The router\<close>

datatype admin_call =
    GetUsers
  | PostUser string
  | PatchUser int bool
  | DeleteUser int
  | GetUserServers int
  | PutUserServers int "int list"
  | PostCopyFrom int int
  | PostClearSid int
  | GetServers
  | PostServer server_form
  | PostImport string
  | PatchServer int server_form
  | DeleteServer int
  | GetGroups
  | PostGroup string
  | PostGroupOrder "int list"
  | PatchGroup int string
  | DeleteGroup int
  | GetAudit "int option" "int option" "string option"
  | GetMigration
  | PostRecovery "string option" string
  | PostUnlock string
  | PostReset string
  | PostExport string bool
  | PostUnfreeze
  | PostUpload bytes
  | PostConfirm string string "string option"
  | DeleteUpload string
  | GetSettings
  | PutSettings settings
  | PostDirectoryPassword string

datatype admin_reply =
    NoContent
  | UserList "(user_listed \<times> bool) list"
  | AddedUser int bool
  | Assigned "int list"
  | Reassigned nat nat
  | CopiedServers nat
  | ServerList "server_counted list"
  | Created int
  | ImportReply import_reply
  | GroupList "server_group list"
  | Entries "audit_row list"
  | Status migration_view
  | Removed nat
  | Archive export_file
  | Uploaded string manifest bool counts_rec
  | ImportedCounts counts_rec
  | SettingsReply settings
  | PasswordKept bool

record route_inputs =
  ri_admin :: admin_inputs
  ri_export :: export_inputs
  ri_waits :: export_waits
  ri_import :: import_inputs
  ri_gone :: bool

definition reply :: "('a \<Rightarrow> admin_reply) \<Rightarrow> 'a handler \<Rightarrow> admin_reply handler" where
  "reply f m = act_bind m (\<lambda>x. act_ret (f x))"

text \<open>The handlers of \<open>AdminUser\<close>, and those of \<open>AdminToken\<close>.\<close>

definition user_call :: "libs \<Rightarrow> admin_inputs \<Rightarrow> user \<Rightarrow> admin_call \<Rightarrow> admin_reply handler option" where
  "user_call lib ai admin c =
     (case c of
        GetUsers \<Rightarrow> Some (reply UserList (admin_users lib))
      | PatchUser i b \<Rightarrow> Some (reply (\<lambda>_. NoContent) (update_user (ai_now ai) admin i b))
      | DeleteUser i \<Rightarrow> Some (reply (\<lambda>_. NoContent) (remove_user (ai_now ai) admin i))
      | GetUserServers i \<Rightarrow> Some (reply Assigned (user_servers i))
      | PutUserServers i ids \<Rightarrow> Some (reply (\<lambda>(x, y). Reassigned x y) (set_user_servers (ai_now ai) admin i ids))
      | PostCopyFrom i src \<Rightarrow> Some (reply CopiedServers (copy_from (ai_now ai) admin i src))
      | PostClearSid i \<Rightarrow> Some (reply (\<lambda>_. NoContent) (clear_sid (ai_now ai) admin i))
      | GetServers \<Rightarrow> Some (reply ServerList (store_ask servers_list))
      | PostServer f \<Rightarrow> Some (reply Created (add_server ai admin f))
      | PostImport csv \<Rightarrow> Some (reply ImportReply (import_servers lib ai admin csv))
      | PatchServer i f \<Rightarrow> Some (reply (\<lambda>_. NoContent) (update_server (ai_now ai) admin i f))
      | DeleteServer i \<Rightarrow> Some (reply (\<lambda>_. NoContent) (remove_server (ai_now ai) admin i))
      | GetGroups \<Rightarrow> Some (reply GroupList (store_ask groups_list))
      | PostGroup n \<Rightarrow> Some (reply Created (add_group (ai_now ai) admin n))
      | PostGroupOrder ids \<Rightarrow> Some (reply (\<lambda>_. NoContent) (order_groups (ai_now ai) admin ids))
      | PatchGroup i n \<Rightarrow> Some (reply (\<lambda>_. NoContent) (rename_group (ai_now ai) admin i n))
      | DeleteGroup i \<Rightarrow> Some (reply (\<lambda>_. NoContent) (remove_group (ai_now ai) admin i))
      | GetAudit l b q \<Rightarrow> Some (reply Entries (admin_audit l b q))
      | GetMigration \<Rightarrow> Some (reply Status (migration_status (ai_now ai)))
      | PostRecovery cur new \<Rightarrow> Some (reply (\<lambda>_. NoContent) (admin_set_recovery lib ai admin cur new))
      | PostUnlock pw \<Rightarrow> Some (reply (\<lambda>_. NoContent) (unlock lib (ai_now ai) admin pw))
      | PostReset typed \<Rightarrow> Some (reply Removed (admin_reset ai admin typed))
      | PostUnfreeze \<Rightarrow> Some (reply (\<lambda>_. NoContent) (unfreeze (ai_now ai) admin))
      | GetSettings \<Rightarrow> Some (reply SettingsReply (store_ask (settings_read (l_from_json lib))))
      | PutSettings st \<Rightarrow> Some (reply (\<lambda>_. NoContent) (put_settings lib (ai_now ai) admin st))
      | _ \<Rightarrow> None)"

definition token_call :: "libs \<Rightarrow> migrate_lib \<Rightarrow> ldap \<Rightarrow> route_inputs \<Rightarrow> bytes \<Rightarrow> admin_call \<Rightarrow> admin_reply host_handler" where
  "token_call lib ml ld ri th c =
     (case c of
        PostUser n \<Rightarrow> on_app (reply (\<lambda>(i, v). AddedUser i v) (add_user lib ld (ri_admin ri) th n))
      | PostExport pw fr \<Rightarrow> on_app (reply Archive (admin_export lib ml (ri_export ri) (ri_waits ri) th pw fr))
      | PostUpload body \<Rightarrow> on_app (reply (\<lambda>(u, m, hold, n). Uploaded u m hold n) (upload_import lib ml (ri_admin ri) th body))
      | DeleteUpload u \<Rightarrow> on_app (reply (\<lambda>_. NoContent) (cancel_import lib (ri_admin ri) th u))
      | PostDirectoryPassword pw \<Rightarrow> on_app (reply PasswordKept (admin_directory_password lib ld (ri_admin ri) th pw))
      | PostConfirm u pw typed \<Rightarrow>
          act_bind (import_exclusive lib ml (ri_import ri) (ai_mid (ri_admin ri)) (ri_gone ri) th u pw typed) (\<lambda>n.
          act_ret (ImportedCounts n))
      | _ \<Rightarrow> act_fail not_found)"

text \<open>Which of the two a call is does not depend on who calls.\<close>

definition by_token :: "admin_call \<Rightarrow> bool" where
  "by_token c =
     (case c of
        PostUser _ \<Rightarrow> True | PostExport _ _ \<Rightarrow> True | PostUpload _ \<Rightarrow> True | PostConfirm _ _ _ \<Rightarrow> True
      | DeleteUpload _ \<Rightarrow> True | PostDirectoryPassword _ \<Rightarrow> True | _ \<Rightarrow> False)"

definition admin_route ::
  "libs \<Rightarrow> migrate_lib \<Rightarrow> ldap \<Rightarrow> route_inputs \<Rightarrow> http_request \<Rightarrow> admin_call \<Rightarrow> admin_reply host_handler" where
  "admin_route lib ml ld ri rq c =
     (if by_token c
      then act_bind (act_read (\<lambda>h. admin_token_of lib (ai_now (ri_admin ri)) rq (ho_app h))) (\<lambda>th.
           token_call lib ml ld ri th c)
      else act_bind (act_read (\<lambda>h. admin_of lib (ai_now (ri_admin ri)) rq (ho_app h))) (\<lambda>admin.
           case user_call lib (ri_admin ri) admin c of Some m \<Rightarrow> on_app m | None \<Rightarrow> act_fail not_found))"

end
