(* ===== verification/WA_Triple.thy ===== *)
theory WA_Triple
  imports WA_App
begin

text \<open>
  A Hoare logic for handlers. A handler always ends, with a value or with an error, so a triple has
  a postcondition for each: \<open>triple P m Q E\<close> says that from a state with \<open>P\<close> the handler \<open>m\<close> ends
  with a value and a state that satisfy \<open>Q\<close>, or with an error in a state with \<open>E\<close>.
\<close>

definition triple :: "('s \<Rightarrow> bool) \<Rightarrow> ('s, 'e, 'a) act \<Rightarrow> ('a \<Rightarrow> 's \<Rightarrow> bool) \<Rightarrow> ('s \<Rightarrow> bool) \<Rightarrow> bool" where
  "triple P m Q E \<longleftrightarrow>
     (\<forall>s. P s \<longrightarrow> (\<forall>x s'. m s = (Ok x, s') \<longrightarrow> Q x s') \<and> (\<forall>e s'. m s = (Err e, s') \<longrightarrow> E s'))"

named_theorems triple_intros \<open>the rules of the logic\<close>

lemma triple_OkD: "triple P m Q E \<Longrightarrow> P s \<Longrightarrow> m s = (Ok x, s') \<Longrightarrow> Q x s'"
  unfolding triple_def by blast

lemma triple_ErrD: "triple P m Q E \<Longrightarrow> P s \<Longrightarrow> m s = (Err e, s') \<Longrightarrow> E s'"
  unfolding triple_def by blast

lemma triple_bind:
  assumes "triple P m Q E" "\<And>x. triple (Q x) (f x) R E"
  shows "triple P (act_bind m f) R E"
  using assms unfolding triple_def act_bind_Ok act_bind_Err by blast

lemma triple_conseq:
  "triple P m Q E \<Longrightarrow> (\<And>s. P' s \<Longrightarrow> P s) \<Longrightarrow> (\<And>x s. Q x s \<Longrightarrow> Q' x s) \<Longrightarrow> (\<And>s. E s \<Longrightarrow> E' s) \<Longrightarrow> triple P' m Q' E'"
  unfolding triple_def by blast

lemma triple_pure [triple_intros]:
  "triple P (act_ret x) (\<lambda>_. P) E"
  "triple E (act_fail e) Q E"
  "triple P (act_res r) (\<lambda>_. P) P"
  "triple P (act_read f) (\<lambda>_. P) P"
  "triple P (act_get g) (\<lambda>x s. P s \<and> x = g s) E"
  by (simp_all add: triple_def)

lemma triple_mod: "(\<And>s. P s \<Longrightarrow> Q (h s)) \<Longrightarrow> triple P (act_mod h) (\<lambda>_. Q) E"
  by (simp add: triple_def)

lemma triple_pre_fact: "(b \<Longrightarrow> triple P m Q E) \<Longrightarrow> triple (\<lambda>s. b \<and> P s) m Q E"
  by (cases b) (simp_all add: triple_def)

lemma triple_if: "(b \<Longrightarrow> triple P m Q E) \<Longrightarrow> (\<not> b \<Longrightarrow> triple P n Q E) \<Longrightarrow> triple P (if b then m else n) Q E"
  by simp

text \<open>A handler that keeps \<open>P\<close> has it afterwards either way.\<close>

lemma triple_keeps: "keeps P m \<Longrightarrow> triple P m (\<lambda>_. P) P"
  unfolding triple_def keeps_def by fastforce

end
