(* ===== verification/WA_Admin_Props.thy ===== *)
theory WA_Admin_Props
  imports WA_Admin WA_Triple WA_Migrate_Props WA_Server_Props
begin

text \<open>
  What the management plane guarantees: only administrators get anywhere, a frozen proxy is not
  edited, access taken away ends what is open under it, an import of servers is all or nothing, and
  an export leaves a freeze behind only with the archive it belongs to.
\<close>

section \<open>Administrators only\<close>

lemma admin_token_of_Err:
  "admin_of lib now rq a = Err e \<Longrightarrow> admin_token_of lib now rq a = Err e"
  by (auto simp: admin_of_def admin_token_of_def and_then_Err)

lemma admin_token_of_Ok:
  "admin_token_of lib now rq a = Ok th \<Longrightarrow> \<exists>u. admin_of lib now rq a = Ok u"
  by (auto simp: admin_of_def admin_token_of_def and_then_Ok)

lemma admin_of_Ok:
  "admin_of lib now rq a = Ok u \<Longrightarrow>
     is_admin lib a u \<and> (\<exists>th. session_user (app_store a) th now = Ok (Some u))"
  by (auto simp: admin_of_def current_of_def session_of_def admin_only_def and_then_Ok Let_def split: if_splits)


section \<open>A frozen proxy\<close>

text \<open>The calls that edit the database; the rest read, or are what lifts the freeze or replaces it.\<close>

definition edits :: "admin_call \<Rightarrow> bool" where
  "edits c =
     (case c of
        GetUsers \<Rightarrow> False | GetUserServers _ \<Rightarrow> False | GetServers \<Rightarrow> False | GetGroups \<Rightarrow> False | GetAudit _ _ _ \<Rightarrow> False
      | GetMigration \<Rightarrow> False | GetSettings \<Rightarrow> False | PostUnlock _ \<Rightarrow> False | PostExport _ _ \<Rightarrow> False | PostUnfreeze \<Rightarrow> False
      | PostUpload _ \<Rightarrow> False | PostConfirm _ _ _ \<Rightarrow> False | DeleteUpload _ \<Rightarrow> False | _ \<Rightarrow> True)"

definition refuses :: "('s, 'e, 'a) act \<Rightarrow> 's \<Rightarrow> bool" where
  "refuses m s \<longleftrightarrow> (\<exists>e. m s = (Err e, s))"

lemma refuses_bind: "refuses m s \<Longrightarrow> refuses (act_bind m f) s"
  by (auto simp: refuses_def act_bind_def)

lemma refuses_read: "(\<And>x. refuses (f x) s) \<Longrightarrow> refuses (act_bind (act_read k) f) s"
  by (cases "k s") (auto simp: refuses_def act_bind_def)

lemma refuses_res: "(\<And>x. refuses (f x) s) \<Longrightarrow> refuses (act_bind (act_res k) f) s"
  by (cases k) (auto simp: refuses_def act_bind_def)

lemma refuses_guard: "refuses (f ()) s \<Longrightarrow> refuses (act_bind (act_guard b e) f) s"
  by (cases b) (auto simp: refuses_def act_bind_def)

lemma refuses_frozen: "frozen a \<Longrightarrow> refuses not_frozen a"
  by (simp add: refuses_def not_frozen_def guard_def)

lemma refuses_reply: "refuses m a \<Longrightarrow> refuses (reply f m) a"
  unfolding reply_def by (rule refuses_bind)

lemma refuses_on_app: "refuses m (ho_app h) \<Longrightarrow> refuses (on_app m) h"
  by (auto simp: refuses_def on_app_def)

lemmas handler_defs = update_user_def remove_user_def set_user_servers_def copy_from_def clear_sid_def put_settings_def
  add_server_def update_server_def remove_server_def import_servers_def add_group_def rename_group_def order_groups_def
  remove_group_def admin_set_recovery_def admin_reset_def

lemma frozen_user_call:
  "frozen a \<Longrightarrow> edits c \<Longrightarrow> user_call lib ai admin c = Some m \<Longrightarrow> refuses m a"
  by (auto simp: edits_def user_call_def handler_defs split: admin_call.splits
      intro!: refuses_reply refuses_bind [OF refuses_frozen])

lemma frozen_token_call:
  assumes "frozen (ho_app h)" "edits c" "by_token c"
  shows "refuses (token_call lib ml ld ri th c) h"
  using assms
  by (auto simp: edits_def by_token_def token_call_def add_user_def admin_directory_password_def split: admin_call.splits
      intro!: refuses_on_app refuses_reply refuses_res refuses_read refuses_guard refuses_bind [OF refuses_frozen] split: prod.split)


section \<open>Access taken away\<close>

lemma user_or_404_Ok: "user_or_404 i a = (Ok u, a') \<Longrightarrow> a' = a"
  unfolding user_or_404_def by (elim act_bind_OkE) (auto simp: st_read_Ok)

lemma not_frozen_Ok: "not_frozen a = (Ok x, a') \<Longrightarrow> a' = a"
  by (simp add: not_frozen_def)

lemma remove_user_live: "remove_user now admin i a = (Ok x, a') \<Longrightarrow> app_live a' = snd (end_user (app_live a) i)"
  unfolding remove_user_def
  by (elim act_bind_OkE) (auto simp: step_Ok dest!: user_or_404_Ok not_frozen_Ok)

lemma clear_sid_live: "clear_sid now admin i a = (Ok x, a') \<Longrightarrow> app_live a' = snd (end_user (app_live a) i)"
  unfolding clear_sid_def
  by (elim act_bind_OkE) (auto simp: step_Ok dest!: user_or_404_Ok not_frozen_Ok)

lemma remove_server_live: "remove_server now admin v a = (Ok x, a') \<Longrightarrow> app_live a' = snd (end_server (app_live a) v)"
  unfolding remove_server_def
  by (elim act_bind_OkE) (auto simp: step_Ok dest!: not_frozen_Ok elim!: act_bind_OkE)

lemma set_user_servers_Ok:
  assumes "set_user_servers now admin i ids a = (Ok x, a')"
  shows "\<exists>before n s. assignment_ids (app_store a) i = Ok before \<and> set_assignments (app_store a) i ids = Ok (n, s) \<and>
    app_live a' = end_user_servers i (filter (\<lambda>v. v \<notin> set ids) before) (app_live a) \<and> assignments (app_store a') = assignments s"
  using assms unfolding set_user_servers_def
  by (elim act_bind_OkE)
     (auto simp: step_Ok dest!: user_or_404_Ok not_frozen_Ok elim!: act_bind_OkE split: if_splits)

lemma end_user_servers_cancelled:
  "live_cancelled (end_user_servers i gone ls) j \<longleftrightarrow>
     live_cancelled ls j \<or> (\<exists>l v. live_get ls j = Some l \<and> lv_user_id l = i \<and> lv_server_id l = Some v \<and> v \<in> set gone)"
proof (induction gone arbitrary: ls)
  case (Cons v gone)
  let ?ls = "snd (end_user_server ls i v)"
  have "(\<exists>l w. live_get ?ls j = Some l \<and> lv_user_id l = i \<and> lv_server_id l = Some w \<and> w \<in> set gone) \<longleftrightarrow>
      (\<exists>l w. live_get ls j = Some l \<and> lv_user_id l = i \<and> lv_server_id l = Some w \<and> w \<in> set gone)"
    by (cases "live_get ls j") (auto simp: end_user_server_def live_get_end_where)
  moreover have "live_cancelled ?ls j \<longleftrightarrow>
      live_cancelled ls j \<or> (\<exists>l. live_get ls j = Some l \<and> lv_user_id l = i \<and> lv_server_id l = Some v)"
    by (simp add: end_user_server_def cancelled_end_where)
  ultimately show ?case using Cons [of ?ls] by (auto simp: end_user_servers_def)
qed (simp add: end_user_servers_def)

lemma assignment_ids_set: "assignment_ids s i = Ok ids \<Longrightarrow> set ids = {v. (i, v) \<in> set (assignments s)}"
  by (force simp: assignment_ids_def stmt_Ok)

lemma set_assignments_mem: "set_assignments s i ids = Ok (n, t) \<Longrightarrow> (i, v) \<in> set (assignments t) \<longleftrightarrow> v \<in> set ids"
  by (drule set_assignments_Ok(3)) auto

text \<open>
  C19: Access taken away ends what is open under it. When a user is removed or its account binding
  reset, exactly that user's connections are told to end; when a server is removed, exactly those to
  it; and when a user's list of servers is changed, exactly that user's connections to the servers
  that were on the list and no longer are.
\<close>

theorem removed_access_ends:
  assumes "live_get (app_live a) j = Some l"
  shows "(remove_user now admin i a = (Ok x, a') \<longrightarrow>
      (live_cancelled (app_live a') j \<longleftrightarrow> live_cancelled (app_live a) j \<or> lv_user_id l = i)) \<and>
    (clear_sid now admin i a = (Ok x, a') \<longrightarrow>
      (live_cancelled (app_live a') j \<longleftrightarrow> live_cancelled (app_live a) j \<or> lv_user_id l = i)) \<and>
    (remove_server now admin i a = (Ok x, a') \<longrightarrow>
      (live_cancelled (app_live a') j \<longleftrightarrow> live_cancelled (app_live a) j \<or> lv_server_id l = Some i)) \<and>
    (set_user_servers now admin i ids a = (Ok n, a') \<longrightarrow>
      (live_cancelled (app_live a') j \<longleftrightarrow> live_cancelled (app_live a) j \<or>
         lv_user_id l = i \<and> (\<exists>v. lv_server_id l = Some v \<and> (i, v) \<in> set (assignments (app_store a)) \<and>
           (i, v) \<notin> set (assignments (app_store a')))))"
proof (intro conjI impI)
  assume "set_user_servers now admin i ids a = (Ok n, a')"
  from set_user_servers_Ok [OF this] obtain before m s where s:
      "assignment_ids (app_store a) i = Ok before" "set_assignments (app_store a) i ids = Ok (m, s)"
      "app_live a' = end_user_servers i (filter (\<lambda>v. v \<notin> set ids) before) (app_live a)" "assignments (app_store a') = assignments s"
    by blast
  show "live_cancelled (app_live a') j \<longleftrightarrow> live_cancelled (app_live a) j \<or>
      lv_user_id l = i \<and> (\<exists>v. lv_server_id l = Some v \<and> (i, v) \<in> set (assignments (app_store a)) \<and>
        (i, v) \<notin> set (assignments (app_store a')))"
    using assms assignment_ids_set [OF s(1)] set_assignments_mem [OF s(2)]
    by (auto simp: s(3,4) end_user_servers_cancelled)
qed (use assms in \<open>auto simp: end_user_def end_server_def cancelled_end_where
      dest!: remove_user_live clear_sid_live remove_server_live\<close>)

section \<open>A file of servers\<close>


section \<open>The freeze of an export\<close>

text \<open>The database under way, and the two marks of a freeze in it.\<close>

definition freeze_is :: "64 word \<Rightarrow> bool \<Rightarrow> bool \<Rightarrow> app \<Rightarrow> bool" where
  "freeze_is g fz pd a \<longleftrightarrow>
     app_generation a = g \<and> sql_fault (app_store a) = (\<lambda>_. None) \<and>
     flag (app_store a) META_FROZEN = Ok fz \<and> flag (app_store a) META_FREEZE_PENDING = Ok pd"

text \<open>What else happens leaves the database in place and the marks alone.\<close>

definition quiet :: "(app \<Rightarrow> app) \<Rightarrow> bool" where
  "quiet f \<longleftrightarrow> (\<forall>g fz pd a. freeze_is g fz pd a \<longrightarrow> freeze_is g fz pd (f a))"

lemma quietD: "quiet f \<Longrightarrow> freeze_is g fz pd a \<Longrightarrow> freeze_is g fz pd (f a)"
  by (simp add: quiet_def)

lemma set_flag_fault: "set_flag s k b = Ok (u, s') \<Longrightarrow> sql_fault s' = sql_fault s"
  by (auto simp: set_flag_def meta_set_def meta_delete_def stmt_Ok split: if_splits)

lemma set_flag_ok: "sql_fault s = (\<lambda>_. None) \<Longrightarrow> \<exists>s'. set_flag s k b = Ok ((), s')"
  by (simp add: set_flag_def meta_set_def meta_delete_def stmt_def)

lemma triple_set_frozen: "triple (freeze_is g fz pd) (store_do (\<lambda>s. set_flag s META_FROZEN b)) (\<lambda>_. freeze_is g b pd) E"
  using set_flag_ok [of _ META_FROZEN b]
  by (auto simp: triple_def freeze_is_def st_op_def flag_set_flag set_flag_fault meta_keys_distinct split: sum.splits) force+

lemma triple_set_pending: "triple (freeze_is g fz pd) (store_do (\<lambda>s. set_flag s META_FREEZE_PENDING b)) (\<lambda>_. freeze_is g fz b) E"
  using set_flag_ok [of _ META_FREEZE_PENDING b]
  by (auto simp: triple_def freeze_is_def st_op_def flag_set_flag set_flag_fault meta_keys_distinct split: sum.splits) force+

lemma triple_quiet: "quiet f \<Longrightarrow> triple (freeze_is g fz pd) (act_mod f) (\<lambda>_. freeze_is g fz pd) E"
  by (rule triple_mod) (rule quietD)

lemma triple_audit: "triple (freeze_is g fz pd) (log_audit now w x y) (\<lambda>_. freeze_is g fz pd) E"
  unfolding log_audit_def by (rule triple_mod) (simp add: freeze_is_def)

text \<open>A step that leaves the marks alone, and one that reads.\<close>

lemma triple_same: "triple P m (\<lambda>_. P) P \<Longrightarrow> (\<And>x. triple P (f x) R P) \<Longrightarrow> triple P (act_bind m f) R P"
  by (rule triple_bind)

lemma triple_get_generation:
  "triple (freeze_is g fz pd) (f g) R E \<Longrightarrow> triple (freeze_is g fz pd) (act_bind (act_get app_generation) f) R E"
  by (auto simp: triple_def act_bind_def freeze_is_def)

lemma unfreeze_if_current_settles: "freeze_is g fz pd a \<Longrightarrow> freeze_is g False False (unfreeze_if_current g a)"
proof -
  assume a: "freeze_is g fz pd a"
  let ?m = "act_bind (store_do (\<lambda>s. set_flag s META_FROZEN False)) (\<lambda>_. store_do (\<lambda>s. set_flag s META_FREEZE_PENDING False))"
  have t: "triple (freeze_is g fz pd) ?m (\<lambda>_. freeze_is g False False) (freeze_is g False False)"
    by (rule triple_bind [OF triple_set_frozen triple_set_pending])
  have "freeze_is g False False (snd (?m a))"
    using triple_OkD [OF t a] triple_ErrD [OF t a] by (cases "?m a"; cases "fst (?m a)") auto
  then show ?thesis using a by (simp add: unfreeze_if_current_def freeze_is_def)
qed

lemma triple_undoing:
  assumes "quiet mid" "triple (freeze_is g fz pd) m Q (freeze_is g fz pd)"
  shows "triple (freeze_is g fz pd) (undoing True g mid m) Q (freeze_is g False False)"
  using assms(2) quietD [OF assms(1)] unfreeze_if_current_settles
  unfolding triple_def undoing_def by (auto split: prod.splits sum.splits) blast

lemma snapshot_of_state: "snapshot_of ml pw a = (r, a') \<Longrightarrow> a' = a"
  by (simp add: snapshot_of_def)

lemma act_try_flags:
  assumes "freeze_is g True True a"
  shows "freeze_is g False False (snd (act_bind (act_try (store_do (\<lambda>s. set_flag s META_FROZEN False))) (\<lambda>_.
    act_try (store_do (\<lambda>s. set_flag s META_FREEZE_PENDING False)) :: unit handler) a))"
proof -
  have s: "triple (freeze_is g True True) (store_do (\<lambda>s. set_flag s META_FROZEN False)) (\<lambda>_. freeze_is g False True) (freeze_is g False True)"
    by (rule triple_set_frozen)
  have p: "triple (freeze_is g False True) (store_do (\<lambda>s. set_flag s META_FREEZE_PENDING False)) (\<lambda>_. freeze_is g False False) (freeze_is g False False)"
    by (rule triple_set_pending)
  have step: "R (snd (m b))" if "triple P m (\<lambda>_. R) R" "P b" for P R and m :: "unit handler" and b
    using triple_OkD [OF that] triple_ErrD [OF that] by (cases "m b"; cases "fst (m b)") auto
  show ?thesis
    using step [OF p step [OF s assms]] by (simp add: act_bind_def act_try_def)
qed

lemma triple_freeze_snapshot:
  "triple (freeze_is g False False) (freeze_snapshot ml pw) (\<lambda>x a. snd x \<and> freeze_is g True True a) (freeze_is g False False)"
proof -
  have f: "\<not> frozen a" if "freeze_is g False False a" for a using that by (simp add: freeze_is_def frozen_def)
  let ?set = "act_bind (store_do (\<lambda>s. set_flag s META_FREEZE_PENDING True)) (\<lambda>_. store_do (\<lambda>s. set_flag s META_FROZEN True))"
  have t: "triple (freeze_is g False False) ?set (\<lambda>_. freeze_is g True True) (freeze_is g False False)"
    by (rule triple_bind [OF triple_set_pending triple_set_frozen])
  have "triple (freeze_is g False False) (act_get (\<lambda>a. \<not> frozen a)) (\<lambda>x a. x \<and> freeze_is g False False a) (freeze_is g False False)"
    using f by (simp add: triple_def)
  then show ?thesis
    unfolding freeze_snapshot_def
  proof (rule triple_bind)
    fix froze
    show "triple (\<lambda>a. froze \<and> freeze_is g False False a)
       (act_bind (if froze then ?set else act_ret ()) (\<lambda>_ a. case snapshot_of ml pw a of
            (Ok x, a') \<Rightarrow> (Ok (x, froze), a')
          | (Err e, a') \<Rightarrow> (Err e, if froze
                      then snd (act_bind (act_try (store_do (\<lambda>s. set_flag s META_FROZEN False))) (\<lambda>_.
                                act_try (store_do (\<lambda>s. set_flag s META_FREEZE_PENDING False)) :: unit handler) a')
                      else a'))) (\<lambda>x a. snd x \<and> freeze_is g True True a) (freeze_is g False False)"
      apply (cases froze)
       apply (simp only: simp_thms if_True)
       apply (rule triple_bind [OF t])
       apply (auto simp: triple_def act_try_flags dest: snapshot_of_state split: prod.splits sum.splits)
      done
  qed
qed

lemma triple_export_task:
  assumes q: "quiet (ew_lock ew)" "quiet (ew_pack ew)" "quiet (ew_gate ew)" "quiet (ew_undo ew)"
  shows "triple (freeze_is g False False) (export_task lib ml xi ew th pw True)
    (\<lambda>d a. snd d = Some g \<and> freeze_is g True True a) (freeze_is g False False)"
proof -
  let ?P = "freeze_is g True True"
  have packing: "triple ?P
     (undoing froze g (ew_undo ew)
       (act_bind (act_mod (ew_pack ew)) (\<lambda>_.
        act_bind (act_read (\<lambda>a. map_err api_of_migrate (package ml xi (app_host_name a) pw db c))) (\<lambda>ex.
        act_bind (act_mod (ew_gate ew)) (\<lambda>_.
        act_bind (act_res (still_wanted (ew_gone_after ew))) (\<lambda>_.
        act_bind (act_get app_generation) (\<lambda>g'.
        act_bind (if g' = g
                  then log_audit (xi_now xi) (u_username admin) (if True then ''export.freeze'' else ''export'') (ex_file_name ex)
                  else act_ret ()) (\<lambda>_.
        act_ret (ex, if froze then Some g else None))))))))) (\<lambda>d a. snd d = Some g \<and> ?P a) (freeze_is g False False)"
    if "froze" for froze db c admin
    unfolding if_P [OF that] using that
    by (simp only: simp_thms if_True)
       (intro triple_undoing q triple_same triple_quiet triple_pure triple_get_generation,
        simp only: simp_thms if_True, intro triple_same triple_audit,
        simp add: triple_def)
  have frozen_on: "triple (freeze_is g False False)
      (act_bind (freeze_snapshot ml pw) (\<lambda>((db, c), froze). act_bind (act_get app_generation) (f db c froze)))
      (\<lambda>d a. snd d = Some g \<and> ?P a) (freeze_is g False False)"
    if "\<And>db c froze. froze \<Longrightarrow> triple ?P (f db c froze g) (\<lambda>d a. snd d = Some g \<and> ?P a) (freeze_is g False False)"
    for f :: "bytes \<Rightarrow> counts_rec \<Rightarrow> bool \<Rightarrow> 64 word \<Rightarrow> delivery handler"
  proof -
    have "triple (\<lambda>a. snd x \<and> ?P a) ((\<lambda>((db, c), froze). act_bind (act_get app_generation) (f db c froze)) x)
        (\<lambda>d a. snd d = Some g \<and> ?P a) (freeze_is g False False)" for x :: "(bytes \<times> counts_rec) \<times> bool"
    proof -
      obtain db c froze where fields: "x = ((db, c), froze)" by (metis surj_pair)
      show ?thesis
        unfolding fields prod.case snd_conv
        by (rule triple_pre_fact, rule triple_get_generation [where f = "f db c froze"], rule that)
    qed
    then show ?thesis by (rule triple_bind [OF triple_freeze_snapshot])
  qed
  show ?thesis
    unfolding export_task_def
    by (rule triple_same, rule triple_pure, rule triple_same, rule triple_quiet, rule q(1), rule triple_same, rule triple_pure,
        rule triple_same, rule triple_pure, subst if_P [OF TrueI], rule frozen_on, rule packing)
qed

lemma triple_hand_over:
  assumes q: "quiet (ew_hand ew)" "quiet (ew_undo ew)" and d: "snd d = Some g"
  shows "triple (freeze_is g True True) (hand_over ew d) (\<lambda>_. freeze_is g True False) (freeze_is g False False)"
  unfolding hand_over_def d option.case
proof (rule triple_undoing [OF q(2)], rule triple_same, rule triple_quiet, rule q(1), rule triple_get_generation)
  show "triple (freeze_is g True True)
      (act_bind (if g = g then store_do (\<lambda>s. set_flag s META_FREEZE_PENDING False) else act_ret ()) (\<lambda>_. act_ret (fst d)))
      (\<lambda>_. freeze_is g True False) (freeze_is g True True)"
    by (subst if_P [OF refl], rule triple_bind [OF triple_set_pending], rule triple_pure)
qed


section \<open>Witnesses\<close>

text \<open>Alice, whose name the configuration lists as an administrator, asks with her cookie.\<close>

definition sample_rq :: "string list \<Rightarrow> http_request" where
  "sample_rq cookies =
     \<lparr> rq_method = ''POST'', rq_path = ''/api/admin/users'', rq_host = Some ''proxy'', rq_origin = Some ''https://proxy'',
       rq_cookies = cookies, rq_instance = None, rq_upgrade = None, rq_ws_key = None, rq_accept_encoding = [],
       rq_if_none_match = [], rq_body_length = 0 \<rparr>"

definition sample_cookie :: string where
  "sample_cookie = COOKIE @ ''='' @ [CHR 0x07]"

definition sample_admin_inputs :: admin_inputs where
  "sample_admin_inputs =
     \<lparr> ai_now = 60, ai_instant = 1000, ai_random = (\<lambda>i. i), ai_salt = None, ai_nonce = None, ai_key = None,
       ai_token = ''token'', ai_mid = (\<lambda>a. a) \<rparr>"

definition sample_waiting :: export_waits where
  "sample_waiting =
     \<lparr> ew_lock = (\<lambda>a. a), ew_pack = (\<lambda>a. a), ew_gate = (\<lambda>a. a), ew_undo = (\<lambda>a. a), ew_hand = (\<lambda>a. a),
       ew_gone_before = False, ew_gone_after = False \<rparr>"

definition sample_ri :: route_inputs where
  "sample_ri = \<lparr> ri_admin = sample_admin_inputs, ri_export = sample_export, ri_waits = sample_waiting, ri_import = sample_confirm, ri_gone = False \<rparr>"

definition sample_any_lib :: migrate_lib where
  "sample_any_lib =
     \<lparr> ml_crypto = sample_crypto, ml_sha256 = (\<lambda>b. b), ml_snapshot = (\<lambda>_. Ok [42]), ml_open = (\<lambda>_. Ok sample_app_store),
       ml_integrity = (\<lambda>_. Ok ()), ml_to_json = (\<lambda>_. Ok [5]), ml_from_json = (\<lambda>_. Ok sample_manifest),
       ml_zip = (\<lambda>_ _. Ok [9]), ml_unzip = (\<lambda>_. Ok (\<lambda>_. None)) \<rparr>"

definition sample_host :: host where
  "sample_host = \<lparr> ho_app = sample_app, ho_files = [] \<rparr>"

lemma sample_asked:
  "admin_of sample_libs 60 (sample_rq []) sample_app = Err (api_error_of 401 ''sign in'')"
  "is_ok (fst (admin_route sample_libs sample_any_lib sample_ldap sample_ri (sample_rq [sample_cookie]) GetUsers sample_host))"
  by code_simp+


definition sample_frozen :: host where
  "sample_frozen = sample_host\<lparr>ho_app := sample_app\<lparr>app_store := sample_app_store\<lparr>meta := (meta sample_app_store)(META_FROZEN \<mapsto> bytes_of ''1'')\<rparr>\<rparr>\<rparr>"


definition sample_linked :: app where
  "sample_linked = sample_app\<lparr>app_live := set_server (snd (register live_new 1 [7] 0)) 0 1\<rparr>"

lemma sample_removals:
  "is_ok (fst (remove_user 60 (user_from (sample_user 1 ''alice'')) 1 sample_linked))"
  "is_ok (fst (set_user_servers 60 (user_from (sample_user 1 ''alice'')) 1 [2] sample_linked))"
  "(1, 1) \<notin> set (assignments (app_store (snd (set_user_servers 60 (user_from (sample_user 1 ''alice'')) 1 [2] sample_linked))))"
  "(1, 1) \<in> set (assignments (app_store sample_linked))"
  by code_simp+

theorem removed_access_ends_witness:
  "live_cancelled (app_live (snd (remove_user 60 (user_from (sample_user 1 ''alice'')) 1 sample_linked))) 0 \<and>
   live_cancelled (app_live (snd (set_user_servers 60 (user_from (sample_user 1 ''alice'')) 1 [2] sample_linked))) 0 \<and>
   \<not> live_cancelled (app_live sample_linked) 0"
proof -
  let ?u = "user_from (sample_user 1 ''alice'')"
  have g: "live_get (app_live sample_linked) 0 = Some \<lparr> lv_user_id = 1, lv_token_hash = [7], lv_server_id = Some 1,
      lv_established = False, lv_generation = 0, lv_incarnations = None, lv_cancel = True \<rparr>"
    by (simp add: sample_linked_def set_server_def live_update_def register_def live_new_def live_get_def Let_def)
  obtain x a1 where a1: "remove_user 60 ?u 1 sample_linked = (Ok x, a1)"
    using sample_removals(1) by (auto simp: is_ok_iff) (metis prod.collapse)
  obtain n a2 where a2: "set_user_servers 60 ?u 1 [2] sample_linked = (Ok n, a2)"
    using sample_removals(2) by (auto simp: is_ok_iff) (metis prod.collapse)
  show ?thesis
    using removed_access_ends [OF g, of 60 ?u 1 x a1 "[2]" n] removed_access_ends [OF g, of 60 ?u 1 x a2 "[2]" n] a1 a2
      sample_removals(3,4) g by (simp add: live_cancelled_def)
qed

lemma sample_csv:
  "is_ok (fst (import_servers sample_libs sample_admin_inputs (user_from (sample_user 1 ''alice'')) ''new,h1'' sample_app))"
  "is_ok (parse_import to_ascii_lowercase ''new,h1'')"
  by code_simp+


lemma sample_exports: "is_ok (fst (admin_export sample_libs sample_any_lib sample_export sample_waiting [7] sample_pw True sample_app))"
  by code_simp


end
