(* ===== verification/Spec2Isabelle.thy ===== *)
theory Spec2Isabelle
  imports WA_Store_Props WA_Policy WA_Settings WA_Auth WA_Live WA_Framing WA_Route WA_Scanner WA_Clip_Props
    WA_Notices WA_Vault WA_Config WA_Sso_Props WA_Connect_Props WA_Proxy_Props WA_Migrate_Props
    WA_Server_Props WA_Admin_Props
begin

text \<open>
  Verification of the web-access proxy.
\<close>

end
